theory Spec2Isabelle
  imports Complex_Main "HOL-Library.AList" "HOL-Library.Product_Lexorder"
begin

section \<open>Python values shared by the models\<close>

text \<open>
  The chunking code works on Python \<open>str\<close> values and counts code points; a
  \<^typ>\<open>char\<close> of the model stands for one code point (the range 0..255), so
  \<^const>\<open>length\<close> is Python's \<open>len\<close>. Python integers are \<^typ>\<open>int\<close>.
  Exceptions are values of the type \<open>error\<close>; a function that may raise returns
  \<open>error + 'a\<close> with \<open>Inl\<close> for the exception. \<open>WrappedException e\<close> is the
  \<open>Exception(f"Failed to ...: {e}")\<close> that the memory store raises from its
  \<open>except\<close> clauses. \<open>Unmodelled\<close> is no Python exception: it marks the one
  outcome that the model does not follow (sorting a list of scores of which only some are NaN).
\<close>

datatype error =
    ValueError string
  | IndexError
  | KeyError
  | WrappedException error
  | Unmodelled string

text \<open>\<open>str.isspace\<close> on one code point below 256; \<open>\s\<close> of \<open>re\<close> on \<open>str\<close>
  patterns accepts the same code points.\<close>

definition is_space :: "char \<Rightarrow> bool" where
  "is_space c = (of_char c \<in> {9, 10, 11, 12, 13, 28, 29, 30, 31, 32, 133, 160 :: nat})"

definition newline :: char where
  "newline = CHR 0x0A"

text \<open>\<open>[.!?]\<close>\<close>

definition is_terminal :: "char \<Rightarrow> bool" where
  "is_terminal c = (c = CHR ''.'' \<or> c = CHR ''!'' \<or> c = CHR ''?'')"

text \<open>\<open>[\s"')\]}]\<close>\<close>

definition is_closer :: "char \<Rightarrow> bool" where
  "is_closer c = (is_space c \<or> c = CHR 0x22 \<or> c = CHR 0x27 \<or> c = CHR '')'' \<or> c = CHR '']''
                   \<or> c = CHR ''}'')"

text \<open>\<open>s.strip()\<close>\<close>

definition strip :: "string \<Rightarrow> string" where
  "strip s = rev (dropWhile is_space (rev (dropWhile is_space s)))"

text \<open>\<open>xs[a:b]\<close> with Python's treatment of negative and out-of-range bounds.\<close>

definition py_index :: "nat \<Rightarrow> int \<Rightarrow> nat" where
  "py_index n a = nat (if a < 0 then max (a + int n) 0 else min a (int n))"

definition py_slice :: "'a list \<Rightarrow> int \<Rightarrow> int \<Rightarrow> 'a list" where
  "py_slice xs a b =
     (let lo = py_index (length xs) a; hi = py_index (length xs) b
      in take (hi - lo) (drop lo xs))"

text \<open>\<open>xs[:k]\<close>\<close>

definition py_take :: "int \<Rightarrow> 'a list \<Rightarrow> 'a list" where
  "py_take k xs = py_slice xs 0 k"

text \<open>\<open>s.split('\n')\<close>: one piece more than there are newlines, pieces may be empty.\<close>

fun split_nl :: "string \<Rightarrow> string list" where
  "split_nl [] = [[]]"
| "split_nl (c # cs) =
     (if c = newline then [] # split_nl cs
      else (case split_nl cs of [] \<Rightarrow> [[c]] | p # ps \<Rightarrow> (c # p) # ps))"

text \<open>\<open>'\n'.join(parts)\<close>\<close>

fun join_nl :: "string list \<Rightarrow> string" where
  "join_nl [] = []"
| "join_nl [p] = p"
| "join_nl (p # q # ps) = p @ newline # join_nl (q # ps)"

text \<open>\<open>text.find(sub, start)\<close>: the lowest index \<open>i \<ge> start\<close> with
  \<open>text[i:i+len(sub)] == sub\<close>, or \<open>-1\<close>. \<open>find_aux sub rest i\<close> scans the suffix
  \<open>rest\<close> of the text that begins at index \<open>i\<close>.\<close>

definition starts_with :: "string \<Rightarrow> string \<Rightarrow> bool" where
  "starts_with sub s = (take (length sub) s = sub)"

fun find_aux :: "string \<Rightarrow> string \<Rightarrow> nat \<Rightarrow> int" where
  "find_aux sub [] i = (if sub = [] then int i else - 1)"
| "find_aux sub (c # cs) i = (if starts_with sub (c # cs) then int i else find_aux sub cs (Suc i))"

definition py_find :: "string \<Rightarrow> string \<Rightarrow> int \<Rightarrow> int" where
  "py_find txt sub start =
     (let n = int (length txt); s = (if start < 0 then max (start + n) 0 else start)
      in if s > n then - 1 else find_aux sub (drop (nat s) txt) (nat s))"

section \<open>Chunk configuration and chunks (document_processing/chunking.py)\<close>

record ChunkConfig =
  chunk_size :: int
  chunk_overlap :: int
  min_chunk_size :: int
  split_on_newline :: bool
  respect_sentences :: bool

text \<open>\<open>ChunkConfig.__post_init__\<close>: the checks in the order of the source; the
  constructor returns the configuration only when none of them raises.\<close>

definition ChunkConfig_post_init :: "ChunkConfig \<Rightarrow> error + ChunkConfig" where
  "ChunkConfig_post_init c =
     (if chunk_size c \<le> 0 then Inl (ValueError ''Chunk size must be positive'')
      else if chunk_overlap c < 0 then Inl (ValueError ''Chunk overlap must be non-negative'')
      else if chunk_overlap c \<ge> chunk_size c
        then Inl (ValueError ''Chunk overlap must be less than chunk size'')
      else if min_chunk_size c \<le> 0 then Inl (ValueError ''Minimum chunk size must be positive'')
      else if min_chunk_size c > chunk_size c
        then Inl (ValueError ''Minimum chunk size must not exceed chunk size'')
      else Inr c)"

text \<open>The dataclass defaults: \<open>ChunkConfig(chunk_size=s, chunk_overlap=ov, min_chunk_size=m)\<close>
  with both boundary flags left at \<open>True\<close>.\<close>

definition mk_ChunkConfig :: "int \<Rightarrow> int \<Rightarrow> int \<Rightarrow> bool \<Rightarrow> bool \<Rightarrow> error + ChunkConfig" where
  "mk_ChunkConfig s ov m nl sen =
     ChunkConfig_post_init \<lparr>chunk_size = s, chunk_overlap = ov, min_chunk_size = m,
        split_on_newline = nl, respect_sentences = sen\<rparr>"

record 'm TextChunk =
  text_str :: string
  metadata :: 'm
  start_char :: int
  end_char :: int
  chunk_index :: nat

text \<open>The running state of one \<open>chunk_text\<close> call: the list \<open>chunks\<close> and the counter
  \<open>chunk_index\<close>. \<open>emit\<close> is the repeated \<open>chunks.append(TextChunk(...)); chunk_index += 1\<close>;
  \<open>metadata.copy()\<close> is the value of the dictionary.\<close>

type_synonym 'm chunk_state = "'m TextChunk list \<times> nat"

definition emit :: "'m \<Rightarrow> string \<Rightarrow> int \<Rightarrow> 'm chunk_state \<Rightarrow> 'm chunk_state" where
  "emit md t start st =
     (fst st @ [\<lparr>text_str = t, metadata = md, start_char = start,
                 end_char = start + int (length t), chunk_index = snd st\<rparr>],
      Suc (snd st))"

section \<open>SimpleChunker\<close>

text \<open>The \<open>match.end()\<close> values of \<open>re.finditer(r'[.!?][\s"\')\]}]*', s)\<close>, counted
  from index \<open>i\<close> of the first character of \<open>s\<close>. Every terminal character starts a
  match, because the greedy tail never consumes a terminal character.\<close>

fun sentence_ends :: "nat \<Rightarrow> string \<Rightarrow> nat list" where
  "sentence_ends i [] = []"
| "sentence_ends i (c # cs) =
     (if is_terminal c then (Suc i + length (takeWhile is_closer cs)) # sentence_ends (Suc i) cs
      else sentence_ends (Suc i) cs)"

text \<open>The \<open>match.start()\<close> values of \<open>re.finditer(r'\n', s)\<close>.\<close>

fun newline_starts :: "nat \<Rightarrow> string \<Rightarrow> nat list" where
  "newline_starts i [] = []"
| "newline_starts i (c # cs) =
     (if c = newline then i # newline_starts (Suc i) cs else newline_starts (Suc i) cs)"

definition find_sentence_boundary :: "ChunkConfig \<Rightarrow> string \<Rightarrow> int \<Rightarrow> int \<Rightarrow> int" where
  "find_sentence_boundary cfg txt start_pos end_pos =
     (let search_text = py_slice txt start_pos end_pos;
          boundaries = filter (\<lambda>pos. pos > start_pos + min_chunk_size cfg)
                         (map (\<lambda>e. start_pos + int e) (sentence_ends 0 search_text))
      in if boundaries = [] then end_pos
         else (case filter (\<lambda>pos. pos \<le> end_pos) (rev boundaries) of
                 [] \<Rightarrow> end_pos
               | pos # _ \<Rightarrow> pos))"

definition find_newline_boundary :: "ChunkConfig \<Rightarrow> string \<Rightarrow> int \<Rightarrow> int \<Rightarrow> int" where
  "find_newline_boundary cfg txt start_pos end_pos =
     (let search_text = py_slice txt start_pos end_pos;
          boundaries = filter (\<lambda>pos. pos > start_pos + min_chunk_size cfg)
                         (map (\<lambda>s. start_pos + int s) (newline_starts 0 search_text))
      in if boundaries = [] then end_pos
         else (case filter (\<lambda>pos. pos > start_pos + min_chunk_size cfg) boundaries of
                 [] \<Rightarrow> end_pos
               | pos # _ \<Rightarrow> pos))"

text \<open>The value of \<open>chunk_end\<close> when the chunk is cut (source lines 86 to 99).\<close>

definition simple_chunk_end :: "ChunkConfig \<Rightarrow> string \<Rightarrow> int \<Rightarrow> int" where
  "simple_chunk_end cfg txt current_pos =
     (let n = int (length txt);
          e0 = min (current_pos + chunk_size cfg) n;
          e1 = (if split_on_newline cfg \<and> e0 < n
                then (let newline_pos = find_newline_boundary cfg txt current_pos e0
                      in if newline_pos > current_pos + min_chunk_size cfg then newline_pos else e0)
                else e0)
      in if e1 < n \<and> respect_sentences cfg
         then (let sentence_end = find_sentence_boundary cfg txt current_pos e1
               in if sentence_end > current_pos + min_chunk_size cfg then sentence_end else e1)
         else e1)"

text \<open>The loop \<open>for line in lines[:-1]\<close>.\<close>

fun emit_lines :: "string \<Rightarrow> 'm \<Rightarrow> int \<Rightarrow> string list \<Rightarrow> 'm chunk_state \<Rightarrow> 'm chunk_state" where
  "emit_lines txt md current_pos [] st = st"
| "emit_lines txt md current_pos (l # ls) st =
     (let line = strip l
      in emit_lines txt md current_pos ls
           (if line \<noteq> [] then emit md line (py_find txt line current_pos) st else st))"

text \<open>The chunks appended in one iteration (source lines 102 to 132).\<close>

definition simple_emit ::
  "ChunkConfig \<Rightarrow> string \<Rightarrow> 'm \<Rightarrow> int \<Rightarrow> int \<Rightarrow> 'm chunk_state \<Rightarrow> 'm chunk_state" where
  "simple_emit cfg txt md current_pos chunk_end st =
     (let chunk_text = strip (py_slice txt current_pos chunk_end)
      in if chunk_text \<noteq> [] then
           (let (st1, rest) =
                  (if split_on_newline cfg \<and> chunk_end < int (length txt)
                   then (let lines = split_nl chunk_text
                         in (emit_lines txt md current_pos (butlast lines) st, strip (last lines)))
                   else (st, chunk_text))
            in if rest \<noteq> [] then emit md rest (py_find txt rest current_pos) st1 else st1)
         else st)"

text \<open>The cursor for the next iteration (source lines 135 to 137): the test compares
  the new value of \<open>current_pos\<close> with itself.\<close>

definition next_pos :: "ChunkConfig \<Rightarrow> int \<Rightarrow> int" where
  "next_pos cfg chunk_end =
     (let current_pos = chunk_end - chunk_overlap cfg
      in if current_pos \<le> current_pos then chunk_end else current_pos)"

text \<open>One iteration of the \<open>while\<close> loop: the new cursor and the new state.\<close>

definition simple_body ::
  "ChunkConfig \<Rightarrow> string \<Rightarrow> 'm \<Rightarrow> int \<Rightarrow> 'm chunk_state \<Rightarrow> int \<times> 'm chunk_state" where
  "simple_body cfg txt md current_pos st =
     (let chunk_end = simple_chunk_end cfg txt current_pos
      in (next_pos cfg chunk_end, simple_emit cfg txt md current_pos chunk_end st))"

text \<open>\<open>while current_pos < len(text)\<close>. The loop need not end for every
  configuration, so not returning is the value \<open>None\<close>.\<close>

partial_function (option) simple_loop ::
  "ChunkConfig \<Rightarrow> string \<Rightarrow> 'm \<Rightarrow> int \<Rightarrow> 'm chunk_state \<Rightarrow> 'm TextChunk list option" where
  "simple_loop cfg txt md current_pos st =
     (if current_pos < int (length txt)
      then simple_loop cfg txt md (fst (simple_body cfg txt md current_pos st))
             (snd (simple_body cfg txt md current_pos st))
      else Some (fst st))"

text \<open>\<open>SimpleChunker.chunk_text\<close>; \<open>metadata or {}\<close> turns \<open>None\<close> into the empty
  dictionary.\<close>

definition SimpleChunker_chunk_text ::
  "ChunkConfig \<Rightarrow> string \<Rightarrow> ('k \<rightharpoonup> 'v) option \<Rightarrow> ('k \<rightharpoonup> 'v) TextChunk list option" where
  "SimpleChunker_chunk_text cfg txt md =
     (if txt = [] then Some []
      else simple_loop cfg txt (case md of None \<Rightarrow> Map.empty | Some m \<Rightarrow> m) 0 ([], 0))"

declare simple_loop.simps [code]

section \<open>RecursiveChunker\<close>

text \<open>\<open>re.split(r'\n\s*\n', text)\<close>. A match starts at the leftmost newline whose
  following run of whitespace holds another newline, and the greedy \<open>\s*\<close> ends it at
  the last newline of that run. \<open>acc\<close> is the piece read so far, reversed.\<close>

definition after_last_newline :: "string \<Rightarrow> string" where
  "after_last_newline ws = rev (takeWhile (\<lambda>c. c \<noteq> newline) (rev ws))"

function split_major_aux :: "string \<Rightarrow> string \<Rightarrow> string list" where
  "split_major_aux acc [] = [rev acc]"
| "split_major_aux acc (c # cs) =
     (let ws = takeWhile is_space cs
      in if c = newline \<and> newline \<in> set ws
         then rev acc # split_major_aux [] (drop (length ws - length (after_last_newline ws)) cs)
         else split_major_aux (c # acc) cs)"
  by pat_completeness auto
termination
  by (relation "measure (\<lambda>(acc, s). length s)") auto

definition split_major :: "string \<Rightarrow> string list" where
  "split_major s = split_major_aux [] s"

text \<open>\<open>re.split(r'(?<=[.!?])\s+', subsection)\<close>: a match is a maximal run of
  whitespace that directly follows a terminal character.\<close>

function split_sentences_aux :: "string \<Rightarrow> string \<Rightarrow> string list" where
  "split_sentences_aux acc [] = [rev acc]"
| "split_sentences_aux acc (c # cs) =
     (if is_terminal c \<and> cs \<noteq> [] \<and> is_space (hd cs)
      then rev (c # acc) # split_sentences_aux [] (dropWhile is_space cs)
      else split_sentences_aux (c # acc) cs)"
  by pat_completeness auto
termination
  by (relation "measure (\<lambda>(acc, s). length s)") (auto simp: less_Suc_eq_le length_dropWhile_le)

definition split_sentences :: "string \<Rightarrow> string list" where
  "split_sentences s = split_sentences_aux [] s"

text \<open>\<open>range(0, n, step)\<close> for \<open>n = len(sentence)\<close>: a zero step raises, a negative step
  gives the empty range.\<close>

definition range0 :: "nat \<Rightarrow> int \<Rightarrow> error + int list" where
  "range0 n step =
     (if step = 0 then Inl (ValueError ''range() arg 3 must not be zero'')
      else if step < 0 then Inr []
      else Inr (map (\<lambda>k. int k * step) [0 ..< nat ((int n + step - 1) div step)]))"

text \<open>The buffer of one section: \<open>current_chunk\<close>, \<open>current_length\<close> and the state of
  the whole call.\<close>

type_synonym 'm buffer_state = "string list \<times> int \<times> 'm chunk_state"

text \<open>Appending the chunk \<open>t\<close> with \<open>start_char = text.find(t)\<close>.\<close>

definition emit_found :: "string \<Rightarrow> 'm \<Rightarrow> string \<Rightarrow> 'm chunk_state \<Rightarrow> 'm chunk_state" where
  "emit_found txt md t st = emit md t (py_find txt t 0) st"

text \<open>The last resort (source lines 281 to 291): pieces of \<open>chunk_size\<close> characters.\<close>

definition hard_split ::
  "ChunkConfig \<Rightarrow> string \<Rightarrow> 'm \<Rightarrow> string \<Rightarrow> 'm chunk_state \<Rightarrow> error + 'm chunk_state" where
  "hard_split cfg txt md sentence st =
     (case range0 (length sentence) (chunk_size cfg) of
        Inl e \<Rightarrow> Inl e
      | Inr is \<Rightarrow>
          Inr (foldl (\<lambda>s i. emit_found txt md (py_slice sentence i (i + chunk_size cfg)) s) st is))"

text \<open>\<open>for sentence in sentences\<close> (source lines 278 to 308).\<close>

fun sentence_loop ::
  "ChunkConfig \<Rightarrow> string \<Rightarrow> 'm \<Rightarrow> string list \<Rightarrow> 'm buffer_state \<Rightarrow> error + 'm buffer_state" where
  "sentence_loop cfg txt md [] b = Inr b"
| "sentence_loop cfg txt md (sentence # rest) (current_chunk, current_length, st) =
     (if int (length sentence) > chunk_size cfg
      then (case hard_split cfg txt md sentence st of
              Inl e \<Rightarrow> Inl e
            | Inr st' \<Rightarrow> sentence_loop cfg txt md rest (current_chunk, current_length, st'))
      else (let current_chunk' = current_chunk @ [sentence];
                current_length' = current_length + int (length sentence)
            in if current_length' > chunk_size cfg
               then sentence_loop cfg txt md rest
                      ([], 0, emit_found txt md (join_nl current_chunk') st)
               else sentence_loop cfg txt md rest (current_chunk', current_length', st)))"

text \<open>\<open>for subsection in subsections\<close> (source lines 254 to 311).\<close>

fun subsection_loop ::
  "ChunkConfig \<Rightarrow> string \<Rightarrow> 'm \<Rightarrow> string list \<Rightarrow> 'm buffer_state \<Rightarrow> error + 'm buffer_state" where
  "subsection_loop cfg txt md [] b = Inr b"
| "subsection_loop cfg txt md (sub # rest) (current_chunk, current_length, st) =
     (let subsection = strip sub
      in if subsection = [] then subsection_loop cfg txt md rest (current_chunk, current_length, st)
         else
           (let b1 = (if current_length + int (length subsection) > chunk_size cfg
                         \<and> current_chunk \<noteq> []
                      then ([], 0, emit_found txt md (join_nl current_chunk) st)
                      else (current_chunk, current_length, st))
            in if int (length subsection) > chunk_size cfg
               then (case sentence_loop cfg txt md (split_sentences subsection) b1 of
                       Inl e \<Rightarrow> Inl e
                     | Inr b2 \<Rightarrow> subsection_loop cfg txt md rest b2)
               else subsection_loop cfg txt md rest
                      (fst b1 @ [subsection], fst (snd b1) + int (length subsection),
                       snd (snd b1))))"

text \<open>\<open>for section in major_sections\<close> (source lines 232 to 324).\<close>

fun section_loop ::
  "ChunkConfig \<Rightarrow> string \<Rightarrow> 'm \<Rightarrow> string list \<Rightarrow> 'm chunk_state \<Rightarrow> error + 'm chunk_state" where
  "section_loop cfg txt md [] st = Inr st"
| "section_loop cfg txt md (sec # rest) st =
     (let section = strip sec
      in if section = [] then section_loop cfg txt md rest st
         else if int (length section) \<le> chunk_size cfg
           then section_loop cfg txt md rest (emit_found txt md section st)
         else (case subsection_loop cfg txt md (split_nl section) ([], 0, st) of
                 Inl e \<Rightarrow> Inl e
               | Inr (current_chunk, current_length, st') \<Rightarrow>
                   section_loop cfg txt md rest
                     (if current_chunk \<noteq> [] then emit_found txt md (join_nl current_chunk) st'
                      else st')))"

definition RecursiveChunker_chunk_text ::
  "ChunkConfig \<Rightarrow> string \<Rightarrow> ('k \<rightharpoonup> 'v) option \<Rightarrow> error + ('k \<rightharpoonup> 'v) TextChunk list" where
  "RecursiveChunker_chunk_text cfg txt md =
     (if txt = [] then Inr []
      else (case section_loop cfg txt (case md of None \<Rightarrow> Map.empty | Some m \<Rightarrow> m)
                   (split_major txt) ([], 0) of
              Inl e \<Rightarrow> Inl e
            | Inr st \<Rightarrow> Inr (fst st)))"

section \<open>Float64 values and the operations of numpy\<close>

text \<open>
  Embeddings are numpy arrays of float64 and scores are Python floats. A float64 value is
  a finite number, one of the two infinities, or NaN; the finite ones are written as the
  real numbers they denote. The comparisons of Python on these values are exact: NaN
  compares false with everything, also with itself.
\<close>

datatype f64 = Fin real | PInf | NInf | NaN

text \<open>\<open>a < b\<close>, \<open>a > b\<close> and \<open>a >= b\<close>\<close>

fun f64_lt :: "f64 \<Rightarrow> f64 \<Rightarrow> bool" where
  "f64_lt (Fin x) (Fin y) = (x < y)"
| "f64_lt (Fin x) PInf = True"
| "f64_lt NInf (Fin y) = True"
| "f64_lt NInf PInf = True"
| "f64_lt a b = False"

fun is_nan :: "f64 \<Rightarrow> bool" where
  "is_nan NaN = True"
| "is_nan a = False"

definition f64_gt :: "f64 \<Rightarrow> f64 \<Rightarrow> bool" where
  "f64_gt a b = f64_lt b a"

definition f64_ge :: "f64 \<Rightarrow> f64 \<Rightarrow> bool" where
  "f64_ge a b = (f64_lt b a \<or> (a = b \<and> \<not> is_nan a))"

text \<open>\<open>-a\<close>, which changes the sign and does not round.\<close>

fun f64_neg :: "f64 \<Rightarrow> f64" where
  "f64_neg (Fin x) = Fin (- x)"
| "f64_neg PInf = NInf"
| "f64_neg NInf = PInf"
| "f64_neg NaN = NaN"

text \<open>The place of a value other than NaN in the order of float64 (\<open>-inf\<close>, the finite
  values, \<open>+inf\<close>), as a pair ordered lexicographically. It is the sort key of the
  models of \<open>list.sort\<close> and \<open>sorted\<close>, which are stable.\<close>

fun f64_key :: "f64 \<Rightarrow> int \<times> real" where
  "f64_key (Fin x) = (0, x)"
| "f64_key PInf = (1, 0)"
| "f64_key NInf = (- 1, 0)"
| "f64_key NaN = (2, 0)"

text \<open>
  Arithmetic on float64 rounds, and how \<open>numpy.linalg.norm\<close> and \<open>numpy.dot\<close> round
  is decided by numpy and by the BLAS library it is linked with (the order of the
  summation is not fixed). The arithmetic that the code calls is therefore a parameter of
  the model: a record of the five operations, on float64 values.
    \<^item> \<open>np_linalg_norm v\<close> is \<open>np.linalg.norm(v)\<close> of a one-dimensional array;
    \<^item> \<open>np_true_divide x y\<close> is \<open>x / y\<close> and \<open>np_subtract x y\<close> is \<open>x - y\<close> on two
      float64 values; on arrays numpy applies them elementwise;
    \<^item> \<open>np_dot_1d a b\<close> is \<open>np.dot(a, b)\<close> of two one-dimensional arrays of the same
      length;
    \<^item> \<open>np_dot_2d m q\<close> is \<open>np.dot(m, q)\<close> of a two-dimensional array, given as the
      list of its rows, and a one-dimensional array as long as the rows.

  Nothing is assumed of the five operations: a statement with the parameter \<open>ops\<close> holds
  for every record, so for the operations of numpy with their rounding, overflow and
  underflow.
\<close>

record numpy_ops =
  np_linalg_norm :: "f64 list \<Rightarrow> f64"
  np_true_divide :: "f64 \<Rightarrow> f64 \<Rightarrow> f64"
  np_subtract :: "f64 \<Rightarrow> f64 \<Rightarrow> f64"
  np_dot_1d :: "f64 list \<Rightarrow> f64 list \<Rightarrow> f64"
  np_dot_2d :: "f64 list list \<Rightarrow> f64 list \<Rightarrow> f64 list"

text \<open>\<open>v / np.linalg.norm(v)\<close>, with no test of the norm.\<close>

definition np_divide_norm :: "numpy_ops \<Rightarrow> f64 list \<Rightarrow> f64 list" where
  "np_divide_norm ops v = map (\<lambda>x. np_true_divide ops x (np_linalg_norm ops v)) v"

text \<open>\<open>np.dot(a, b)\<close> on two one-dimensional arrays, which raises when the lengths
  differ.\<close>

definition np_dot :: "numpy_ops \<Rightarrow> f64 list \<Rightarrow> f64 list \<Rightarrow> error + f64" where
  "np_dot ops a b =
     (if length a \<noteq> length b then Inl (ValueError ''shapes not aligned'')
      else Inr (np_dot_1d ops a b))"


section \<open>Metadata dictionaries\<close>

text \<open>The values found in metadata, with Python's \<open>==\<close> as equality; a dictionary is
  the list of its items, looked up by key.\<close>

datatype pyval = PyNone | PyStr string | PyInt int

type_synonym mdict = "(string \<times> pyval) list"

text \<open>\<open>metadata.get(k)\<close>\<close>

definition dict_get :: "mdict \<Rightarrow> string \<Rightarrow> pyval" where
  "dict_get m k = (case map_of m k of None \<Rightarrow> PyNone | Some v \<Rightarrow> v)"

text \<open>\<open>all(metadata.get(k) == v for k, v in filters.items())\<close>\<close>

definition matches_filter :: "mdict \<Rightarrow> mdict \<Rightarrow> bool" where
  "matches_filter m flt = list_all (\<lambda>(k, v). dict_get m k = v) flt"

text \<open>\<open>if filters:\<close> holds for a dictionary that is neither \<open>None\<close> nor empty.\<close>

definition truthy :: "'a list option \<Rightarrow> bool" where
  "truthy x = (case x of None \<Rightarrow> False | Some l \<Rightarrow> l \<noteq> [])"

section \<open>MemoryStore (vector_store/memory_store.py)\<close>

record VectorStoreConfig =
  collection_name :: string
  embedding_dimension :: int
  distance_metric :: string

text \<open>The three dictionaries keyed by id keep their insertion order, which is the
  order of iteration in \<open>search\<close>. \<open>uuid_count\<close> counts the calls of \<open>uuid4()\<close> made
  so far; the generator itself is a parameter of \<open>add_texts\<close>. The field \<open>timestamp\<close>
  of a result (the wall clock) is left out.\<close>

record MemoryStore =
  ms_config :: VectorStoreConfig
  ms_texts :: "(string \<times> string) list"
  ms_embeddings :: "(string \<times> f64 list) list"
  ms_metadata :: "(string \<times> mdict) list"
  uuid_count :: nat


definition MemoryStore_validate_config :: "VectorStoreConfig \<Rightarrow> error + unit" where
  "MemoryStore_validate_config c =
     (if collection_name c = [] then Inl (ValueError ''Collection name is required'')
      else if embedding_dimension c \<le> 0 then Inl (ValueError ''Embedding dimension must be positive'')
      else Inr ())"

definition MemoryStore_init :: "VectorStoreConfig \<Rightarrow> error + MemoryStore" where
  "MemoryStore_init c =
     (case MemoryStore_validate_config c of
        Inl e \<Rightarrow> Inl e
      | Inr _ \<Rightarrow> Inr \<lparr>ms_config = c, ms_texts = [], ms_embeddings = [], ms_metadata = [],
                      uuid_count = 0\<rparr>)"

text \<open>The normalisation of \<open>add_texts\<close> (source lines 61 to 64).\<close>

definition normalize_embedding :: "numpy_ops \<Rightarrow> f64 list \<Rightarrow> f64 list" where
  "normalize_embedding ops embedding =
     (let norm = np_linalg_norm ops embedding
      in if f64_gt norm (Fin 0) then map (\<lambda>x. np_true_divide ops x norm) embedding
         else embedding)"

text \<open>The loop \<open>for i, (text, embedding) in enumerate(zip(texts, embeddings))\<close>. The
  store is changed in place, so the entries written before an exception stay.\<close>

fun add_loop ::
  "numpy_ops \<Rightarrow> mdict list option \<Rightarrow> string list \<Rightarrow> nat \<Rightarrow> (string \<times> f64 list) list
     \<Rightarrow> MemoryStore \<Rightarrow> error option \<times> MemoryStore" where
  "add_loop ops md ids i [] st = (None, st)"
| "add_loop ops md ids i ((t, embedding) # rest) st =
     (if i \<ge> length ids then (Some IndexError, st)
      else
        (let ident = ids ! i;
             embedding_array = normalize_embedding ops embedding
         in add_loop ops md ids (Suc i) rest
              (st\<lparr>ms_texts := AList.update ident t (ms_texts st),
                  ms_embeddings := AList.update ident embedding_array (ms_embeddings st),
                  ms_metadata := AList.update ident
                     (if truthy md \<and> i < length (the md) then the md ! i else [])
                     (ms_metadata st)\<rparr>)))"

text \<open>\<open>MemoryStore.add_texts\<close>: the result and the store after the call.\<close>

definition MemoryStore_add_texts ::
  "numpy_ops \<Rightarrow> (nat \<Rightarrow> string) \<Rightarrow> MemoryStore \<Rightarrow> string list \<Rightarrow> f64 list list
     \<Rightarrow> mdict list option \<Rightarrow> string list option \<Rightarrow> (error + string list) \<times> MemoryStore" where
  "MemoryStore_add_texts ops uuid4 st txts embs md ids =
     (let (ids', st0) =
            (case ids of
               None \<Rightarrow> (map uuid4 [uuid_count st ..< uuid_count st + length txts],
                         st\<lparr>uuid_count := uuid_count st + length txts\<rparr>)
             | Some l \<Rightarrow> (l, st))
      in case add_loop ops md ids' 0 (zip txts embs) st0 of
           (Some e, st') \<Rightarrow> (Inl (WrappedException e), st')
         | (None, st') \<Rightarrow> (Inr ids', st'))"






section \<open>MemoryVectorStore (vector_store/memory.py)\<close>

text \<open>
  The store keeps references to the metadata dictionaries it is given. A reference is an
  address into a heap of dictionaries, so that two references to one dictionary are the
  same address. A new dictionary \<open>{}\<close> takes the next free address.
\<close>

type_synonym addr = nat

record heap =
  cells :: "addr \<Rightarrow> mdict"
  next_free :: addr

definition alloc :: "mdict \<Rightarrow> heap \<Rightarrow> addr \<times> heap" where
  "alloc d h = (next_free h, h\<lparr>cells := (cells h)(next_free h := d), next_free := Suc (next_free h)\<rparr>)"

fun alloc_many :: "nat \<Rightarrow> heap \<Rightarrow> addr list \<times> heap" where
  "alloc_many 0 h = ([], h)"
| "alloc_many (Suc n) h =
     (case alloc [] h of (a, h') \<Rightarrow> (case alloc_many n h' of (as, h'') \<Rightarrow> (a # as, h'')))"

record MemoryVectorStore =
  texts :: "string list"
  embeddings :: "f64 list list"
  metadatas :: "addr list"

record 'm SearchResult =
  chunk :: "'m TextChunk"
  score :: f64

text \<open>\<open>xs[0]\<close>\<close>

definition first_item :: "'a list \<Rightarrow> error + 'a" where
  "first_item xs = (case xs of [] \<Rightarrow> Inl IndexError | x # _ \<Rightarrow> Inr x)"

text \<open>\<open>MemoryVectorStore.get_embedding\<close>; \<open>provider\<close> is
  \<open>embeddings_provider.get_embeddings_sync\<close>.\<close>

definition MemoryVectorStore_get_embedding ::
  "(string list \<Rightarrow> error + f64 list list) \<Rightarrow> string \<Rightarrow> error + f64 list" where
  "MemoryVectorStore_get_embedding provider t =
     (case provider [t] of Inl e \<Rightarrow> Inl e | Inr es \<Rightarrow> first_item es)"

text \<open>\<open>MemoryVectorStore.add_text\<close>; \<open>metadata or {}\<close> keeps the caller's dictionary
  unless it is \<open>None\<close> or empty.\<close>

definition add_text ::
  "(string list \<Rightarrow> error + f64 list list) \<Rightarrow> heap \<Rightarrow> MemoryVectorStore \<Rightarrow> string \<Rightarrow> addr option
     \<Rightarrow> f64 list option \<Rightarrow> error + heap \<times> MemoryVectorStore" where
  "add_text provider h st t md embedding =
     (case (case embedding of None \<Rightarrow> MemoryVectorStore_get_embedding provider t
                            | Some e \<Rightarrow> Inr e) of
        Inl err \<Rightarrow> Inl err
      | Inr e \<Rightarrow>
          (let (a, h') = (case md of
                            None \<Rightarrow> alloc [] h
                          | Some a \<Rightarrow> if cells h a = [] then alloc [] h else (a, h))
           in Inr (h', st\<lparr>texts := texts st @ [t], embeddings := embeddings st @ [e],
                          metadatas := metadatas st @ [a]\<rparr>)))"

text \<open>\<open>MemoryVectorStore.add_texts\<close>\<close>

definition add_texts ::
  "(string list \<Rightarrow> error + f64 list list) \<Rightarrow> heap \<Rightarrow> MemoryVectorStore \<Rightarrow> string list
     \<Rightarrow> addr list option \<Rightarrow> f64 list list option \<Rightarrow> error + heap \<times> MemoryVectorStore" where
  "add_texts provider h st txts mds embs =
     (case (case embs of None \<Rightarrow> provider txts | Some es \<Rightarrow> Inr es) of
        Inl err \<Rightarrow> Inl err
      | Inr es \<Rightarrow>
          (let (as, h') = (case mds of None \<Rightarrow> alloc_many (length txts) h | Some l \<Rightarrow> (l, h))
           in Inr (h', st\<lparr>texts := texts st @ txts, embeddings := embeddings st @ es,
                          metadatas := metadatas st @ as\<rparr>)))"

text \<open>\<open>np.dot(np.array(self.embeddings), query_embedding)\<close>: the rows must have one
  length, which must be the length of the query.\<close>

definition np_matvec :: "numpy_ops \<Rightarrow> f64 list list \<Rightarrow> f64 list \<Rightarrow> error + f64 list" where
  "np_matvec ops es q =
     (if \<exists>e \<in> set es. length e \<noteq> length (hd es)
      then Inl (ValueError ''inhomogeneous shape'')
      else if es \<noteq> [] \<and> length (hd es) \<noteq> length q then Inl (ValueError ''shapes not aligned'')
      else Inr (np_dot_2d ops es q))"

text \<open>\<open>xs[i]\<close> for an index that is not negative.\<close>

definition item_at :: "'a list \<Rightarrow> nat \<Rightarrow> error + 'a" where
  "item_at xs i = (if i < length xs then Inr (xs ! i) else Inl IndexError)"

text \<open>\<open>for i, similarity in enumerate(similarities)\<close> (source lines 92 to 101); the
  argument list pairs each similarity with its index. \<open>min_score\<close> is a finite float.\<close>

fun scan_similarities ::
  "heap \<Rightarrow> MemoryVectorStore \<Rightarrow> real \<Rightarrow> mdict option \<Rightarrow> (nat \<times> f64) list
     \<Rightarrow> error + (nat \<times> f64) list" where
  "scan_similarities h st min_score filters [] = Inr []"
| "scan_similarities h st min_score filters ((i, similarity) # rest) =
     (if truthy filters
      then (case item_at (metadatas st) i of
              Inl err \<Rightarrow> Inl err
            | Inr a \<Rightarrow>
                if \<not> matches_filter (cells h a) (the filters)
                then scan_similarities h st min_score filters rest
                else (case scan_similarities h st min_score filters rest of
                        Inl err \<Rightarrow> Inl err
                      | Inr rs \<Rightarrow>
                          Inr (if f64_ge similarity (Fin min_score) then (i, similarity) # rs
                               else rs)))
      else (case scan_similarities h st min_score filters rest of
              Inl err \<Rightarrow> Inl err
            | Inr rs \<Rightarrow>
                Inr (if f64_ge similarity (Fin min_score) then (i, similarity) # rs else rs)))"

text \<open>\<open>for i, (idx, score) in enumerate(results)\<close> (source lines 111 to 119).\<close>

fun build_results ::
  "MemoryVectorStore \<Rightarrow> nat \<Rightarrow> (nat \<times> f64) list \<Rightarrow> error + addr SearchResult list" where
  "build_results st i [] = Inr []"
| "build_results st i ((idx, s) # rest) =
     (case item_at (texts st) idx of
        Inl err \<Rightarrow> Inl err
      | Inr t \<Rightarrow>
         (case item_at (metadatas st) idx of
            Inl err \<Rightarrow> Inl err
          | Inr a \<Rightarrow>
             (case build_results st (Suc i) rest of
                Inl err \<Rightarrow> Inl err
              | Inr rs \<Rightarrow>
                  Inr (\<lparr>chunk = \<lparr>text_str = t, metadata = a, start_char = 0,
                                 end_char = int (length t), chunk_index = i\<rparr>,
                        score = s\<rparr> # rs))))"

text \<open>\<open>MemoryVectorStore.similarity_search\<close>; \<open>results.sort(key=..., reverse=True)\<close>
  is a stable sort by descending score. No score in \<open>results\<close> is NaN, because NaN fails
  the test \<open>similarity >= min_score\<close>.\<close>

definition similarity_search ::
  "numpy_ops \<Rightarrow> heap \<Rightarrow> MemoryVectorStore \<Rightarrow> f64 list \<Rightarrow> int \<Rightarrow> real \<Rightarrow> mdict option
     \<Rightarrow> error + addr SearchResult list" where
  "similarity_search ops h st query_embedding k min_score filters =
     (if embeddings st = [] then Inr []
      else (case np_matvec ops (embeddings st) query_embedding of
              Inl err \<Rightarrow> Inl err
            | Inr similarities \<Rightarrow>
               (case scan_similarities h st min_score filters
                       (zip [0 ..< length similarities] similarities) of
                  Inl err \<Rightarrow> Inl err
                | Inr results \<Rightarrow>
                    build_results st 0
                      (py_take k (sort_key (\<lambda>x. f64_key (f64_neg (snd x))) results)))))"

section \<open>Retrieval (rag/retrieval.py)\<close>

record RetrievalConfig =
  top_k :: int
  min_similarity :: real
  rerank_results :: bool
  filter_duplicates :: bool
  duplicate_threshold :: real

text \<open>\<open>RetrievalConfig.__post_init__\<close>\<close>

definition RetrievalConfig_post_init :: "RetrievalConfig \<Rightarrow> error + RetrievalConfig" where
  "RetrievalConfig_post_init c =
     (if top_k c \<le> 0 then Inl (ValueError ''top_k must be positive'')
      else if \<not> (0 \<le> min_similarity c \<and> min_similarity c \<le> 1)
        then Inl (ValueError ''min_similarity must be between 0 and 1'')
      else if \<not> (0 \<le> duplicate_threshold c \<and> duplicate_threshold c \<le> 1)
        then Inl (ValueError ''duplicate_threshold must be between 0 and 1'')
      else Inr c)"

record 'm RetrievedChunk =
  rc_chunk :: "'m TextChunk"
  similarity :: f64
  rank :: nat

text \<open>The inner loop of \<open>_filter_duplicates\<close> (source lines 100 to 105): the first
  seen embedding whose similarity exceeds the threshold ends it.\<close>

fun is_duplicate :: "numpy_ops \<Rightarrow> real \<Rightarrow> f64 list \<Rightarrow> f64 list list \<Rightarrow> error + bool" where
  "is_duplicate ops thr chunk_embedding [] = Inr False"
| "is_duplicate ops thr chunk_embedding (seen_embedding # rest) =
     (case np_dot ops chunk_embedding seen_embedding of
        Inl err \<Rightarrow> Inl err
      | Inr sim \<Rightarrow>
          if f64_gt sim (Fin thr) then Inr True else is_duplicate ops thr chunk_embedding rest)"

text \<open>The outer loop (source lines 92 to 109); the state is \<open>filtered\<close> and
  \<open>seen_embeddings\<close>. \<open>get_embedding\<close> is the method of the vector store.\<close>

fun filter_loop ::
  "numpy_ops \<Rightarrow> (string \<Rightarrow> error + f64 list) \<Rightarrow> real \<Rightarrow> 'm RetrievedChunk list
     \<Rightarrow> 'm RetrievedChunk list \<times> f64 list list \<Rightarrow> error + 'm RetrievedChunk list" where
  "filter_loop ops get_embedding thr [] (filtered, seen_embeddings) = Inr filtered"
| "filter_loop ops get_embedding thr (c # cs) (filtered, seen_embeddings) =
     (case get_embedding (text_str (rc_chunk c)) of
        Inl err \<Rightarrow> Inl err
      | Inr e \<Rightarrow>
         (let chunk_embedding = np_divide_norm ops e
          in case is_duplicate ops thr chunk_embedding seen_embeddings of
               Inl err \<Rightarrow> Inl err
             | Inr dup \<Rightarrow>
                 if \<not> dup
                 then filter_loop ops get_embedding thr cs
                        (filtered @ [c], seen_embeddings @ [chunk_embedding])
                 else filter_loop ops get_embedding thr cs (filtered, seen_embeddings)))"

text \<open>\<open>RetrievalStrategy._filter_duplicates\<close>\<close>

definition RetrievalStrategy_filter_duplicates ::
  "numpy_ops \<Rightarrow> (string \<Rightarrow> error + f64 list) \<Rightarrow> RetrievalConfig \<Rightarrow> 'm RetrievedChunk list
     \<Rightarrow> error + 'm RetrievedChunk list" where
  "RetrievalStrategy_filter_duplicates ops get_embedding cfg chunks =
     (if chunks = [] then Inr chunks
      else filter_loop ops get_embedding (duplicate_threshold cfg) chunks ([], []))"

text \<open>\<open>for i, chunk in enumerate(chunks): chunk.rank = i + 1\<close>, from position \<open>i\<close> on.\<close>

fun assign_ranks :: "nat \<Rightarrow> 'm RetrievedChunk list \<Rightarrow> 'm RetrievedChunk list" where
  "assign_ranks i [] = []"
| "assign_ranks i (c # cs) = c\<lparr>rank := Suc i\<rparr> # assign_ranks (Suc i) cs"

text \<open>\<open>SemanticRetrieval._rerank_results\<close>: \<open>sorted(..., reverse=True)\<close> is a stable
  sort by descending similarity. A list whose similarities are all NaN keeps its order,
  because no comparison holds.\<close>

definition rerank_results_chunks ::
  "'m RetrievedChunk list \<Rightarrow> error + 'm RetrievedChunk list" where
  "rerank_results_chunks chunks =
     (if list_all (\<lambda>x. \<not> is_nan (similarity x)) chunks
      then Inr (assign_ranks 0 (sort_key (\<lambda>x. f64_key (f64_neg (similarity x))) chunks))
      else if list_all (\<lambda>x. is_nan (similarity x)) chunks then Inr (assign_ranks 0 chunks)
      else Inl (Unmodelled ''sort of scores with NaN''))"

text \<open>The list comprehension of source lines 143 to 150.\<close>

fun to_retrieved :: "nat \<Rightarrow> 'm SearchResult list \<Rightarrow> 'm RetrievedChunk list" where
  "to_retrieved i [] = []"
| "to_retrieved i (r # rs) =
     \<lparr>rc_chunk = chunk r, similarity = score r, rank = Suc i\<rparr> # to_retrieved (Suc i) rs"

text \<open>\<open>SemanticRetrieval.retrieve\<close>. The collaborators are parameters:
  \<open>get_embeddings\<close> of the embeddings provider, and \<open>similarity_search\<close> and
  \<open>get_embedding\<close> of the vector store.\<close>

definition retrieve ::
  "numpy_ops \<Rightarrow> (string list \<Rightarrow> error + f64 list list)
     \<Rightarrow> (f64 list \<Rightarrow> int \<Rightarrow> real \<Rightarrow> 'f \<Rightarrow> error + 'm SearchResult list)
     \<Rightarrow> (string \<Rightarrow> error + f64 list)
     \<Rightarrow> RetrievalConfig \<Rightarrow> string \<Rightarrow> 'f \<Rightarrow> error + 'm RetrievedChunk list" where
  "retrieve ops get_embeddings search get_embedding cfg query filters =
     (case get_embeddings [query] of
        Inl err \<Rightarrow> Inl err
      | Inr qes \<Rightarrow>
         (case first_item qes of
            Inl err \<Rightarrow> Inl err
          | Inr query_embedding \<Rightarrow>
             (case search query_embedding
                     (if filter_duplicates cfg then top_k cfg * 2 else top_k cfg)
                     (min_similarity cfg) filters of
                Inl err \<Rightarrow> Inl err
              | Inr results \<Rightarrow>
                 (case (if filter_duplicates cfg
                        then (case RetrievalStrategy_filter_duplicates ops get_embedding cfg
                                     (to_retrieved 0 results) of
                                Inl err \<Rightarrow> Inl err
                              | Inr cs \<Rightarrow> Inr (assign_ranks 0 cs))
                        else Inr (to_retrieved 0 results)) of
                    Inl err \<Rightarrow> Inl err
                  | Inr chunks \<Rightarrow>
                     (case (if rerank_results cfg
                            then (case rerank_results_chunks chunks of
                                    Inl err \<Rightarrow> Inl err
                                  | Inr cs \<Rightarrow> Inr (assign_ranks 0 cs))
                            else Inr chunks) of
                        Inl err \<Rightarrow> Inl err
                      | Inr ranked \<Rightarrow> Inr (py_take (top_k cfg) ranked))))))"

section \<open>Invariants used in the proofs\<close>

text \<open>The chunks appended so far carry the indices \<open>0, 1, ...\<close> in list order, and the
  counter is the next index.\<close>

definition idx_ok :: "'m chunk_state \<Rightarrow> bool" where
  "idx_ok st = (map chunk_index (fst st) = [0 ..< snd st])"

text \<open>The errors that the two \<open>__post_init__\<close> methods raise.\<close>

definition configuration_error :: "error \<Rightarrow> bool" where
  "configuration_error e =
     (e \<in> set (map ValueError
        [''Chunk size must be positive'', ''Chunk overlap must be non-negative'',
         ''Chunk overlap must be less than chunk size'', ''Minimum chunk size must be positive'',
         ''Minimum chunk size must not exceed chunk size'', ''top_k must be positive'',
         ''min_similarity must be between 0 and 1'',
         ''duplicate_threshold must be between 0 and 1'']))"

definition raises_configuration_error :: "error + 'a \<Rightarrow> bool" where
  "raises_configuration_error r = (case r of Inl e \<Rightarrow> configuration_error e | Inr _ \<Rightarrow> False)"

section \<open>Sequences of calls and the collaborators of the examples\<close>

text \<open>The arguments of one call of \<open>MemoryStore.add_texts\<close>, and the store after a
  sequence of such calls (whether a call raised or not, the store keeps what it wrote).\<close>

type_synonym add_call = "string list \<times> f64 list list \<times> mdict list option \<times> string list option"

fun add_many :: "numpy_ops \<Rightarrow> (nat \<Rightarrow> string) \<Rightarrow> MemoryStore \<Rightarrow> add_call list \<Rightarrow> MemoryStore" where
  "add_many ops uuid4 st [] = st"
| "add_many ops uuid4 st ((txts, embs, md, ids) # calls) =
     add_many ops uuid4 (snd (MemoryStore_add_texts ops uuid4 st txts embs md ids)) calls"

text \<open>The store as \<open>MemoryStore.__init__\<close> leaves it.\<close>

definition new_MemoryStore :: "VectorStoreConfig \<Rightarrow> MemoryStore" where
  "new_MemoryStore c =
     \<lparr>ms_config = c, ms_texts = [], ms_embeddings = [], ms_metadata = [], uuid_count = 0\<rparr>"

definition cosine_config :: VectorStoreConfig where
  "cosine_config = \<lparr>collection_name = ''docs'', embedding_dimension = 2,
                     distance_metric = ''cosine''\<rparr>"

text \<open>A generator of identifiers that never repeats, and a provider that returns a
  fixed list of embeddings (as the mock of the tests does).\<close>

definition uuid4_example :: "nat \<Rightarrow> string" where
  "uuid4_example n = ''uuid-'' @ replicate n CHR ''i''"

definition fixed_provider :: "f64 list list \<Rightarrow> string list \<Rightarrow> error + f64 list list" where
  "fixed_provider es ts = Inr es"

definition empty_heap :: heap where
  "empty_heap = \<lparr>cells = (\<lambda>a. []), next_free = 0\<rparr>"

definition new_MemoryVectorStore :: MemoryVectorStore where
  "new_MemoryVectorStore = \<lparr>texts = [], embeddings = [], metadatas = []\<rparr>"

text \<open>
  The examples need one record of operations to compute with. \<open>exact_arithmetic\<close> is
  arithmetic without rounding on finite values (the result is NaN as soon as an operand is
  not finite, and a quotient by zero follows IEEE 754). Float64 arithmetic returns the exact
  result whenever that result is a float64 value, whatever the order of a summation; the
  examples use only inputs at which every intermediate result is a small integer or a small
  integer divided by a power of two, so numpy computes the same values there.
\<close>

fun f64_values :: "f64 list \<Rightarrow> real list option" where
  "f64_values [] = Some []"
| "f64_values (Fin x # v) = map_option ((#) x) (f64_values v)"
| "f64_values (a # v) = None"

text \<open>The Euclidean norm and the inner product of vectors of real numbers.\<close>

definition l2norm :: "real list \<Rightarrow> real" where
  "l2norm v = sqrt (sum_list (map (\<lambda>x. x * x) v))"

definition inner_product :: "real list \<Rightarrow> real list \<Rightarrow> real" where
  "inner_product a b = sum_list (map (\<lambda>(x, y). x * y) (zip a b))"

definition exact_norm :: "f64 list \<Rightarrow> f64" where
  "exact_norm v = (case f64_values v of Some xs \<Rightarrow> Fin (l2norm xs) | None \<Rightarrow> NaN)"

fun exact_divide :: "f64 \<Rightarrow> f64 \<Rightarrow> f64" where
  "exact_divide (Fin x) (Fin y) =
     (if y \<noteq> 0 then Fin (x / y) else if x = 0 then NaN else if 0 < x then PInf else NInf)"
| "exact_divide a b = NaN"

fun exact_subtract :: "f64 \<Rightarrow> f64 \<Rightarrow> f64" where
  "exact_subtract (Fin x) (Fin y) = Fin (x - y)"
| "exact_subtract a b = NaN"

definition exact_dot :: "f64 list \<Rightarrow> f64 list \<Rightarrow> f64" where
  "exact_dot a b =
     (case (f64_values a, f64_values b) of
        (Some xs, Some ys) \<Rightarrow> Fin (inner_product xs ys)
      | _ \<Rightarrow> NaN)"

definition exact_arithmetic :: numpy_ops where
  "exact_arithmetic =
     \<lparr>np_linalg_norm = exact_norm, np_true_divide = exact_divide,
      np_subtract = exact_subtract, np_dot_1d = exact_dot,
      np_dot_2d = (\<lambda>m q. map (\<lambda>row. exact_dot row q) m)\<rparr>"

section \<open>Notions of the statements about the memory stores\<close>

text \<open>The list \<open>ids\<close> that \<open>add_texts\<close> works with and returns: the one given, or one
  new identifier per text.\<close>

definition ids_used ::
  "(nat \<Rightarrow> string) \<Rightarrow> MemoryStore \<Rightarrow> string list \<Rightarrow> string list option \<Rightarrow> string list" where
  "ids_used uuid4 st txts ids =
     (case ids of None \<Rightarrow> map uuid4 [uuid_count st ..< uuid_count st + length txts] | Some l \<Rightarrow> l)"




section \<open>Notions of the statements about the duplicate filter\<close>

text \<open>
  The drop condition in the words of the specification, written with the operations of
  numpy and independently of the model of \<open>_filter_duplicates\<close>: the normalised embedding
  of a text is its embedding divided by its norm; a float64 similarity strictly exceeds a
  threshold when it is a finite number above it or \<open>+inf\<close>; and a text is too similar to
  another when the dot product of their normalised embeddings strictly exceeds the
  threshold.
\<close>

definition spec_normalized :: "numpy_ops \<Rightarrow> f64 list \<Rightarrow> f64 list" where
  "spec_normalized ops e = map (\<lambda>x. np_true_divide ops x (np_linalg_norm ops e)) e"

definition spec_exceeds :: "f64 \<Rightarrow> real \<Rightarrow> bool" where
  "spec_exceeds s thr = (case s of Fin x \<Rightarrow> thr < x | PInf \<Rightarrow> True | NInf \<Rightarrow> False | NaN \<Rightarrow> False)"

definition spec_too_similar ::
  "numpy_ops \<Rightarrow> (string \<Rightarrow> error + f64 list) \<Rightarrow> real \<Rightarrow> string \<Rightarrow> string \<Rightarrow> bool" where
  "spec_too_similar ops get_embedding thr t t' =
     (case (get_embedding t, get_embedding t') of
        (Inr e, Inr e') \<Rightarrow>
          length e = length e'
          \<and> spec_exceeds (np_dot_1d ops (spec_normalized ops e) (spec_normalized ops e')) thr
      | _ \<Rightarrow> False)"

text \<open>The elements of a list selected by a list of flags.\<close>

definition kept :: "'a list \<Rightarrow> bool list \<Rightarrow> 'a list" where
  "kept cs keep = map fst (filter snd (zip cs keep))"

text \<open>Auxiliary notions of the proofs: the comparison of one pair of normalised
  embeddings as the loop makes it, and the normalised embedding of a candidate.\<close>

definition sim_to :: "numpy_ops \<Rightarrow> real \<Rightarrow> f64 list \<Rightarrow> f64 list \<Rightarrow> bool" where
  "sim_to ops thr e s = (case np_dot ops e s of Inr sim \<Rightarrow> f64_gt sim (Fin thr) | Inl _ \<Rightarrow> False)"

definition emb_of :: "numpy_ops \<Rightarrow> (string \<Rightarrow> error + f64 list) \<Rightarrow> 'm RetrievedChunk \<Rightarrow> f64 list" where
  "emb_of ops ge c =
     (case ge (text_str (rc_chunk c)) of Inr e \<Rightarrow> np_divide_norm ops e | Inl _ \<Rightarrow> [])"

text \<open>
  The example of the duplicate filter: a store of three texts. The embeddings of
  \<open>first\<close> and \<open>second\<close> point the same way with different lengths (their normalised
  embeddings are equal, the dot product of the embeddings themselves is \<open>0.125\<close>), and
  the embedding of \<open>third\<close> is orthogonal to both. The configuration is the default one
  with \<open>min_similarity = 0\<close>, so that the search returns all three.
\<close>

definition example_embedding :: "string \<Rightarrow> f64 list" where
  "example_embedding t =
     (if t = ''first'' then [Fin (1 / 2), Fin 0]
      else if t = ''second'' then [Fin (1 / 4), Fin 0]
      else [Fin 0, Fin 4])"

definition example_provider :: "string list \<Rightarrow> error + f64 list list" where
  "example_provider ts = Inr (map example_embedding ts)"

definition example_store :: MemoryVectorStore where
  "example_store =
     \<lparr>texts = [''first'', ''second'', ''third''],
      embeddings = [[Fin (1 / 2), Fin 0], [Fin (1 / 4), Fin 0], [Fin 0, Fin 4]],
      metadatas = [0, 1, 2]\<rparr>"

definition example_RetrievalConfig :: RetrievalConfig where
  "example_RetrievalConfig =
     \<lparr>top_k = 5, min_similarity = 0, rerank_results = True, filter_duplicates = True,
      duplicate_threshold = 95 / 100\<rparr>"

text \<open>The results of searching \<open>example_store\<close> with the embedding of \<open>first\<close>.\<close>

definition first_result :: "addr SearchResult" where
  "first_result =
     \<lparr>chunk = \<lparr>text_str = ''first'', metadata = 0, start_char = 0, end_char = 5,
                chunk_index = 0\<rparr>, score = Fin (1 / 4)\<rparr>"

definition second_result :: "addr SearchResult" where
  "second_result =
     \<lparr>chunk = \<lparr>text_str = ''second'', metadata = 1, start_char = 0, end_char = 6,
                chunk_index = 1\<rparr>, score = Fin (1 / 8)\<rparr>"

definition third_result :: "addr SearchResult" where
  "third_result =
     \<lparr>chunk = \<lparr>text_str = ''third'', metadata = 2, start_char = 0, end_char = 5,
                chunk_index = 2\<rparr>, score = Fin 0\<rparr>"

definition example_store_of_two :: MemoryVectorStore where
  "example_store_of_two =
     \<lparr>texts = [''first'', ''second''],
      embeddings = [[Fin (1 / 2), Fin 0], [Fin (1 / 4), Fin 0]],
      metadatas = [0, 1]\<rparr>"


section \<open>Chunk indices and termination of the chunkers\<close>

lemma idx_ok_init: "idx_ok ([], 0)"
  by (simp add: idx_ok_def)

lemma idx_ok_emit: "idx_ok st \<Longrightarrow> idx_ok (emit md t start st)"
  by (simp add: idx_ok_def emit_def)

lemma idx_ok_result: "idx_ok st \<Longrightarrow> map chunk_index (fst st) = [0 ..< length (fst st)]"
proof -
  assume h: "idx_ok st"
  then have "length (map chunk_index (fst st)) = length [0 ..< snd st]"
    unfolding idx_ok_def by (rule arg_cong)
  then have "length (fst st) = snd st" by simp
  with h show ?thesis by (simp add: idx_ok_def)
qed

lemma idx_ok_emit_lines: "idx_ok st \<Longrightarrow> idx_ok (emit_lines txt md pos ls st)"
  by (induction ls arbitrary: st) (simp_all add: Let_def idx_ok_emit)

lemma idx_ok_simple_emit: "idx_ok st \<Longrightarrow> idx_ok (simple_emit cfg txt md pos e st)"
  by (simp add: simple_emit_def Let_def idx_ok_emit idx_ok_emit_lines)

lemma next_pos_eq: "next_pos cfg e = e"
  by (simp add: next_pos_def)

lemma simple_chunk_end_gt:
  assumes "chunk_size cfg > 0" "min_chunk_size cfg \<ge> 0" "pos < int (length txt)"
  shows "pos < simple_chunk_end cfg txt pos"
  using assms by (simp add: simple_chunk_end_def Let_def)

lemma simple_loop_total:
  assumes "chunk_size cfg > 0" "min_chunk_size cfg \<ge> 0" "idx_ok st"
  shows "\<exists>cs. simple_loop cfg txt md pos st = Some cs \<and> map chunk_index cs = [0 ..< length cs]"
  using assms(3)
proof (induction "nat (int (length txt) - pos)" arbitrary: pos st rule: less_induct)
  case less
  show ?case
  proof (cases "pos < int (length txt)")
    case False
    then show ?thesis using less.prems
      by (subst simple_loop.simps) (simp add: idx_ok_result)
  next
    case True
    let ?e = "simple_chunk_end cfg txt pos"
    have gt: "pos < ?e" using assms(1,2) True by (rule simple_chunk_end_gt)
    have b: "simple_body cfg txt md pos st = (?e, simple_emit cfg txt md pos ?e st)"
      by (simp add: simple_body_def Let_def next_pos_eq)
    have ok: "idx_ok (simple_emit cfg txt md pos ?e st)"
      using less.prems by (rule idx_ok_simple_emit)
    have m: "nat (int (length txt) - ?e) < nat (int (length txt) - pos)"
      using gt True by linarith
    from less.hyps[OF m ok] obtain cs where
      "simple_loop cfg txt md ?e (simple_emit cfg txt md pos ?e st) = Some cs"
      "map chunk_index cs = [0 ..< length cs]" by blast
    then show ?thesis using True b
      by (subst simple_loop.simps) simp
  qed
qed

lemma range0_ok: "0 < step \<Longrightarrow> \<exists>is. range0 n step = Inr is"
  by (simp add: range0_def)

lemma idx_ok_foldl_emit:
  "idx_ok st \<Longrightarrow> idx_ok (foldl (\<lambda>s i. emit_found txt md (f i) s) st is)"
  by (induction "is" arbitrary: st) (simp_all add: emit_found_def idx_ok_emit)

lemma hard_split_ok:
  assumes "0 < chunk_size cfg" "idx_ok st"
  shows "\<exists>st'. hard_split cfg txt md s st = Inr st' \<and> idx_ok st'"
  using assms by (auto simp: hard_split_def range0_def idx_ok_foldl_emit)

lemma sentence_loop_ok:
  assumes "0 < chunk_size cfg"
  shows "idx_ok (snd (snd b)) \<Longrightarrow> \<exists>b'. sentence_loop cfg txt md ss b = Inr b' \<and> idx_ok (snd (snd b'))"
proof (induction ss arbitrary: b)
  case Nil
  then show ?case by simp
next
  case (Cons s ss)
  obtain cur len st where b: "b = (cur, len, st)" by (cases b) auto
  with Cons.prems have ok: "idx_ok st" by simp
  show ?case
  proof (cases "int (length s) > chunk_size cfg")
    case True
    from hard_split_ok[OF assms ok] obtain st' where
      h: "hard_split cfg txt md s st = Inr st'" "idx_ok st'" by blast
    from Cons.IH[of "(cur, len, st')"] h(2) show ?thesis using True h(1) b by simp
  next
    case False
    show ?thesis
    proof (cases "len + int (length s) > chunk_size cfg")
      case True
      have "idx_ok (emit_found txt md (join_nl (cur @ [s])) st)"
        using ok by (simp add: emit_found_def idx_ok_emit)
      from Cons.IH[of "([], 0, emit_found txt md (join_nl (cur @ [s])) st)"] this
      show ?thesis using True False b by (simp add: Let_def)
    next
      case F2: False
      from Cons.IH[of "(cur @ [s], len + int (length s), st)"] ok
      show ?thesis using F2 False b by (simp add: Let_def)
    qed
  qed
qed

lemma subsection_loop_ok:
  assumes "0 < chunk_size cfg"
  shows "idx_ok (snd (snd b)) \<Longrightarrow> \<exists>b'. subsection_loop cfg txt md ss b = Inr b' \<and> idx_ok (snd (snd b'))"
proof (induction ss arbitrary: b)
  case Nil
  then show ?case by simp
next
  case (Cons s ss)
  obtain cur len st where b: "b = (cur, len, st)" by (cases b) auto
  with Cons.prems have ok: "idx_ok st" by simp
  define b1 where "b1 = (if len + int (length (strip s)) > chunk_size cfg \<and> cur \<noteq> []
                      then ([], 0, emit_found txt md (join_nl cur) st)
                      else (cur, len, st))"
  have ok1: "idx_ok (snd (snd b1))"
    using ok by (simp add: b1_def emit_found_def idx_ok_emit)
  show ?case
  proof (cases "strip s = []")
    case True
    from Cons.IH[of "(cur, len, st)"] ok show ?thesis using True b by simp
  next
    case False
    show ?thesis
    proof (cases "int (length (strip s)) > chunk_size cfg")
      case True
      from sentence_loop_ok[OF assms ok1] obtain b2 where
        h: "sentence_loop cfg txt md (split_sentences (strip s)) b1 = Inr b2" "idx_ok (snd (snd b2))"
        by blast
      from Cons.IH[OF h(2)] show ?thesis using True False b h(1)
        by (simp add: Let_def b1_def)
    next
      case F2: False
      from Cons.IH[of "(fst b1 @ [strip s], fst (snd b1) + int (length (strip s)), snd (snd b1))"] ok1
      show ?thesis using F2 False b by (simp add: Let_def b1_def)
    qed
  qed
qed

lemma section_loop_ok:
  assumes "0 < chunk_size cfg"
  shows "idx_ok st \<Longrightarrow> \<exists>st'. section_loop cfg txt md ss st = Inr st' \<and> idx_ok st'"
proof (induction ss arbitrary: st)
  case Nil
  then show ?case by simp
next
  case (Cons s ss)
  show ?case
  proof (cases "strip s = []")
    case True
    from Cons.IH[OF Cons.prems] show ?thesis using True by simp
  next
    case False
    show ?thesis
    proof (cases "int (length (strip s)) \<le> chunk_size cfg")
      case True
      have "idx_ok (emit_found txt md (strip s) st)"
        using Cons.prems by (simp add: emit_found_def idx_ok_emit)
      from Cons.IH[OF this] show ?thesis using True False by simp
    next
      case F2: False
      have "idx_ok (snd (snd (([]::string list), 0::int, st)))" using Cons.prems by simp
      from subsection_loop_ok[OF assms this] obtain cur len st' where
        h: "subsection_loop cfg txt md (split_nl (strip s)) ([], 0, st) = Inr (cur, len, st')"
           "idx_ok st'"
        by (metis prod.collapse)
      have "idx_ok (if cur \<noteq> [] then emit_found txt md (join_nl cur) st' else st')"
        using h(2) by (simp add: emit_found_def idx_ok_emit)
      from Cons.IH[OF this] show ?thesis using F2 False h(1) by simp
    qed
  qed
qed

lemma valid_pos:
  "ChunkConfig_post_init cfg = Inr cfg' \<Longrightarrow> 0 < chunk_size cfg \<and> 0 < min_chunk_size cfg \<and> cfg' = cfg"
  by (simp add: ChunkConfig_post_init_def split: if_splits)

lemma simple_chunk_text_ok:
  assumes "0 < chunk_size cfg" "0 \<le> min_chunk_size cfg"
  shows "\<exists>cs. SimpleChunker_chunk_text cfg txt md = Some cs \<and> map chunk_index cs = [0 ..< length cs]"
  using simple_loop_total[OF assms idx_ok_init, of "txt" "case md of None \<Rightarrow> Map.empty | Some m \<Rightarrow> m" 0]
  by (simp add: SimpleChunker_chunk_text_def)

lemma recursive_chunk_text_ok:
  assumes "0 < chunk_size cfg"
  shows "\<exists>cs. RecursiveChunker_chunk_text cfg txt md = Inr cs \<and> map chunk_index cs = [0 ..< length cs]"
proof (cases "txt = []")
  case True
  then show ?thesis by (simp add: RecursiveChunker_chunk_text_def)
next
  case False
  from section_loop_ok[OF assms idx_ok_init, of "txt" "case md of None \<Rightarrow> Map.empty | Some m \<Rightarrow> m" "split_major txt"]
  obtain st' where
    "section_loop cfg txt (case md of None \<Rightarrow> Map.empty | Some m \<Rightarrow> m) (split_major txt) ([], 0) = Inr st'" "idx_ok st'"
    by blast
  then show ?thesis using False
    by (simp add: RecursiveChunker_chunk_text_def idx_ok_result)
qed



lemma simple_loop_indices:
  assumes "simple_loop cfg t md pos st = Some cs"
  shows "idx_ok st \<longrightarrow> map chunk_index cs = [0 ..< length cs]"
proof (rule simple_loop.raw_induct
    [where P = "\<lambda>cfg t md pos st cs. idx_ok st \<longrightarrow> map chunk_index cs = [0 ..< length cs]",
      OF _ assms])
  fix loop :: "ChunkConfig \<Rightarrow> string \<Rightarrow> 'a \<Rightarrow> int \<Rightarrow> 'a chunk_state \<Rightarrow> 'a TextChunk list option"
  fix cfg t md pos st cs
  assume ih: "\<And>cfg t md pos st cs. loop cfg t md pos st = Some cs
                \<Longrightarrow> idx_ok st \<longrightarrow> map chunk_index cs = [0 ..< length cs]"
    and body: "(if pos < int (length t)
                then loop cfg t md (fst (simple_body cfg t md pos st))
                       (snd (simple_body cfg t md pos st))
                else Some (fst st)) = Some cs"
  show "idx_ok st \<longrightarrow> map chunk_index cs = [0 ..< length cs]"
  proof
    assume ok: "idx_ok st"
    show "map chunk_index cs = [0 ..< length cs]"
    proof (cases "pos < int (length t)")
      case True
      with body have "loop cfg t md (fst (simple_body cfg t md pos st))
               (snd (simple_body cfg t md pos st)) = Some cs" by simp
      from ih[OF this] have "idx_ok (snd (simple_body cfg t md pos st))
              \<longrightarrow> map chunk_index cs = [0 ..< length cs]" .
      moreover have "idx_ok (snd (simple_body cfg t md pos st))"
        using ok by (simp add: simple_body_def Let_def idx_ok_simple_emit)
      ultimately show ?thesis by (rule mp)
    next
      case False
      with body have "cs = fst st" by simp
      with ok show ?thesis by (simp add: idx_ok_result)
    qed
  qed
qed

lemma simple_chunk_text_indices:
  assumes "SimpleChunker_chunk_text cfg t md = Some cs"
  shows "map chunk_index cs = [0 ..< length cs]"
proof (cases "t = []")
  case True
  with assms show ?thesis by (simp add: SimpleChunker_chunk_text_def)
next
  case False
  with assms have "simple_loop cfg t (case md of None \<Rightarrow> Map.empty | Some m \<Rightarrow> m) 0 ([], 0) = Some cs"
    by (simp add: SimpleChunker_chunk_text_def)
  from simple_loop_indices[OF this] idx_ok_init show ?thesis by (rule mp)
qed

lemma hard_split_idx:
  "hard_split cfg t md s st = Inr st' \<Longrightarrow> idx_ok st \<Longrightarrow> idx_ok st'"
  by (auto simp: hard_split_def idx_ok_foldl_emit split: sum.splits)

lemma sentence_loop_idx:
  "sentence_loop cfg t md ss b = Inr b' \<Longrightarrow> idx_ok (snd (snd b)) \<Longrightarrow> idx_ok (snd (snd b'))"
proof (induction ss arbitrary: b)
  case Nil
  then show ?case by simp
next
  case (Cons s ss)
  obtain cur len st where b: "b = (cur, len, st)" by (cases b) auto
  with Cons.prems have ok: "idx_ok st" by simp
  show ?case
  proof (cases "int (length s) > chunk_size cfg")
    case True
    with Cons.prems(1) b obtain st' where h: "hard_split cfg t md s st = Inr st'"
      and r: "sentence_loop cfg t md ss (cur, len, st') = Inr b'"
      by (auto split: sum.splits)
    from hard_split_idx[OF h ok] have "idx_ok (snd (snd (cur, len, st')))" by simp
    from Cons.IH[OF r this] show ?thesis .
  next
    case False
    show ?thesis
    proof (cases "len + int (length s) > chunk_size cfg")
      case True
      with False Cons.prems(1) b have
        r: "sentence_loop cfg t md ss ([], 0, emit_found t md (join_nl (cur @ [s])) st) = Inr b'"
        by (simp add: Let_def)
      have "idx_ok (snd (snd (([] :: string list), 0 :: int, emit_found t md (join_nl (cur @ [s])) st)))"
        using ok by (simp add: emit_found_def idx_ok_emit)
      from Cons.IH[OF r this] show ?thesis .
    next
      case F2: False
      with False Cons.prems(1) b have
        r: "sentence_loop cfg t md ss (cur @ [s], len + int (length s), st) = Inr b'"
        by (simp add: Let_def)
      from Cons.IH[OF r] ok show ?thesis by simp
    qed
  qed
qed

lemma subsection_loop_idx:
  "subsection_loop cfg t md ss b = Inr b' \<Longrightarrow> idx_ok (snd (snd b)) \<Longrightarrow> idx_ok (snd (snd b'))"
proof (induction ss arbitrary: b)
  case Nil
  then show ?case by simp
next
  case (Cons s ss)
  obtain cur len st where b: "b = (cur, len, st)" by (cases b) auto
  with Cons.prems have ok: "idx_ok st" by simp
  define b1 where "b1 = (if len + int (length (strip s)) > chunk_size cfg \<and> cur \<noteq> []
                      then ([], 0, emit_found t md (join_nl cur) st)
                      else (cur, len, st))"
  have ok1: "idx_ok (snd (snd b1))"
    using ok by (simp add: b1_def emit_found_def idx_ok_emit)
  show ?case
  proof (cases "strip s = []")
    case True
    with Cons.prems(1) b have "subsection_loop cfg t md ss (cur, len, st) = Inr b'" by simp
    from Cons.IH[OF this] ok show ?thesis by simp
  next
    case False
    show ?thesis
    proof (cases "int (length (strip s)) > chunk_size cfg")
      case True
      with False Cons.prems(1) b obtain b2 where
        h: "sentence_loop cfg t md (split_sentences (strip s)) b1 = Inr b2"
        and r: "subsection_loop cfg t md ss b2 = Inr b'"
        by (auto simp: Let_def b1_def split: sum.splits)
      from Cons.IH[OF r sentence_loop_idx[OF h ok1]] show ?thesis .
    next
      case F2: False
      with False Cons.prems(1) b have
        r: "subsection_loop cfg t md ss
              (fst b1 @ [strip s], fst (snd b1) + int (length (strip s)), snd (snd b1)) = Inr b'"
        by (simp add: Let_def b1_def)
      from Cons.IH[OF r] ok1 show ?thesis by simp
    qed
  qed
qed

lemma section_loop_idx:
  "section_loop cfg t md ss st = Inr st' \<Longrightarrow> idx_ok st \<Longrightarrow> idx_ok st'"
proof (induction ss arbitrary: st)
  case Nil
  then show ?case by simp
next
  case (Cons s ss)
  show ?case
  proof (cases "strip s = []")
    case True
    with Cons.prems(1) have "section_loop cfg t md ss st = Inr st'" by simp
    from Cons.IH[OF this Cons.prems(2)] show ?thesis .
  next
    case False
    show ?thesis
    proof (cases "int (length (strip s)) \<le> chunk_size cfg")
      case True
      with False Cons.prems(1) have
        r: "section_loop cfg t md ss (emit_found t md (strip s) st) = Inr st'" by simp
      have "idx_ok (emit_found t md (strip s) st)"
        using Cons.prems(2) by (simp add: emit_found_def idx_ok_emit)
      from Cons.IH[OF r this] show ?thesis .
    next
      case F2: False
      with False Cons.prems(1) obtain cur len st1 where
        h: "subsection_loop cfg t md (split_nl (strip s)) ([], 0, st) = Inr (cur, len, st1)"
        and r: "section_loop cfg t md ss
                  (if cur \<noteq> [] then emit_found t md (join_nl cur) st1 else st1) = Inr st'"
        by (auto split: sum.splits)
      from subsection_loop_idx[OF h] Cons.prems(2) have "idx_ok st1" by simp
      then have "idx_ok (if cur \<noteq> [] then emit_found t md (join_nl cur) st1 else st1)"
        by (simp add: emit_found_def idx_ok_emit)
      from Cons.IH[OF r this] show ?thesis .
    qed
  qed
qed

lemma recursive_chunk_text_indices:
  assumes "RecursiveChunker_chunk_text cfg t md = Inr cs"
  shows "map chunk_index cs = [0 ..< length cs]"
proof (cases "t = []")
  case True
  with assms show ?thesis by (simp add: RecursiveChunker_chunk_text_def)
next
  case False
  with assms obtain st where
    s: "section_loop cfg t (case md of None \<Rightarrow> Map.empty | Some m \<Rightarrow> m) (split_major t) ([], 0) = Inr st"
    and c: "cs = fst st"
    by (auto simp: RecursiveChunker_chunk_text_def split: sum.splits)
  from section_loop_idx[OF s idx_ok_init] c show ?thesis by (simp add: idx_ok_result)
qed


text \<open>
  C6 (monotonic contiguous chunk indices). Whenever \<open>SimpleChunker.chunk_text\<close> or
  \<open>RecursiveChunker.chunk_text\<close> returns a list of chunks, for any text, metadata and
  configuration, the chunks carry the indices \<open>0, 1, ..., n - 1\<close> in list order. For a
  configuration that passed \<open>ChunkConfig.__post_init__\<close> both methods do return.
\<close>

theorem C6_chunk_indices_contiguous:
  "(SimpleChunker_chunk_text cfg t md = Some cs \<longrightarrow> map chunk_index cs = [0 ..< length cs])
   \<and> (RecursiveChunker_chunk_text cfg t md = Inr cs' \<longrightarrow> map chunk_index cs' = [0 ..< length cs'])
   \<and> (ChunkConfig_post_init cfg = Inr cfg \<longrightarrow>
        (\<exists>xs. SimpleChunker_chunk_text cfg t md = Some xs)
        \<and> (\<exists>xs. RecursiveChunker_chunk_text cfg t md = Inr xs))"
proof (intro conjI impI)
  assume "SimpleChunker_chunk_text cfg t md = Some cs"
  then show "map chunk_index cs = [0 ..< length cs]" by (rule simple_chunk_text_indices)
next
  assume "RecursiveChunker_chunk_text cfg t md = Inr cs'"
  then show "map chunk_index cs' = [0 ..< length cs']" by (rule recursive_chunk_text_indices)
next
  assume v: "ChunkConfig_post_init cfg = Inr cfg"
  from valid_pos[OF v] have p: "0 < chunk_size cfg" "0 \<le> min_chunk_size cfg" by simp_all
  from simple_chunk_text_ok[OF p, of t md]
  show "\<exists>xs. SimpleChunker_chunk_text cfg t md = Some xs" by blast
next
  assume v: "ChunkConfig_post_init cfg = Inr cfg"
  from valid_pos[OF v] have p: "0 < chunk_size cfg" by simp
  from recursive_chunk_text_ok[OF p, of t md]
  show "\<exists>xs. RecursiveChunker_chunk_text cfg t md = Inr xs" by blast
qed

theorem C6_chunk_indices_contiguous_witness:
  "SimpleChunker_chunk_text \<lparr>chunk_size = 10, chunk_overlap = 2, min_chunk_size = 1, split_on_newline = False, respect_sentences = False\<rparr> ''abcdefghijklmnopqrst'' (None :: (string \<rightharpoonup> string) option)
     = Some [\<lparr>text_str = ''abcdefghij'', metadata = Map.empty, start_char = 0, end_char = 10, chunk_index = 0\<rparr>, \<lparr>text_str = ''klmnopqrst'', metadata = Map.empty, start_char = 10, end_char = 20, chunk_index = 1\<rparr>]
   \<and> RecursiveChunker_chunk_text \<lparr>chunk_size = 10, chunk_overlap = 2, min_chunk_size = 1, split_on_newline = False, respect_sentences = False\<rparr> ''abcdefghijklmnopqrst'' (None :: (string \<rightharpoonup> string) option)
     = Inr [\<lparr>text_str = ''abcdefghij'', metadata = Map.empty, start_char = 0, end_char = 10, chunk_index = 0\<rparr>, \<lparr>text_str = ''klmnopqrst'', metadata = Map.empty, start_char = 10, end_char = 20, chunk_index = 1\<rparr>]
   \<and> ChunkConfig_post_init \<lparr>chunk_size = 10, chunk_overlap = 2, min_chunk_size = 1, split_on_newline = False, respect_sentences = False\<rparr> = Inr \<lparr>chunk_size = 10, chunk_overlap = 2, min_chunk_size = 1, split_on_newline = False, respect_sentences = False\<rparr>
   \<and> map chunk_index ([\<lparr>text_str = ''abcdefghij'', metadata = Map.empty, start_char = 0, end_char = 10, chunk_index = 0\<rparr>, \<lparr>text_str = ''klmnopqrst'', metadata = Map.empty, start_char = 10, end_char = 20, chunk_index = 1\<rparr>] :: (string \<rightharpoonup> string) TextChunk list) = [0, 1]
   \<and> (\<exists>xs. SimpleChunker_chunk_text \<lparr>chunk_size = 10, chunk_overlap = 2, min_chunk_size = 1, split_on_newline = False, respect_sentences = False\<rparr> ''abcdefghijklmnopqrst''
              (None :: (string \<rightharpoonup> string) option) = Some xs)
   \<and> (\<exists>xs. RecursiveChunker_chunk_text \<lparr>chunk_size = 10, chunk_overlap = 2, min_chunk_size = 1, split_on_newline = False, respect_sentences = False\<rparr> ''abcdefghijklmnopqrst''
              (None :: (string \<rightharpoonup> string) option) = Inr xs)"
proof -
  have s: "SimpleChunker_chunk_text \<lparr>chunk_size = 10, chunk_overlap = 2, min_chunk_size = 1, split_on_newline = False, respect_sentences = False\<rparr> ''abcdefghijklmnopqrst''
             (None :: (string \<rightharpoonup> string) option) = Some [\<lparr>text_str = ''abcdefghij'', metadata = Map.empty, start_char = 0, end_char = 10, chunk_index = 0\<rparr>, \<lparr>text_str = ''klmnopqrst'', metadata = Map.empty, start_char = 10, end_char = 20, chunk_index = 1\<rparr>]"
    by (simp add: SimpleChunker_chunk_text_def simple_loop.simps simple_body_def
          simple_chunk_end_def next_pos_def simple_emit_def strip_def is_space_def py_slice_def
          py_index_def emit_def py_find_def starts_with_def)
  have r: "RecursiveChunker_chunk_text \<lparr>chunk_size = 10, chunk_overlap = 2, min_chunk_size = 1, split_on_newline = False, respect_sentences = False\<rparr> ''abcdefghijklmnopqrst''
             (None :: (string \<rightharpoonup> string) option) = Inr [\<lparr>text_str = ''abcdefghij'', metadata = Map.empty, start_char = 0, end_char = 10, chunk_index = 0\<rparr>, \<lparr>text_str = ''klmnopqrst'', metadata = Map.empty, start_char = 10, end_char = 20, chunk_index = 1\<rparr>]"
    by (simp add: RecursiveChunker_chunk_text_def split_major_def split_sentences_def strip_def
          is_space_def is_terminal_def newline_def emit_found_def emit_def py_find_def
          starts_with_def hard_split_def range0_def py_slice_def py_index_def upt_rec)
  have v: "ChunkConfig_post_init \<lparr>chunk_size = 10, chunk_overlap = 2, min_chunk_size = 1, split_on_newline = False, respect_sentences = False\<rparr> = Inr \<lparr>chunk_size = 10, chunk_overlap = 2, min_chunk_size = 1, split_on_newline = False, respect_sentences = False\<rparr>"
    by (simp add: ChunkConfig_post_init_def)
  note w = C6_chunk_indices_contiguous
    [of "\<lparr>chunk_size = 10, chunk_overlap = 2, min_chunk_size = 1, split_on_newline = False, respect_sentences = False\<rparr>" "''abcdefghijklmnopqrst''" "None :: (string \<rightharpoonup> string) option" "[\<lparr>text_str = ''abcdefghij'', metadata = Map.empty, start_char = 0, end_char = 10, chunk_index = 0\<rparr>, \<lparr>text_str = ''klmnopqrst'', metadata = Map.empty, start_char = 10, end_char = 20, chunk_index = 1\<rparr>]" "[\<lparr>text_str = ''abcdefghij'', metadata = Map.empty, start_char = 0, end_char = 10, chunk_index = 0\<rparr>, \<lparr>text_str = ''klmnopqrst'', metadata = Map.empty, start_char = 10, end_char = 20, chunk_index = 1\<rparr>]"]
  from mp[OF w[THEN conjunct1] s]
  have i: "map chunk_index ([\<lparr>text_str = ''abcdefghij'', metadata = Map.empty, start_char = 0, end_char = 10, chunk_index = 0\<rparr>, \<lparr>text_str = ''klmnopqrst'', metadata = Map.empty, start_char = 10, end_char = 20, chunk_index = 1\<rparr>] :: (string \<rightharpoonup> string) TextChunk list) = [0, 1]"
    by (simp add: upt_rec)
  from mp[OF w[THEN conjunct2, THEN conjunct2] v]
  have e: "(\<exists>xs. SimpleChunker_chunk_text \<lparr>chunk_size = 10, chunk_overlap = 2, min_chunk_size = 1, split_on_newline = False, respect_sentences = False\<rparr> ''abcdefghijklmnopqrst''
              (None :: (string \<rightharpoonup> string) option) = Some xs)
   \<and> (\<exists>xs. RecursiveChunker_chunk_text \<lparr>chunk_size = 10, chunk_overlap = 2, min_chunk_size = 1, split_on_newline = False, respect_sentences = False\<rparr> ''abcdefghijklmnopqrst''
              (None :: (string \<rightharpoonup> string) option) = Inr xs)" .
  from s r v i e[THEN conjunct1] e[THEN conjunct2] show ?thesis by (intro conjI)
qed

section \<open>Evaluations of the chunkers\<close>

text \<open>
  C2 (overlap-respecting cursor advance). With \<open>chunk_size = 10\<close> and
  \<open>chunk_overlap = 2\<close> the first chunk of a text of twenty letters ends at position 10.
  \<open>end - chunk_overlap = 8\<close> is beyond the previous cursor \<open>0\<close>, yet the cursor of the
  next iteration is 10 and the second chunk starts at 10: the overlap is dropped.
\<close>

theorem C2_cursor_drops_overlap:
  "simple_chunk_end \<lparr>chunk_size = 10, chunk_overlap = 2, min_chunk_size = 1,
       split_on_newline = False, respect_sentences = False\<rparr> ''abcdefghijklmnopqrst'' 0 = 10
   \<and> fst (simple_body \<lparr>chunk_size = 10, chunk_overlap = 2, min_chunk_size = 1,
            split_on_newline = False, respect_sentences = False\<rparr> ''abcdefghijklmnopqrst''
            (Map.empty :: string \<rightharpoonup> string) 0 ([], 0)) = 10
   \<and> SimpleChunker_chunk_text \<lparr>chunk_size = 10, chunk_overlap = 2, min_chunk_size = 1,
         split_on_newline = False, respect_sentences = False\<rparr> ''abcdefghijklmnopqrst''
         (None :: (string \<rightharpoonup> string) option)
       = Some [\<lparr>text_str = ''abcdefghij'', metadata = Map.empty, start_char = 0, end_char = 10,
                 chunk_index = 0\<rparr>,
               \<lparr>text_str = ''klmnopqrst'', metadata = Map.empty, start_char = 10, end_char = 20,
                 chunk_index = 1\<rparr>]"
  by (simp add: SimpleChunker_chunk_text_def simple_loop.simps simple_body_def
        simple_chunk_end_def next_pos_def simple_emit_def strip_def is_space_def py_slice_def
        py_index_def emit_def py_find_def starts_with_def)

text \<open>
  C1 (bounded chunk size). With \<open>chunk_size = 5\<close> the recursive strategy returns a chunk
  of six characters for the text \<open>abc\<close>, newline, \<open>de\<close>: the buffer counts the lengths
  of its lines without the newlines that join them. For \<open>ab. cd. ef.\<close> it returns a
  chunk of seven characters: the buffer of sentences is flushed only after it has grown
  beyond \<open>chunk_size\<close>. Neither chunk comes from the fixed-offset split.
\<close>

theorem C1_recursive_chunk_exceeds_chunk_size:
  "RecursiveChunker_chunk_text
     \<lparr>chunk_size = 5, chunk_overlap = 1, min_chunk_size = 1, split_on_newline = True,
       respect_sentences = True\<rparr>
     [CHR ''a'', CHR ''b'', CHR ''c'', newline, CHR ''d'', CHR ''e'']
     (None :: (string \<rightharpoonup> string) option)
   = Inr [\<lparr>text_str = [CHR ''a'', CHR ''b'', CHR ''c'', newline, CHR ''d'', CHR ''e''],
            metadata = Map.empty, start_char = 0, end_char = 6, chunk_index = 0\<rparr>]
   \<and> RecursiveChunker_chunk_text
     \<lparr>chunk_size = 5, chunk_overlap = 1, min_chunk_size = 1, split_on_newline = True,
       respect_sentences = True\<rparr>
     ''ab. cd. ef.'' (None :: (string \<rightharpoonup> string) option)
   = Inr [\<lparr>text_str = [CHR ''a'', CHR ''b'', CHR ''.'', newline, CHR ''c'', CHR ''d'', CHR ''.''],
            metadata = Map.empty, start_char = - 1, end_char = 6, chunk_index = 0\<rparr>,
          \<lparr>text_str = ''ef.'', metadata = Map.empty, start_char = 8, end_char = 11,
            chunk_index = 1\<rparr>]"
  by (simp add: RecursiveChunker_chunk_text_def split_major_def split_sentences_def strip_def
        is_space_def is_terminal_def newline_def emit_found_def emit_def py_find_def
        starts_with_def)

text \<open>
  C9 (chunk offsets are source positions). With \<open>chunk_size = 5\<close> the recursive strategy
  joins the stripped lines \<open>ab\<close> and \<open>cd\<close> of the text \<open>ab\<close>, three spaces, newline,
  three spaces, \<open>cd\<close> into one chunk. The joined text does not occur in the source text,
  \<open>text.find\<close> returns \<open>-1\<close>, and the chunk is returned with \<open>start_char = -1\<close> and
  \<open>end_char = 4\<close>; the slice of the source text at these offsets is empty.
\<close>

theorem C9_recursive_chunk_offset_not_in_text:
  "RecursiveChunker_chunk_text
     \<lparr>chunk_size = 5, chunk_overlap = 1, min_chunk_size = 1, split_on_newline = True,
       respect_sentences = True\<rparr>
     (''ab   '' @ [newline] @ ''   cd'') (None :: (string \<rightharpoonup> string) option)
   = Inr [\<lparr>text_str = [CHR ''a'', CHR ''b'', newline, CHR ''c'', CHR ''d''],
            metadata = Map.empty, start_char = - 1, end_char = 4, chunk_index = 0\<rparr>]
   \<and> py_slice (''ab   '' @ [newline] @ ''   cd'') (- 1) 4 = []"
  by (simp add: RecursiveChunker_chunk_text_def split_major_def strip_def
        is_space_def newline_def emit_found_def emit_def py_find_def starts_with_def
        py_slice_def py_index_def)

section \<open>Configuration validation\<close>


lemma chunk_config_rejects:
  assumes "chunk_size c \<le> 0 \<or> chunk_overlap c < 0 \<or> chunk_overlap c \<ge> chunk_size c
           \<or> min_chunk_size c \<le> 0 \<or> min_chunk_size c > chunk_size c"
  shows "raises_configuration_error (ChunkConfig_post_init c)"
  using assms
  by (auto simp: ChunkConfig_post_init_def raises_configuration_error_def configuration_error_def)

lemma chunk_config_accepts:
  assumes "\<not> (chunk_size c \<le> 0 \<or> chunk_overlap c < 0 \<or> chunk_overlap c \<ge> chunk_size c
           \<or> min_chunk_size c \<le> 0 \<or> min_chunk_size c > chunk_size c)"
  shows "ChunkConfig_post_init c = Inr c"
  using assms by (auto simp: ChunkConfig_post_init_def)

lemma retrieval_config_rejects:
  assumes "top_k r \<le> 0 \<or> min_similarity r < 0 \<or> min_similarity r > 1
           \<or> duplicate_threshold r < 0 \<or> duplicate_threshold r > 1"
  shows "raises_configuration_error (RetrievalConfig_post_init r)"
  using assms
  by (auto simp: RetrievalConfig_post_init_def raises_configuration_error_def
        configuration_error_def)

lemma chunk_config_examples:
  "raises_configuration_error (mk_ChunkConfig 0 50 20 True True)"
  "raises_configuration_error (mk_ChunkConfig 100 100 20 True True)"
  "raises_configuration_error (mk_ChunkConfig 100 50 101 True True)"
  by (simp_all add: mk_ChunkConfig_def chunk_config_rejects)

lemma is_duplicate_error:
  "is_duplicate ops thr e seen = Inl err \<Longrightarrow> err = ValueError ''shapes not aligned''"
  by (induction seen) (auto simp: np_dot_def split: sum.splits if_splits)

lemma filter_loop_error:
  "filter_loop ops ge thr cs acc = Inl err \<Longrightarrow>
     err = ValueError ''shapes not aligned'' \<or> (\<exists>t. ge t = Inl err)"
proof (induction cs arbitrary: acc)
  case Nil
  then show ?case by (cases acc) simp
next
  case (Cons c cs)
  obtain f s where acc: "acc = (f, s)" by (cases acc) auto
  show ?case
  proof (cases "ge (text_str (rc_chunk c))")
    case (Inl e)
    with Cons.prems acc show ?thesis by auto
  next
    case (Inr e)
    show ?thesis
    proof (cases "is_duplicate ops thr (np_divide_norm ops e) s")
      case (Inl e2)
      with Cons.prems acc Inr have "err = e2" by simp
      with is_duplicate_error[OF Inl] show ?thesis by simp
    next
      case (Inr d)
      with Cons.prems acc \<open>ge (text_str (rc_chunk c)) = Inr e\<close> Cons.IH show ?thesis
        by (cases d) (auto simp: Let_def)
    qed
  qed
qed

lemma shapes_not_config: "\<not> configuration_error (ValueError ''shapes not aligned'')"
  by (simp add: configuration_error_def)

lemma index_error_not_config: "\<not> configuration_error IndexError"
  by (auto simp: configuration_error_def)

lemma unmodelled_not_config: "\<not> configuration_error (Unmodelled m)"
  by (auto simp: configuration_error_def)

lemma rerank_error:
  "rerank_results_chunks cs = Inl err \<Longrightarrow> err = Unmodelled ''sort of scores with NaN''"
  by (auto simp: rerank_results_chunks_def split: if_splits)

lemma retrieve_no_configuration_error:
  assumes ge: "\<And>x. \<not> raises_configuration_error (ge x)"
      and s: "\<And>a k m fl. \<not> raises_configuration_error (s a k m fl)"
      and gemb: "\<And>t. \<not> raises_configuration_error (gemb t)"
  shows "\<not> raises_configuration_error (retrieve ops ge s gemb rcfg q f)"
proof (cases "retrieve ops ge s gemb rcfg q f")
  case (Inr v)
  then show ?thesis by (simp add: raises_configuration_error_def)
next
  case (Inl err)
  have "\<not> configuration_error err"
  proof (cases "ge [q]")
    case l: (Inl e)
    with Inl have "err = e" by (simp add: retrieve_def)
    with ge[of "[q]"] l show ?thesis by (simp add: raises_configuration_error_def)
  next
    case r1: (Inr qes)
    show ?thesis
    proof (cases qes)
      case Nil
      with Inl r1 have "err = IndexError" by (simp add: retrieve_def first_item_def)
      then show ?thesis by (simp add: index_error_not_config)
    next
      case (Cons qe rest)
      let ?k = "if filter_duplicates rcfg then top_k rcfg * 2 else top_k rcfg"
      show ?thesis
      proof (cases "s qe ?k (min_similarity rcfg) f")
        case l: (Inl e)
        with Inl r1 Cons have "err = e" by (simp add: retrieve_def first_item_def)
        with s[of qe ?k "min_similarity rcfg" f] l show ?thesis
          by (simp add: raises_configuration_error_def)
      next
        case r2: (Inr results)
        from Inl r1 Cons r2 have
          "(filter_duplicates rcfg
              \<and> RetrievalStrategy_filter_duplicates ops gemb rcfg (to_retrieved 0 results) = Inl err)
           \<or> err = Unmodelled ''sort of scores with NaN''"
          by (auto simp: retrieve_def first_item_def split: if_splits sum.splits
                dest: rerank_error)
        then show ?thesis
        proof
          assume "filter_duplicates rcfg
              \<and> RetrievalStrategy_filter_duplicates ops gemb rcfg (to_retrieved 0 results) = Inl err"
          then have "filter_loop ops gemb (duplicate_threshold rcfg) (to_retrieved 0 results) ([], [])
                       = Inl err"
            by (simp add: RetrievalStrategy_filter_duplicates_def split: if_splits)
          from filter_loop_error[OF this] show ?thesis
          proof
            assume "err = ValueError ''shapes not aligned''"
            then show ?thesis by (simp add: shapes_not_config)
          next
            assume "\<exists>t. gemb t = Inl err"
            then obtain t where "gemb t = Inl err" ..
            with gemb[of t] show ?thesis by (simp add: raises_configuration_error_def)
          qed
        next
          assume "err = Unmodelled ''sort of scores with NaN''"
          then show ?thesis by (simp add: unmodelled_not_config)
        qed
      qed
    qed
  qed
  with Inl show ?thesis by (simp add: raises_configuration_error_def)
qed


text \<open>
  C7 (configuration validation at construction). \<open>ChunkConfig.__post_init__\<close> raises a
  configuration error whenever \<open>chunk_size \<le> 0\<close>, \<open>chunk_overlap < 0\<close>,
  \<open>chunk_overlap \<ge> chunk_size\<close>, \<open>min_chunk_size \<le> 0\<close> or
  \<open>min_chunk_size > chunk_size\<close>; so do \<open>ChunkConfig(chunk_size=0)\<close>,
  \<open>ChunkConfig(chunk_size=100, chunk_overlap=100)\<close> and
  \<open>ChunkConfig(chunk_size=100, min_chunk_size=101)\<close> with the other fields at their
  defaults. \<open>RetrievalConfig.__post_init__\<close> raises one whenever \<open>top_k \<le> 0\<close> or
  \<open>min_similarity\<close> or \<open>duplicate_threshold\<close> lies outside \<open>[0, 1]\<close>. For a
  configuration that passed construction both \<open>chunk_text\<close> methods return without any
  error, and \<open>retrieve\<close> raises no configuration error unless one of its collaborators
  (the embeddings provider, the vector store) raises it.
\<close>

theorem C7_configuration_validation:
  "(chunk_size c \<le> 0 \<or> chunk_overlap c < 0 \<or> chunk_overlap c \<ge> chunk_size c
      \<or> min_chunk_size c \<le> 0 \<or> min_chunk_size c > chunk_size c
      \<longrightarrow> raises_configuration_error (ChunkConfig_post_init c))
   \<and> raises_configuration_error (mk_ChunkConfig 0 50 20 True True)
   \<and> raises_configuration_error (mk_ChunkConfig 100 100 20 True True)
   \<and> raises_configuration_error (mk_ChunkConfig 100 50 101 True True)
   \<and> (top_k r \<le> 0 \<or> min_similarity r < 0 \<or> min_similarity r > 1
      \<or> duplicate_threshold r < 0 \<or> duplicate_threshold r > 1
      \<longrightarrow> raises_configuration_error (RetrievalConfig_post_init r))
   \<and> (ChunkConfig_post_init cfg = Inr cfg
      \<longrightarrow> (\<exists>cs. SimpleChunker_chunk_text cfg t md = Some cs)
        \<and> (\<exists>cs. RecursiveChunker_chunk_text cfg t md = Inr cs))
   \<and> (RetrievalConfig_post_init rcfg = Inr rcfg
        \<and> (\<forall>x. \<not> raises_configuration_error (ge x))
        \<and> (\<forall>a k m fl. \<not> raises_configuration_error (s a k m fl))
        \<and> (\<forall>t. \<not> raises_configuration_error (gemb t))
      \<longrightarrow> \<not> raises_configuration_error (retrieve ops ge s gemb rcfg q f))"
proof -
  have a: "ChunkConfig_post_init cfg = Inr cfg
      \<longrightarrow> (\<exists>cs. SimpleChunker_chunk_text cfg t md = Some cs)
        \<and> (\<exists>cs. RecursiveChunker_chunk_text cfg t md = Inr cs)"
  proof
    assume v: "ChunkConfig_post_init cfg = Inr cfg"
    from valid_pos[OF v] have p: "0 < chunk_size cfg" "0 \<le> min_chunk_size cfg" by simp_all
    show "(\<exists>cs. SimpleChunker_chunk_text cfg t md = Some cs)
        \<and> (\<exists>cs. RecursiveChunker_chunk_text cfg t md = Inr cs)"
      using simple_chunk_text_ok[OF p, of t md] recursive_chunk_text_ok[OF p(1), of t md]
      by blast
  qed
  have b: "RetrievalConfig_post_init rcfg = Inr rcfg
        \<and> (\<forall>x. \<not> raises_configuration_error (ge x))
        \<and> (\<forall>a k m fl. \<not> raises_configuration_error (s a k m fl))
        \<and> (\<forall>t. \<not> raises_configuration_error (gemb t))
      \<longrightarrow> \<not> raises_configuration_error (retrieve ops ge s gemb rcfg q f)"
    using retrieve_no_configuration_error[of ge s gemb ops rcfg q f] by blast
  show ?thesis
    using a b chunk_config_rejects[of c] retrieval_config_rejects[of r] chunk_config_examples
    by blast
qed


theorem C7_configuration_validation_witness:
  "chunk_size \<lparr>chunk_size = 0, chunk_overlap = 50, min_chunk_size = 20,
       split_on_newline = True, respect_sentences = True\<rparr> \<le> 0
   \<and> raises_configuration_error (ChunkConfig_post_init \<lparr>chunk_size = 0, chunk_overlap = 50,
       min_chunk_size = 20, split_on_newline = True, respect_sentences = True\<rparr>)
   \<and> min_similarity \<lparr>top_k = 5, min_similarity = 3 / 2, rerank_results = True,
       filter_duplicates = True, duplicate_threshold = 95 / 100\<rparr> > 1
   \<and> raises_configuration_error (RetrievalConfig_post_init \<lparr>top_k = 5, min_similarity = 3 / 2,
       rerank_results = True, filter_duplicates = True, duplicate_threshold = 95 / 100\<rparr>)
   \<and> ChunkConfig_post_init \<lparr>chunk_size = 512, chunk_overlap = 50, min_chunk_size = 20,
       split_on_newline = True, respect_sentences = True\<rparr>
      = Inr \<lparr>chunk_size = 512, chunk_overlap = 50, min_chunk_size = 20,
       split_on_newline = True, respect_sentences = True\<rparr>
   \<and> (\<exists>cs. SimpleChunker_chunk_text \<lparr>chunk_size = 512, chunk_overlap = 50, min_chunk_size = 20,
       split_on_newline = True, respect_sentences = True\<rparr> ''Some text here''
       (None :: (string \<rightharpoonup> string) option) = Some cs)
   \<and> (\<exists>cs. RecursiveChunker_chunk_text \<lparr>chunk_size = 512, chunk_overlap = 50,
       min_chunk_size = 20, split_on_newline = True, respect_sentences = True\<rparr> ''Some text here''
       (None :: (string \<rightharpoonup> string) option) = Inr cs)
   \<and> RetrievalConfig_post_init \<lparr>top_k = 5, min_similarity = 6 / 10, rerank_results = True,
       filter_duplicates = True, duplicate_threshold = 95 / 100\<rparr>
      = Inr \<lparr>top_k = 5, min_similarity = 6 / 10, rerank_results = True,
       filter_duplicates = True, duplicate_threshold = 95 / 100\<rparr>
   \<and> \<not> raises_configuration_error
        (retrieve exact_arithmetic (\<lambda>x. Inr [[Fin 1, Fin 0]])
           (\<lambda>a k m fl. (Inl IndexError :: error + addr SearchResult list))
           (\<lambda>x. Inr [Fin 1, Fin 0])
           \<lparr>top_k = 5, min_similarity = 6 / 10, rerank_results = True,
             filter_duplicates = True, duplicate_threshold = 95 / 100\<rparr>
           ''query'' (None :: mdict option))"
proof -
  have h1: "ChunkConfig_post_init \<lparr>chunk_size = 512, chunk_overlap = 50, min_chunk_size = 20,
       split_on_newline = True, respect_sentences = True\<rparr>
      = Inr \<lparr>chunk_size = 512, chunk_overlap = 50, min_chunk_size = 20,
       split_on_newline = True, respect_sentences = True\<rparr>"
    by (simp add: ChunkConfig_post_init_def)
  have h2: "RetrievalConfig_post_init \<lparr>top_k = 5, min_similarity = 6 / 10, rerank_results = True,
       filter_duplicates = True, duplicate_threshold = 95 / 100\<rparr>
      = Inr \<lparr>top_k = 5, min_similarity = 6 / 10, rerank_results = True,
       filter_duplicates = True, duplicate_threshold = 95 / 100\<rparr>"
    by (simp add: RetrievalConfig_post_init_def)
  have h3: "\<forall>x. \<not> raises_configuration_error ((\<lambda>x. Inr [[Fin 1, Fin 0]]) x :: error + f64 list list)"
    by (simp add: raises_configuration_error_def)
  have h4: "\<forall>a k m fl. \<not> raises_configuration_error
              ((\<lambda>(a :: f64 list) (k :: int) (m :: real) (fl :: mdict option).
                  (Inl IndexError :: error + addr SearchResult list)) a k m fl)"
    by (auto simp: raises_configuration_error_def configuration_error_def)
  have h5: "\<forall>x. \<not> raises_configuration_error ((\<lambda>x. Inr [Fin 1, Fin 0]) x :: error + f64 list)"
    by (simp add: raises_configuration_error_def)
  note w = C7_configuration_validation
    [of "\<lparr>chunk_size = 0, chunk_overlap = 50, min_chunk_size = 20,
          split_on_newline = True, respect_sentences = True\<rparr>"
        "\<lparr>top_k = 5, min_similarity = 3 / 2, rerank_results = True,
          filter_duplicates = True, duplicate_threshold = 95 / 100\<rparr>"
        "\<lparr>chunk_size = 512, chunk_overlap = 50, min_chunk_size = 20,
          split_on_newline = True, respect_sentences = True\<rparr>"
        "''Some text here''" "None :: (string \<rightharpoonup> string) option"
        "\<lparr>top_k = 5, min_similarity = 6 / 10, rerank_results = True,
          filter_duplicates = True, duplicate_threshold = 95 / 100\<rparr>"
        "\<lambda>x. Inr [[Fin 1, Fin 0]]"
        "\<lambda>a k m fl. (Inl IndexError :: error + addr SearchResult list)"
        "\<lambda>x. Inr [Fin 1, Fin 0]" exact_arithmetic "''query''" "None :: mdict option"]
  show ?thesis using w h1 h2 h3 h4 h5 by simp
qed

section \<open>Results of the similarity search\<close>


lemma build_results_shape:
  "build_results st j xs = Inr rs \<Longrightarrow>
     length rs = length xs \<and>
     (\<forall>i < length rs.
        start_char (chunk (rs ! i)) = 0
        \<and> chunk_index (chunk (rs ! i)) = j + i
        \<and> score (rs ! i) = snd (xs ! i)
        \<and> fst (xs ! i) < length (texts st) \<and> fst (xs ! i) < length (metadatas st)
        \<and> text_str (chunk (rs ! i)) = texts st ! fst (xs ! i)
        \<and> end_char (chunk (rs ! i)) = int (length (texts st ! fst (xs ! i)))
        \<and> metadata (chunk (rs ! i)) = metadatas st ! fst (xs ! i))"
proof (induction xs arbitrary: j rs)
  case Nil
  then show ?case by simp
next
  case (Cons x xs)
  obtain idx s where x: "x = (idx, s)" by (cases x) auto
  from Cons.prems x obtain rs' where
    t: "idx < length (texts st)" and m: "idx < length (metadatas st)"
    and r: "build_results st (Suc j) xs = Inr rs'"
    and rs: "rs = \<lparr>chunk = \<lparr>text_str = texts st ! idx, metadata = metadatas st ! idx,
                     start_char = 0, end_char = int (length (texts st ! idx)),
                     chunk_index = j\<rparr>, score = s\<rparr> # rs'"
    by (auto simp: item_at_def split: sum.splits if_splits)
  from Cons.IH[OF r] have len: "length rs' = length xs"
    and ih: "\<And>i. i < length rs' \<Longrightarrow>
        start_char (chunk (rs' ! i)) = 0
        \<and> chunk_index (chunk (rs' ! i)) = Suc j + i
        \<and> score (rs' ! i) = snd (xs ! i)
        \<and> fst (xs ! i) < length (texts st) \<and> fst (xs ! i) < length (metadatas st)
        \<and> text_str (chunk (rs' ! i)) = texts st ! fst (xs ! i)
        \<and> end_char (chunk (rs' ! i)) = int (length (texts st ! fst (xs ! i)))
        \<and> metadata (chunk (rs' ! i)) = metadatas st ! fst (xs ! i)"
    by blast+
  show ?case
  proof (intro conjI allI impI)
    show "length rs = length (x # xs)" using rs len by simp
  next
    fix i assume "i < length rs"
    then show "start_char (chunk (rs ! i)) = 0"
      using rs ih[of "i - 1"] by (cases i) auto
  next
    fix i assume "i < length rs"
    then show "chunk_index (chunk (rs ! i)) = j + i"
      using rs ih[of "i - 1"] by (cases i) auto
  next
    fix i assume "i < length rs"
    then show "score (rs ! i) = snd ((x # xs) ! i)"
      using rs x ih[of "i - 1"] by (cases i) auto
  next
    fix i assume "i < length rs"
    then show "fst ((x # xs) ! i) < length (texts st)"
      using rs x t ih[of "i - 1"] by (cases i) auto
  next
    fix i assume "i < length rs"
    then show "fst ((x # xs) ! i) < length (metadatas st)"
      using rs x m ih[of "i - 1"] by (cases i) auto
  next
    fix i assume "i < length rs"
    then show "text_str (chunk (rs ! i)) = texts st ! fst ((x # xs) ! i)"
      using rs x ih[of "i - 1"] by (cases i) auto
  next
    fix i assume "i < length rs"
    then show "end_char (chunk (rs ! i)) = int (length (texts st ! fst ((x # xs) ! i)))"
      using rs x ih[of "i - 1"] by (cases i) auto
  next
    fix i assume "i < length rs"
    then show "metadata (chunk (rs ! i)) = metadatas st ! fst ((x # xs) ! i)"
      using rs x ih[of "i - 1"] by (cases i) auto
  qed
qed

lemma similarity_search_build:
  assumes "similarity_search ops h st q k min_score filters = Inr results" "results \<noteq> []"
  shows "\<exists>xs. build_results st 0 xs = Inr results"
  using assms by (auto simp: similarity_search_def split: if_splits sum.splits)


text \<open>
  C10 (retrieval results do not keep chunk positions). Every result of
  \<open>MemoryVectorStore.similarity_search\<close> carries a chunk with \<open>start_char = 0\<close>, with
  \<open>chunk_index\<close> equal to the position of the result in the returned list, and, for one
  index \<open>idx\<close> of the store, with the stored text \<open>texts[idx]\<close>, with
  \<open>end_char = len(texts[idx])\<close> and with the very dictionary \<open>metadatas[idx]\<close> of the
  store as metadata (the same address).
\<close>

theorem C10_search_results_lose_positions:
  assumes "similarity_search ops h st q k min_score filters = Inr results"
      and "i < length results"
  shows "start_char (chunk (results ! i)) = 0
       \<and> chunk_index (chunk (results ! i)) = i
       \<and> (\<exists>idx. idx < length (texts st) \<and> idx < length (metadatas st)
             \<and> text_str (chunk (results ! i)) = texts st ! idx
             \<and> end_char (chunk (results ! i)) = int (length (texts st ! idx))
             \<and> metadata (chunk (results ! i)) = metadatas st ! idx)"
proof -
  from assms(2) have "results \<noteq> []" by auto
  from similarity_search_build[OF assms(1) this] obtain xs where
    "build_results st 0 xs = Inr results" ..
  from build_results_shape[OF this] assms(2) show ?thesis by auto
qed


theorem C10_search_results_lose_positions_witness:
  "similarity_search exact_arithmetic empty_heap
      \<lparr>texts = [''Text 1'', ''Text two''], embeddings = [[Fin 1, Fin 0, Fin 0], [Fin 0, Fin 1, Fin 0]], metadatas = [7, 8]\<rparr>
      [Fin (1 / 4), Fin (3 / 4), Fin 0] 2 0 None
    = Inr [\<lparr>chunk = \<lparr>text_str = ''Text two'', metadata = 8, start_char = 0, end_char = 8,
                      chunk_index = 0\<rparr>, score = Fin (3 / 4)\<rparr>,
           \<lparr>chunk = \<lparr>text_str = ''Text 1'', metadata = 7, start_char = 0, end_char = 6,
                      chunk_index = 1\<rparr>, score = Fin (1 / 4)\<rparr>]
   \<and> (0 :: nat) < length [\<lparr>chunk = \<lparr>text_str = ''Text two'', metadata = 8 :: addr, start_char = 0,
                      end_char = 8, chunk_index = 0\<rparr>, score = Fin (3 / 4)\<rparr>,
           \<lparr>chunk = \<lparr>text_str = ''Text 1'', metadata = 7, start_char = 0, end_char = 6,
                      chunk_index = 1\<rparr>, score = Fin (1 / 4)\<rparr>]
   \<and> start_char (chunk ([\<lparr>chunk = \<lparr>text_str = ''Text two'', metadata = 8 :: addr, start_char = 0,
                      end_char = 8, chunk_index = 0\<rparr>, score = Fin (3 / 4)\<rparr>,
           \<lparr>chunk = \<lparr>text_str = ''Text 1'', metadata = 7, start_char = 0, end_char = 6,
                      chunk_index = 1\<rparr>, score = Fin (1 / 4)\<rparr>] ! 0)) = 0
   \<and> chunk_index (chunk ([\<lparr>chunk = \<lparr>text_str = ''Text two'', metadata = 8 :: addr, start_char = 0,
                      end_char = 8, chunk_index = 0\<rparr>, score = Fin (3 / 4)\<rparr>,
           \<lparr>chunk = \<lparr>text_str = ''Text 1'', metadata = 7, start_char = 0, end_char = 6,
                      chunk_index = 1\<rparr>, score = Fin (1 / 4)\<rparr>] ! 0)) = 0"
proof -
  have h: "similarity_search exact_arithmetic empty_heap
      \<lparr>texts = [''Text 1'', ''Text two''], embeddings = [[Fin 1, Fin 0, Fin 0], [Fin 0, Fin 1, Fin 0]], metadatas = [7, 8]\<rparr>
      [Fin (1 / 4), Fin (3 / 4), Fin 0] 2 0 None
    = Inr [\<lparr>chunk = \<lparr>text_str = ''Text two'', metadata = 8, start_char = 0, end_char = 8,
                      chunk_index = 0\<rparr>, score = Fin (3 / 4)\<rparr>,
           \<lparr>chunk = \<lparr>text_str = ''Text 1'', metadata = 7, start_char = 0, end_char = 6,
                      chunk_index = 1\<rparr>, score = Fin (1 / 4)\<rparr>]"
    by (simp add: similarity_search_def np_matvec_def exact_arithmetic_def exact_dot_def
          inner_product_def f64_ge_def truthy_def py_take_def py_slice_def py_index_def
          item_at_def upt_rec)
  have l: "(0 :: nat) < length [\<lparr>chunk = \<lparr>text_str = ''Text two'', metadata = 8 :: addr,
                      start_char = 0, end_char = 8, chunk_index = 0\<rparr>, score = Fin (3 / 4)\<rparr>,
           \<lparr>chunk = \<lparr>text_str = ''Text 1'', metadata = 7, start_char = 0, end_char = 6,
                      chunk_index = 1\<rparr>, score = Fin (1 / 4)\<rparr>]"
    by simp
  from C10_search_results_lose_positions[OF h l] h l show ?thesis by blast
qed

section \<open>Scores and order of the results of the similarity search\<close>

lemma py_take_eq_take: "py_take k xs = take (py_index (length xs) k) xs"
  by (simp add: py_take_def py_slice_def py_index_def)

lemma key_neg_le_not_lt: "f64_key (f64_neg a) \<le> f64_key (f64_neg b) \<Longrightarrow> \<not> f64_lt a b"
  by (cases a; cases b) simp_all

lemma scan_similarities_subset:
  "scan_similarities h vs ms flt xs = Inr rs \<Longrightarrow>
     set rs \<subseteq> {x \<in> set xs. f64_ge (snd x) (Fin ms)}"
proof (induction xs arbitrary: rs)
  case Nil
  then show ?case by simp
next
  case (Cons x xs)
  obtain i s where x: "x = (i, s)" by (cases x) auto
  show ?case
  proof (cases "scan_similarities h vs ms flt xs")
    case (Inl e)
    show ?thesis
    proof (cases "truthy flt")
      case True
      show ?thesis
      proof (cases "item_at (metadatas vs) i")
        case l: (Inl e')
        with Cons.prems x True show ?thesis by simp
      next
        case r: (Inr a)
        with Cons.prems x True Inl show ?thesis by (simp split: if_splits)
      qed
    next
      case False
      with Cons.prems x Inl show ?thesis by simp
    qed
  next
    case (Inr rs')
    from Cons.IH[OF Inr] have sub: "set rs' \<subseteq> {x \<in> set xs. f64_ge (snd x) (Fin ms)}" .
    have "rs = rs' \<or> (rs = (i, s) # rs' \<and> f64_ge s (Fin ms))"
    proof (cases "truthy flt")
      case True
      show ?thesis
      proof (cases "item_at (metadatas vs) i")
        case l: (Inl e')
        with Cons.prems x True show ?thesis by simp
      next
        case r: (Inr a)
        with Cons.prems x True Inr show ?thesis by (simp split: if_splits)
      qed
    next
      case False
      with Cons.prems x Inr show ?thesis by (simp split: if_splits)
    qed
    with sub x show ?thesis by auto
  qed
qed

lemma np_matvec_values:
  assumes "np_matvec ops es q = Inr sims"
  shows "sims = np_dot_2d ops es q"
proof -
  define c1 where "c1 = (\<exists>e \<in> set es. length e \<noteq> length (hd es))"
  define c2 where "c2 = (es \<noteq> [] \<and> length (hd es) \<noteq> length q)"
  have "np_matvec ops es q =
          (if c1 then Inl (ValueError ''inhomogeneous shape'')
           else if c2 then Inl (ValueError ''shapes not aligned'')
           else Inr (np_dot_2d ops es q))"
    unfolding np_matvec_def c1_def c2_def ..
  with assms have "Inr (np_dot_2d ops es q) = (Inr sims :: error + f64 list)"
    by (cases c1; cases c2) simp_all
  then show ?thesis by (simp only: sum.inject)
qed

lemma zip_upt_mem:
  assumes "(i, s) \<in> set (zip [0 ..< length xs] xs)"
  shows "i < length xs \<and> s = xs ! i"
proof -
  from assms obtain n where n: "n < length xs" "[0 ..< length xs] ! n = i" "xs ! n = s"
    unfolding in_set_zip by auto
  then show ?thesis by simp
qed

lemma build_results_scores:
  assumes "build_results st j xs = Inr rs"
  shows "map score rs = map snd xs"
proof (rule nth_equalityI)
  from build_results_shape[OF assms] show "length (map score rs) = length (map snd xs)" by simp
next
  fix i assume "i < length (map score rs)"
  then have "i < length rs" by simp
  with build_results_shape[OF assms] show "map score rs ! i = map snd xs ! i" by simp
qed

lemma similarity_search_scores:
  assumes "similarity_search ops h vs q k min_score filters = Inr results"
  shows "(\<forall>r \<in> set results. \<exists>idx. idx < length (texts vs)
             \<and> idx < length (np_dot_2d ops (embeddings vs) q)
             \<and> text_str (chunk r) = texts vs ! idx
             \<and> score r = np_dot_2d ops (embeddings vs) q ! idx
             \<and> f64_ge (score r) (Fin min_score))
       \<and> sorted_wrt (\<lambda>a b. \<not> f64_lt (score a) (score b)) results"
proof (cases "embeddings vs = []")
  case True
  with assms show ?thesis by (simp add: similarity_search_def)
next
  case False
  let ?key = "\<lambda>x :: nat \<times> f64. f64_key (f64_neg (snd x))"
  from False assms obtain sims cands where
    mv: "np_matvec ops (embeddings vs) q = Inr sims"
    and sc: "scan_similarities h vs min_score filters (zip [0 ..< length sims] sims) = Inr cands"
    and br: "build_results vs 0 (py_take k (sort_key ?key cands)) = Inr results"
    by (auto simp: similarity_search_def split: sum.splits)
  let ?xs = "py_take k (sort_key ?key cands)"
  have tk: "?xs = take (py_index (length (sort_key ?key cands)) k) (sort_key ?key cands)"
    by (rule py_take_eq_take)
  have "sorted (map ?key (sort_key ?key cands))" by (rule sorted_sort_key)
  then have "sorted_wrt (\<lambda>a b. ?key a \<le> ?key b) (sort_key ?key cands)" by (simp add: sorted_map)
  then have "sorted_wrt (\<lambda>a b. \<not> f64_lt (snd a) (snd b)) (sort_key ?key cands)"
    by (rule sorted_wrt_mono_rel[rotated]) (use key_neg_le_not_lt in blast)
  then have "sorted_wrt (\<lambda>a b. \<not> f64_lt (snd a) (snd b)) ?xs"
    unfolding tk by (rule sorted_wrt_take)
  then have "sorted_wrt (\<lambda>a b. \<not> f64_lt a b) (map snd ?xs)" by (simp add: sorted_wrt_map)
  then have "sorted_wrt (\<lambda>a b. \<not> f64_lt a b) (map score results)"
    by (simp only: build_results_scores[OF br])
  then have s: "sorted_wrt (\<lambda>a b. \<not> f64_lt (score a) (score b)) results"
    by (simp add: sorted_wrt_map)
  have sims: "sims = np_dot_2d ops (embeddings vs) q" using mv by (rule np_matvec_values)
  have sub: "set ?xs \<subseteq> {x \<in> set (zip [0 ..< length sims] sims). f64_ge (snd x) (Fin min_score)}"
  proof -
    have "set ?xs \<subseteq> set (sort_key ?key cands)" unfolding tk by (rule set_take_subset)
    also have "\<dots> = set cands" by simp
    also have "\<dots> \<subseteq> {x \<in> set (zip [0 ..< length sims] sims). f64_ge (snd x) (Fin min_score)}"
      using sc by (rule scan_similarities_subset)
    finally show ?thesis .
  qed
  have "\<forall>r \<in> set results. \<exists>idx. idx < length (texts vs)
             \<and> idx < length (np_dot_2d ops (embeddings vs) q)
             \<and> text_str (chunk r) = texts vs ! idx
             \<and> score r = np_dot_2d ops (embeddings vs) q ! idx
             \<and> f64_ge (score r) (Fin min_score)"
  proof
    fix r assume "r \<in> set results"
    then obtain i where i: "i < length results" and r: "r = results ! i"
      by (auto simp: in_set_conv_nth)
    from build_results_shape[OF br] i have
      len: "length results = length ?xs"
      and a: "score (results ! i) = snd (?xs ! i)"
      and b: "fst (?xs ! i) < length (texts vs)"
      and c: "text_str (chunk (results ! i)) = texts vs ! fst (?xs ! i)"
      by simp_all
    from i len have "?xs ! i \<in> set ?xs" by simp
    with sub have m: "(fst (?xs ! i), snd (?xs ! i)) \<in> set (zip [0 ..< length sims] sims)"
      and g: "f64_ge (snd (?xs ! i)) (Fin min_score)"
      by auto
    from zip_upt_mem[OF m] a b c g r sims
    show "\<exists>idx. idx < length (texts vs)
             \<and> idx < length (np_dot_2d ops (embeddings vs) q)
             \<and> text_str (chunk r) = texts vs ! idx
             \<and> score r = np_dot_2d ops (embeddings vs) q ! idx
             \<and> f64_ge (score r) (Fin min_score)"
      by auto
  qed
  with s show ?thesis by simp
qed

section \<open>Insertion into the memory stores\<close>

lemma set_update_subset: "set (AList.update k v al) \<subseteq> insert (k, v) (set al)"
  by (induction al) auto

lemma add_loop_stored:
  assumes "\<forall>p \<in> set (ms_embeddings st). snd p \<in> S"
      and "\<forall>p \<in> set ps. normalize_embedding ops (snd p) \<in> S"
  shows "\<forall>p \<in> set (ms_embeddings (snd (add_loop ops md ids i ps st))). snd p \<in> S"
  using assms
proof (induction ps arbitrary: i st)
  case Nil
  then show ?case by simp
next
  case (Cons p ps)
  obtain t e where p: "p = (t, e)" by (cases p) auto
  show ?case
  proof (cases "i \<ge> length ids")
    case True
    with Cons.prems p show ?thesis by simp
  next
    case False
    let ?st = "st\<lparr>ms_texts := AList.update (ids ! i) t (ms_texts st),
                  ms_embeddings := AList.update (ids ! i) (normalize_embedding ops e) (ms_embeddings st),
                  ms_metadata := AList.update (ids ! i)
                     (if truthy md \<and> i < length (the md) then the md ! i else [])
                     (ms_metadata st)\<rparr>"
    from Cons.prems(2) p have e: "normalize_embedding ops e \<in> S" by simp
    have "\<forall>p \<in> set (ms_embeddings ?st). snd p \<in> S"
    proof
      fix p assume "p \<in> set (ms_embeddings ?st)"
      then have "p \<in> insert (ids ! i, normalize_embedding ops e) (set (ms_embeddings st))"
        using set_update_subset[of "ids ! i" "normalize_embedding ops e" "ms_embeddings st"]
        by auto
      then show "snd p \<in> S" using Cons.prems(1) e by auto
    qed
    moreover from Cons.prems(2) have "\<forall>p \<in> set ps. normalize_embedding ops (snd p) \<in> S" by simp
    ultimately have "\<forall>p \<in> set (ms_embeddings (snd (add_loop ops md ids (Suc i) ps ?st))). snd p \<in> S"
      by (rule Cons.IH)
    then show ?thesis using False p by (simp add: Let_def)
  qed
qed

lemma add_texts_stored:
  assumes "\<forall>p \<in> set (ms_embeddings st). snd p \<in> S"
      and "\<forall>e \<in> set embs. normalize_embedding ops e \<in> S"
  shows "\<forall>p \<in> set (ms_embeddings (snd (MemoryStore_add_texts ops uuid4 st txts embs md ids))).
           snd p \<in> S"
proof -
  define ids' where "ids' = (case ids of None \<Rightarrow> map uuid4 [uuid_count st ..< uuid_count st + length txts] | Some l \<Rightarrow> l)"
  define st0 where "st0 = (case ids of None \<Rightarrow> st\<lparr>uuid_count := uuid_count st + length txts\<rparr> | Some l \<Rightarrow> st)"
  have a: "\<forall>p \<in> set (ms_embeddings st0). snd p \<in> S"
    using assms(1) by (simp add: st0_def split: option.splits)
  have b: "\<forall>p \<in> set (zip txts embs). normalize_embedding ops (snd p) \<in> S"
    using assms(2) by (auto dest: set_zip_rightD)
  have "snd (MemoryStore_add_texts ops uuid4 st txts embs md ids)
          = snd (add_loop ops md ids' 0 (zip txts embs) st0)"
    by (cases "add_loop ops md ids' 0 (zip txts embs) st0")
       (auto simp: MemoryStore_add_texts_def ids'_def st0_def split: option.splits)
  with add_loop_stored[OF a b, of md ids' 0] show ?thesis by simp
qed

lemma add_many_stored:
  assumes "\<forall>p \<in> set (ms_embeddings st). snd p \<in> S"
      and "\<forall>c \<in> set calls. \<forall>e \<in> set (fst (snd c)). normalize_embedding ops e \<in> S"
  shows "\<forall>p \<in> set (ms_embeddings (add_many ops uuid4 st calls)). snd p \<in> S"
  using assms
proof (induction calls arbitrary: st)
  case Nil
  then show ?case by simp
next
  case (Cons c calls)
  obtain txts embs md ids where c: "c = (txts, embs, md, ids)" by (cases c) auto
  from Cons.prems(2) c have e: "\<forall>e \<in> set embs. normalize_embedding ops e \<in> S" by simp
  from Cons.prems(2) have r: "\<forall>c \<in> set calls. \<forall>e \<in> set (fst (snd c)). normalize_embedding ops e \<in> S"
    by simp
  from Cons.IH[OF add_texts_stored[OF Cons.prems(1) e] r] c show ?case by simp
qed

lemma init_new: "MemoryStore_init c = Inr st \<Longrightarrow> st = new_MemoryStore c"
  by (auto simp: MemoryStore_init_def new_MemoryStore_def split: sum.splits)

lemma add_many_stored_new:
  assumes "(ident, v) \<in> set (ms_embeddings (add_many ops uuid4 (new_MemoryStore c) calls))"
  shows "\<exists>(txts, embs, md, ids) \<in> set calls. \<exists>e \<in> set embs.
           v = (if f64_lt (Fin 0) (np_linalg_norm ops e)
                then map (\<lambda>x. np_true_divide ops x (np_linalg_norm ops e)) e else e)"
proof -
  define S where "S = {normalize_embedding ops e | e cl. cl \<in> set calls \<and> e \<in> set (fst (snd cl))}"
  have a: "\<forall>p \<in> set (ms_embeddings (new_MemoryStore c)). snd p \<in> S"
    by (simp add: new_MemoryStore_def)
  have b: "\<forall>cl \<in> set calls. \<forall>e \<in> set (fst (snd cl)). normalize_embedding ops e \<in> S"
    unfolding S_def by blast
  from add_many_stored[OF a b, of uuid4] assms have "v \<in> S" by force
  then obtain e cl where cl: "cl \<in> set calls" and e: "e \<in> set (fst (snd cl))"
    and v: "v = normalize_embedding ops e" by (auto simp: S_def)
  obtain txts embs md ids where c: "cl = (txts, embs, md, ids)" by (cases cl) auto
  from v have "v = (if f64_lt (Fin 0) (np_linalg_norm ops e)
                then map (\<lambda>x. np_true_divide ops x (np_linalg_norm ops e)) e else e)"
    by (simp add: normalize_embedding_def Let_def f64_gt_def)
  with cl e c show ?thesis by force
qed

lemma add_text_stores_as_given:
  "add_text provider h st t md (Some e) = Inr (h', st') \<Longrightarrow> embeddings st' = embeddings st @ [e]"
  by (auto simp: add_text_def Let_def split: option.splits if_splits prod.splits)

lemma add_texts_stores_as_given:
  "add_texts provider h st ts mds (Some es) = Inr (h', st') \<Longrightarrow> embeddings st' = embeddings st @ es"
  by (auto simp: add_texts_def Let_def split: option.splits if_splits prod.splits)

lemma add_text_stores_provided:
  "add_text provider h st t md None = Inr (h', st') \<Longrightarrow>
     \<exists>e es. provider [t] = Inr (e # es) \<and> embeddings st' = embeddings st @ [e]"
  by (auto simp: add_text_def MemoryVectorStore_get_embedding_def first_item_def Let_def
        split: option.splits if_splits prod.splits sum.splits list.splits)

lemma add_texts_stores_provided:
  "add_texts provider h st ts mds None = Inr (h', st') \<Longrightarrow>
     \<exists>es. provider ts = Inr es \<and> embeddings st' = embeddings st @ es"
  by (auto simp: add_texts_def Let_def split: option.splits if_splits prod.splits sum.splits)


lemma add_loop_keys:
  "i + length ps \<le> length ids \<Longrightarrow>
     fst (add_loop ops md ids i ps st) = None
     \<and> fst ` set (ms_texts (snd (add_loop ops md ids i ps st)))
         = fst ` set (ms_texts st) \<union> set (take (length ps) (drop i ids))
     \<and> fst ` set (ms_embeddings (snd (add_loop ops md ids i ps st)))
         = fst ` set (ms_embeddings st) \<union> set (take (length ps) (drop i ids))
     \<and> fst ` set (ms_metadata (snd (add_loop ops md ids i ps st)))
         = fst ` set (ms_metadata st) \<union> set (take (length ps) (drop i ids))"
proof (induction ps arbitrary: i st)
  case Nil
  then show ?case by simp
next
  case (Cons p ps)
  obtain t e where p: "p = (t, e)" by (cases p) auto
  from Cons.prems have i: "i < length ids" and r: "Suc i + length ps \<le> length ids" by simp_all
  have d: "drop i ids = ids ! i # drop (Suc i) ids" using i by (simp add: Cons_nth_drop_Suc)
  show ?case using Cons.IH[OF r] i p
    by (simp add: Let_def d AList.dom_update Un_assoc del: image_insert insert_is_Un)
qed

lemma add_loop_other_key:
  "k \<notin> set (take (length ps) (drop i ids)) \<Longrightarrow> i + length ps \<le> length ids \<Longrightarrow>
     map_of (ms_texts (snd (add_loop ops md ids i ps st))) k = map_of (ms_texts st) k
     \<and> map_of (ms_embeddings (snd (add_loop ops md ids i ps st))) k = map_of (ms_embeddings st) k"
proof (induction ps arbitrary: i st)
  case Nil
  then show ?case by simp
next
  case (Cons p ps)
  obtain t e where p: "p = (t, e)" by (cases p) auto
  from Cons.prems have i: "i < length ids" and r: "Suc i + length ps \<le> length ids" by simp_all
  have d: "drop i ids = ids ! i # drop (Suc i) ids" using i by (simp add: Cons_nth_drop_Suc)
  from Cons.prems(1) d have k1: "k \<noteq> ids ! i" and k2: "k \<notin> set (take (length ps) (drop (Suc i) ids))"
    by auto
  show ?case using Cons.IH[OF k2 r] i p k1
    by (simp add: Let_def AList.update_conv')
qed

lemma add_loop_values:
  "distinct (take (length ps) (drop i ids)) \<Longrightarrow> i + length ps \<le> length ids \<Longrightarrow> j < length ps \<Longrightarrow>
     map_of (ms_texts (snd (add_loop ops md ids i ps st))) (ids ! (i + j)) = Some (fst (ps ! j))
     \<and> map_of (ms_embeddings (snd (add_loop ops md ids i ps st))) (ids ! (i + j))
          = Some (normalize_embedding ops (snd (ps ! j)))"
proof (induction ps arbitrary: i j st)
  case Nil
  then show ?case by simp
next
  case (Cons p ps)
  obtain t e where p: "p = (t, e)" by (cases p) auto
  from Cons.prems have i: "i < length ids" and r: "Suc i + length ps \<le> length ids" by simp_all
  have d: "drop i ids = ids ! i # drop (Suc i) ids" using i by (simp add: Cons_nth_drop_Suc)
  from Cons.prems(1) d have n: "ids ! i \<notin> set (take (length ps) (drop (Suc i) ids))"
    and dd: "distinct (take (length ps) (drop (Suc i) ids))" by auto
  let ?st = "st\<lparr>ms_texts := AList.update (ids ! i) t (ms_texts st),
                  ms_embeddings := AList.update (ids ! i) (normalize_embedding ops e) (ms_embeddings st),
                  ms_metadata := AList.update (ids ! i)
                     (if truthy md \<and> i < length (the md) then the md ! i else [])
                     (ms_metadata st)\<rparr>"
  have step: "add_loop ops md ids i (p # ps) st = add_loop ops md ids (Suc i) ps ?st"
    using i p by (simp add: Let_def)
  show ?case
  proof (cases j)
    case 0
    from add_loop_other_key[OF n r, of ops md ?st] show ?thesis
      using 0 p step by (simp add: AList.update_conv')
  next
    case (Suc j')
    with Cons.prems(3) have "j' < length ps" by simp
    from Cons.IH[OF dd r this, of ?st] show ?thesis using Suc step by simp
  qed
qed

lemma add_texts_unfold:
  "MemoryStore_add_texts ops uuid4 st txts embs md ids =
     (case add_loop ops md (ids_used uuid4 st txts ids) 0 (zip txts embs)
             (case ids of None \<Rightarrow> st\<lparr>uuid_count := uuid_count st + length txts\<rparr> | Some l \<Rightarrow> st) of
           (Some e, st') \<Rightarrow> (Inl (WrappedException e), st')
         | (None, st') \<Rightarrow> (Inr (ids_used uuid4 st txts ids), st'))"
  by (cases ids) (auto simp: MemoryStore_add_texts_def ids_used_def split: prod.splits option.splits)

lemma add_texts_values:
  assumes "min (length txts) (length embs) \<le> length (ids_used uuid4 st txts ids)"
      and "distinct (take (min (length txts) (length embs)) (ids_used uuid4 st txts ids))"
      and "j < min (length txts) (length embs)"
  shows "map_of (ms_embeddings (snd (MemoryStore_add_texts ops uuid4 st txts embs md ids)))
            (ids_used uuid4 st txts ids ! j)
         = Some (if f64_lt (Fin 0) (np_linalg_norm ops (embs ! j))
                 then map (\<lambda>x. np_true_divide ops x (np_linalg_norm ops (embs ! j))) (embs ! j)
                 else embs ! j)"
proof -
  let ?ids = "ids_used uuid4 st txts ids"
  let ?st0 = "case ids of None \<Rightarrow> st\<lparr>uuid_count := uuid_count st + length txts\<rparr> | Some l \<Rightarrow> st"
  let ?r = "add_loop ops md ?ids 0 (zip txts embs) ?st0"
  have len: "0 + length (zip txts embs) \<le> length ?ids" using assms(1) by simp
  from assms(2) have d': "distinct (take (length (zip txts embs)) (drop 0 ?ids))" by simp
  from assms(3) have j': "j < length (zip txts embs)" by simp
  from add_loop_values[OF d' len j', of ops md ?st0] assms(3)
  have "map_of (ms_embeddings (snd ?r)) (?ids ! j) = Some (normalize_embedding ops (embs ! j))"
    by simp
  moreover have "snd (MemoryStore_add_texts ops uuid4 st txts embs md ids) = snd ?r"
    by (cases ?r) (auto simp: add_texts_unfold split: option.splits)
  ultimately show ?thesis by (simp add: normalize_embedding_def Let_def f64_gt_def)
qed


text \<open>
  C3 (unit-norm insertion), as the code has it. \<open>MemoryStore.add_texts\<close> stores, for a
  supplied embedding \<open>e\<close>, the array \<open>e / np.linalg.norm(e)\<close> when
  \<open>np.linalg.norm(e) > 0\<close> and \<open>e\<close> itself otherwise, both computed in float64:
  after any sequence of \<open>add_texts\<close> calls on a new store every stored embedding is such a
  value for an embedding supplied in one of the calls; and one call whose identifiers are
  distinct stores under the identifier of position \<open>j\<close> that value for the embedding of
  position \<open>j\<close>. \<open>MemoryVectorStore.add_text\<close> and \<open>add_texts\<close> append unchanged the
  embeddings they are given, or the ones the embeddings provider returns when none is given.
\<close>

theorem C3_stored_embedding_is_divided_by_its_norm:
  "(MemoryStore_init c = Inr st0 \<longrightarrow>
      (\<forall>(ident, v) \<in> set (ms_embeddings (add_many ops uuid4 st0 calls)).
          \<exists>(txts, embs, md, ids) \<in> set calls. \<exists>e \<in> set embs.
             v = (if f64_lt (Fin 0) (np_linalg_norm ops e)
                  then map (\<lambda>x. np_true_divide ops x (np_linalg_norm ops e)) e else e)))
   \<and> (min (length txts) (length embs) \<le> length (ids_used uuid4 st txts ids)
        \<and> distinct (take (min (length txts) (length embs)) (ids_used uuid4 st txts ids))
      \<longrightarrow> (\<forall>j < min (length txts) (length embs).
             map_of (ms_embeddings (snd (MemoryStore_add_texts ops uuid4 st txts embs md ids)))
                (ids_used uuid4 st txts ids ! j)
             = Some (if f64_lt (Fin 0) (np_linalg_norm ops (embs ! j))
                     then map (\<lambda>x. np_true_divide ops x (np_linalg_norm ops (embs ! j))) (embs ! j)
                     else embs ! j)))
   \<and> (add_text provider h vs t vmd (Some e) = Inr (h', vs')
      \<longrightarrow> embeddings vs' = embeddings vs @ [e])
   \<and> (add_texts provider h vs ts mds (Some es) = Inr (h', vs')
      \<longrightarrow> embeddings vs' = embeddings vs @ es)
   \<and> (add_text provider h vs t vmd None = Inr (h', vs')
      \<longrightarrow> (\<exists>e es. provider [t] = Inr (e # es) \<and> embeddings vs' = embeddings vs @ [e]))
   \<and> (add_texts provider h vs ts mds None = Inr (h', vs')
      \<longrightarrow> (\<exists>es. provider ts = Inr es \<and> embeddings vs' = embeddings vs @ es))"
proof -
  have a: "MemoryStore_init c = Inr st0 \<longrightarrow>
      (\<forall>(ident, v) \<in> set (ms_embeddings (add_many ops uuid4 st0 calls)).
          \<exists>(txts, embs, md, ids) \<in> set calls. \<exists>e \<in> set embs.
             v = (if f64_lt (Fin 0) (np_linalg_norm ops e)
                  then map (\<lambda>x. np_true_divide ops x (np_linalg_norm ops e)) e else e))"
  proof
    assume "MemoryStore_init c = Inr st0"
    then have st0: "st0 = new_MemoryStore c" by (rule init_new)
    show "\<forall>(ident, v) \<in> set (ms_embeddings (add_many ops uuid4 st0 calls)).
          \<exists>(txts, embs, md, ids) \<in> set calls. \<exists>e \<in> set embs.
             v = (if f64_lt (Fin 0) (np_linalg_norm ops e)
                  then map (\<lambda>x. np_true_divide ops x (np_linalg_norm ops e)) e else e)"
      unfolding st0 using add_many_stored_new[of _ _ ops uuid4 c calls] by blast
  qed
  have b: "min (length txts) (length embs) \<le> length (ids_used uuid4 st txts ids)
        \<and> distinct (take (min (length txts) (length embs)) (ids_used uuid4 st txts ids))
      \<longrightarrow> (\<forall>j < min (length txts) (length embs).
             map_of (ms_embeddings (snd (MemoryStore_add_texts ops uuid4 st txts embs md ids)))
                (ids_used uuid4 st txts ids ! j)
             = Some (if f64_lt (Fin 0) (np_linalg_norm ops (embs ! j))
                     then map (\<lambda>x. np_true_divide ops x (np_linalg_norm ops (embs ! j))) (embs ! j)
                     else embs ! j))"
    using add_texts_values[of txts embs uuid4 st ids _ ops md] by blast
  have c: "add_text provider h vs t vmd (Some e) = Inr (h', vs')
      \<longrightarrow> embeddings vs' = embeddings vs @ [e]"
    using add_text_stores_as_given by blast
  have d: "add_texts provider h vs ts mds (Some es) = Inr (h', vs')
      \<longrightarrow> embeddings vs' = embeddings vs @ es"
    using add_texts_stores_as_given by blast
  have e: "add_text provider h vs t vmd None = Inr (h', vs')
      \<longrightarrow> (\<exists>e es. provider [t] = Inr (e # es) \<and> embeddings vs' = embeddings vs @ [e])"
    using add_text_stores_provided by blast
  have f: "add_texts provider h vs ts mds None = Inr (h', vs')
      \<longrightarrow> (\<exists>es. provider ts = Inr es \<and> embeddings vs' = embeddings vs @ es)"
    using add_texts_stores_provided by blast
  from a b c d e f show ?thesis by (intro conjI)
qed

theorem C3_stored_embedding_is_divided_by_its_norm_witness:
  "MemoryStore_init cosine_config = Inr (new_MemoryStore cosine_config)
   \<and> ms_embeddings (add_many exact_arithmetic uuid4_example (new_MemoryStore cosine_config)
         [([''a'', ''b''], [[Fin 4, Fin 0], [Fin 0, Fin 0]], None, None)])
       = [(''uuid-'', [Fin 1, Fin 0]), (''uuid-i'', [Fin 0, Fin 0])]
   \<and> (\<exists>(txts, embs, md, ids)
           \<in> set [([''a'', ''b''], [[Fin 4, Fin 0], [Fin 0, Fin 0]],
                    None :: mdict list option, None :: string list option)].
         \<exists>e \<in> set embs.
           [Fin 1, Fin 0]
             = (if f64_lt (Fin 0) (np_linalg_norm exact_arithmetic e)
                then map (\<lambda>x. np_true_divide exact_arithmetic x (np_linalg_norm exact_arithmetic e)) e
                else e))
   \<and> ids_used uuid4_example (new_MemoryStore cosine_config) [''a'', ''b''] None
       = [''uuid-'', ''uuid-i'']
   \<and> map_of (ms_embeddings (snd (MemoryStore_add_texts exact_arithmetic uuid4_example
         (new_MemoryStore cosine_config) [''a'', ''b''] [[Fin 4, Fin 0], [Fin 0, Fin 0]]
         None None))) ''uuid-i'' = Some [Fin 0, Fin 0]
   \<and> add_text (fixed_provider [[Fin 2, Fin 0]]) empty_heap new_MemoryVectorStore ''a'' None
         (Some [Fin 2, Fin 0])
       = Inr (\<lparr>cells = (\<lambda>a. []), next_free = 1\<rparr>,
              \<lparr>texts = [''a''], embeddings = [[Fin 2, Fin 0]], metadatas = [0]\<rparr>)
   \<and> add_texts (fixed_provider [[Fin 2, Fin 0]]) empty_heap new_MemoryVectorStore [''a''] None
         (Some [[Fin 2, Fin 0]])
       = Inr (\<lparr>cells = (\<lambda>a. []), next_free = 1\<rparr>,
              \<lparr>texts = [''a''], embeddings = [[Fin 2, Fin 0]], metadatas = [0]\<rparr>)
   \<and> add_text (fixed_provider [[Fin 2, Fin 0]]) empty_heap new_MemoryVectorStore ''a'' None None
       = Inr (\<lparr>cells = (\<lambda>a. []), next_free = 1\<rparr>,
              \<lparr>texts = [''a''], embeddings = [[Fin 2, Fin 0]], metadatas = [0]\<rparr>)
   \<and> add_texts (fixed_provider [[Fin 2, Fin 0]]) empty_heap new_MemoryVectorStore [''a''] None None
       = Inr (\<lparr>cells = (\<lambda>a. []), next_free = 1\<rparr>,
              \<lparr>texts = [''a''], embeddings = [[Fin 2, Fin 0]], metadatas = [0]\<rparr>)
   \<and> embeddings \<lparr>texts = [''a''], embeddings = [[Fin 2, Fin 0]], metadatas = [0]\<rparr>
       = embeddings new_MemoryVectorStore @ [[Fin 2, Fin 0]]
   \<and> (\<exists>e es. fixed_provider [[Fin 2, Fin 0]] [''a''] = Inr (e # es)
         \<and> embeddings \<lparr>texts = [''a''], embeddings = [[Fin 2, Fin 0]], metadatas = [0]\<rparr>
             = embeddings new_MemoryVectorStore @ [e])"
proof -
  let ?calls = "[([''a'', ''b''], [[Fin 4, Fin 0], [Fin 0, Fin 0]],
                  None :: mdict list option, None :: string list option)]"
  let ?h = "\<lparr>cells = (\<lambda>a. [] :: mdict), next_free = 1\<rparr>"
  let ?vs = "\<lparr>texts = [''a''], embeddings = [[Fin 2, Fin 0]], metadatas = [0]\<rparr>"
  have h1: "MemoryStore_init cosine_config = Inr (new_MemoryStore cosine_config)"
    by (simp add: MemoryStore_init_def MemoryStore_validate_config_def cosine_config_def
          new_MemoryStore_def)
  have e: "ms_embeddings (add_many exact_arithmetic uuid4_example (new_MemoryStore cosine_config)
         ?calls) = [(''uuid-'', [Fin 1, Fin 0]), (''uuid-i'', [Fin 0, Fin 0])]"
    by (simp add: MemoryStore_add_texts_def new_MemoryStore_def normalize_embedding_def
          exact_arithmetic_def exact_norm_def f64_gt_def
          l2norm_def Let_def truthy_def uuid4_example_def upt_rec)
  have i: "ids_used uuid4_example (new_MemoryStore cosine_config) [''a'', ''b''] None
             = [''uuid-'', ''uuid-i'']"
    by (simp add: ids_used_def uuid4_example_def new_MemoryStore_def upt_rec)
  have h2: "min (length [''a'', ''b'']) (length [[Fin 4, Fin 0], [Fin 0, Fin 0]])
        \<le> length (ids_used uuid4_example (new_MemoryStore cosine_config) [''a'', ''b''] None)
      \<and> distinct (take (min (length [''a'', ''b'']) (length [[Fin 4, Fin 0], [Fin 0, Fin 0]]))
          (ids_used uuid4_example (new_MemoryStore cosine_config) [''a'', ''b''] None))"
    by (simp add: i)
  have h3: "add_text (fixed_provider [[Fin 2, Fin 0]]) empty_heap new_MemoryVectorStore ''a'' None
         (Some [Fin 2, Fin 0]) = Inr (?h, ?vs)"
    by (simp add: add_text_def alloc_def empty_heap_def new_MemoryVectorStore_def fun_eq_iff)
  have h4: "add_texts (fixed_provider [[Fin 2, Fin 0]]) empty_heap new_MemoryVectorStore [''a'']
         None (Some [[Fin 2, Fin 0]]) = Inr (?h, ?vs)"
    by (simp add: add_texts_def alloc_def empty_heap_def new_MemoryVectorStore_def fun_eq_iff)
  have h5: "add_text (fixed_provider [[Fin 2, Fin 0]]) empty_heap new_MemoryVectorStore ''a'' None
         None = Inr (?h, ?vs)"
    by (simp add: add_text_def alloc_def empty_heap_def new_MemoryVectorStore_def fun_eq_iff
          MemoryVectorStore_get_embedding_def fixed_provider_def first_item_def)
  have h6: "add_texts (fixed_provider [[Fin 2, Fin 0]]) empty_heap new_MemoryVectorStore [''a'']
         None None = Inr (?h, ?vs)"
    by (simp add: add_texts_def alloc_def empty_heap_def new_MemoryVectorStore_def fun_eq_iff
          fixed_provider_def)
  note w = C3_stored_embedding_is_divided_by_its_norm
    [where c = cosine_config and ?st0.0 = "new_MemoryStore cosine_config"
       and ops = exact_arithmetic and ?uuid4.0 = uuid4_example and calls = ?calls
       and txts = "[''a'', ''b'']" and embs = "[[Fin 4, Fin 0], [Fin 0, Fin 0]]"
       and st = "new_MemoryStore cosine_config" and ids = None and md = None
       and provider = "fixed_provider [[Fin 2, Fin 0]]" and h = empty_heap
       and vs = new_MemoryVectorStore and t = "''a''" and vmd = None
       and e = "[Fin 2, Fin 0]" and h' = ?h and vs' = ?vs
       and ts = "[''a'']" and mds = None and es = "[[Fin 2, Fin 0]]"]
  note w1 = mp[OF w[THEN conjunct1] h1]
  note w2 = mp[OF w[THEN conjunct2, THEN conjunct1] h2]
  note w3 = mp[OF w[THEN conjunct2, THEN conjunct2, THEN conjunct1] h3]
  note w5 = mp[OF w[THEN conjunct2, THEN conjunct2, THEN conjunct2, THEN conjunct2, THEN conjunct1] h5]
  have m: "(''uuid-'', [Fin 1, Fin 0]) \<in> set (ms_embeddings (add_many exact_arithmetic
              uuid4_example (new_MemoryStore cosine_config) ?calls))"
    unfolding e by simp
  from w1 m have a: "\<exists>(txts, embs, md, ids) \<in> set ?calls. \<exists>e \<in> set embs.
           [Fin 1, Fin 0]
             = (if f64_lt (Fin 0) (np_linalg_norm exact_arithmetic e)
                then map (\<lambda>x. np_true_divide exact_arithmetic x (np_linalg_norm exact_arithmetic e)) e
                else e)"
    by blast
  from w2 have "map_of (ms_embeddings (snd (MemoryStore_add_texts exact_arithmetic uuid4_example
         (new_MemoryStore cosine_config) [''a'', ''b''] [[Fin 4, Fin 0], [Fin 0, Fin 0]]
         None None))) (ids_used uuid4_example (new_MemoryStore cosine_config) [''a'', ''b''] None ! 1)
        = Some (if f64_lt (Fin 0) (np_linalg_norm exact_arithmetic ([[Fin 4, Fin 0], [Fin 0, Fin 0]] ! 1))
                then map (\<lambda>x. np_true_divide exact_arithmetic x
                        (np_linalg_norm exact_arithmetic ([[Fin 4, Fin 0], [Fin 0, Fin 0]] ! 1)))
                       ([[Fin 4, Fin 0], [Fin 0, Fin 0]] ! 1)
                else [[Fin 4, Fin 0], [Fin 0, Fin 0]] ! 1)"
    by simp
  then have b: "map_of (ms_embeddings (snd (MemoryStore_add_texts exact_arithmetic uuid4_example
         (new_MemoryStore cosine_config) [''a'', ''b''] [[Fin 4, Fin 0], [Fin 0, Fin 0]]
         None None))) ''uuid-i'' = Some [Fin 0, Fin 0]"
    by (simp add: i exact_arithmetic_def exact_norm_def l2norm_def)
  from h1 e a i b h3 h4 h5 h6 w3 w5 show ?thesis by (intro conjI)
qed

text \<open>
  The claim as stated fails. \<open>MemoryVectorStore.add_text\<close> stores the embedding
  \<open>[2.0, 0.0]\<close> as it is, and its L2 norm is 2. An all-zero embedding added to a new
  \<open>MemoryStore\<close> is stored as it is as well, with L2 norm 0: its computed norm is
  \<open>0.0\<close>, which fails the test \<open>norm > 0\<close>.
\<close>

theorem C3_unit_norm_counterexample:
  "add_text (fixed_provider []) empty_heap new_MemoryVectorStore ''a'' None (Some [Fin 2, Fin 0])
       = Inr (empty_heap\<lparr>next_free := 1\<rparr>,
              \<lparr>texts = [''a''], embeddings = [[Fin 2, Fin 0]], metadatas = [0]\<rparr>)
   \<and> map_option l2norm (f64_values [Fin 2, Fin 0]) = Some 2
   \<and> ms_embeddings (snd (MemoryStore_add_texts exact_arithmetic uuid4_example
         (new_MemoryStore cosine_config) [''a''] [[Fin 0, Fin 0]] None None))
       = [(''uuid-'', [Fin 0, Fin 0])]
   \<and> map_option l2norm (f64_values [Fin 0, Fin 0]) = Some 0"
  by (simp add: MemoryStore_add_texts_def new_MemoryStore_def normalize_embedding_def
        exact_arithmetic_def exact_norm_def f64_gt_def
        l2norm_def Let_def truthy_def uuid4_example_def add_text_def alloc_def empty_heap_def
        new_MemoryVectorStore_def fun_eq_iff)


section \<open>Texts and embeddings of different lengths\<close>

text \<open>
  C8 (mismatched batch lengths fail fast) does not hold of the code. Called with the two
  texts \<open>a\<close>, \<open>b\<close> and the one embedding \<open>[1.0, 0.0]\<close>,
  \<open>MemoryStore.add_texts\<close> raises nothing: it returns two identifiers, the second of
  which names no stored record, and it stores the text \<open>a\<close> alone, with the one embedding.
  \<open>MemoryVectorStore.add_texts\<close> raises nothing either and appends two texts, one
  embedding and two metadata dictionaries.
\<close>

theorem C8_mismatched_lengths_not_rejected:
  "MemoryStore_add_texts exact_arithmetic uuid4_example (new_MemoryStore cosine_config)
      [''a'', ''b''] [[Fin 1, Fin 0]] None None
    = (Inr [''uuid-'', ''uuid-i''],
       \<lparr>ms_config = cosine_config, ms_texts = [(''uuid-'', ''a'')],
         ms_embeddings = [(''uuid-'', [Fin 1, Fin 0])], ms_metadata = [(''uuid-'', [])],
         uuid_count = 2\<rparr>)
   \<and> add_texts (fixed_provider []) empty_heap new_MemoryVectorStore [''a'', ''b''] None
        (Some [[Fin 1, Fin 0]])
    = Inr (\<lparr>cells = (\<lambda>a. []), next_free = 2\<rparr>,
           \<lparr>texts = [''a'', ''b''], embeddings = [[Fin 1, Fin 0]], metadatas = [0, 1]\<rparr>)"
  by (simp add: MemoryStore_add_texts_def new_MemoryStore_def normalize_embedding_def
        exact_arithmetic_def exact_norm_def f64_gt_def
        l2norm_def Let_def truthy_def uuid4_example_def upt_rec
        add_texts_def alloc_def empty_heap_def new_MemoryVectorStore_def fun_eq_iff
        numeral_2_eq_2)

section \<open>Duplicate suppression\<close>

lemma f64_gt_exceeds: "f64_gt s (Fin thr) = spec_exceeds s thr"
  by (cases s) (simp_all add: f64_gt_def spec_exceeds_def)

lemma is_duplicate_iff:
  "is_duplicate ops thr e seen = Inr d \<Longrightarrow> d = (\<exists>s \<in> set seen. sim_to ops thr e s)"
  by (induction seen) (auto simp: sim_to_def split: sum.splits if_splits)

lemma sim_to_spec:
  "ge t = Inr e \<Longrightarrow> ge t' = Inr e' \<Longrightarrow>
     sim_to ops thr (np_divide_norm ops e) (np_divide_norm ops e') = spec_too_similar ops ge thr t t'"
  by (simp add: sim_to_def spec_too_similar_def np_dot_def np_divide_norm_def
        spec_normalized_def f64_gt_exceeds)

lemma kept_Cons: "kept (c # cs) (b # bs) = (if b then c # kept cs bs else kept cs bs)"
  by (simp add: kept_def)

lemma filter_loop_flags:
  "filter_loop ops ge thr cs (filtered, seen) = Inr fs \<Longrightarrow>
     (\<forall>c \<in> set cs. \<exists>e. ge (text_str (rc_chunk c)) = Inr e) \<and>
     (\<exists>keep. length keep = length cs \<and> fs = filtered @ kept cs keep
        \<and> (\<forall>i < length cs. keep ! i =
              (\<not> ((\<exists>s \<in> set seen. sim_to ops thr (emb_of ops ge (cs ! i)) s)
                  \<or> (\<exists>j < i. keep ! j \<and> sim_to ops thr (emb_of ops ge (cs ! i)) (emb_of ops ge (cs ! j)))))))"
proof (induction cs arbitrary: filtered seen)
  case Nil
  then show ?case by (simp add: kept_def)
next
  case (Cons c cs)
  from Cons.prems obtain e where e: "ge (text_str (rc_chunk c)) = Inr e"
    by (auto split: sum.splits)
  have ec: "emb_of ops ge c = np_divide_norm ops e" using e by (simp add: emb_of_def)
  from Cons.prems e obtain d where d: "is_duplicate ops thr (np_divide_norm ops e) seen = Inr d"
    by (auto simp: Let_def split: sum.splits)
  from is_duplicate_iff[OF d] have dd: "d = (\<exists>s \<in> set seen. sim_to ops thr (emb_of ops ge c) s)"
    by (simp add: ec)
  show ?case
  proof (cases d)
    case True
    with Cons.prems e d have r: "filter_loop ops ge thr cs (filtered, seen) = Inr fs"
      by (simp add: Let_def)
    from Cons.IH[OF r] obtain keep where
      a: "\<forall>c \<in> set cs. \<exists>e. ge (text_str (rc_chunk c)) = Inr e"
      and l: "length keep = length cs" and f: "fs = filtered @ kept cs keep"
      and k: "\<And>i. i < length cs \<Longrightarrow> keep ! i =
              (\<not> ((\<exists>s \<in> set seen. sim_to ops thr (emb_of ops ge (cs ! i)) s)
                  \<or> (\<exists>j < i. keep ! j \<and> sim_to ops thr (emb_of ops ge (cs ! i)) (emb_of ops ge (cs ! j)))))"
      by blast
    have "\<forall>i < length (c # cs). (False # keep) ! i =
              (\<not> ((\<exists>s \<in> set seen. sim_to ops thr (emb_of ops ge ((c # cs) ! i)) s)
                  \<or> (\<exists>j < i. (False # keep) ! j
                         \<and> sim_to ops thr (emb_of ops ge ((c # cs) ! i)) (emb_of ops ge ((c # cs) ! j)))))"
    proof (intro allI impI)
      fix i assume i: "i < length (c # cs)"
      show "(False # keep) ! i =
              (\<not> ((\<exists>s \<in> set seen. sim_to ops thr (emb_of ops ge ((c # cs) ! i)) s)
                  \<or> (\<exists>j < i. (False # keep) ! j
                         \<and> sim_to ops thr (emb_of ops ge ((c # cs) ! i)) (emb_of ops ge ((c # cs) ! j)))))"
      proof (cases i)
        case 0
        then show ?thesis using dd True by simp
      next
        case (Suc i')
        with i have i': "i' < length cs" by simp
        have "(\<exists>j < Suc i'. (False # keep) ! j
                 \<and> sim_to ops thr (emb_of ops ge (cs ! i')) (emb_of ops ge ((c # cs) ! j)))
              = (\<exists>j < i'. keep ! j \<and> sim_to ops thr (emb_of ops ge (cs ! i')) (emb_of ops ge (cs ! j)))"
          by (auto simp: less_Suc_eq_0_disj)
        with k[OF i'] Suc show ?thesis by simp
      qed
    qed
    with a e l f show ?thesis
      by (intro conjI) (auto intro!: exI[of _ "False # keep"] simp: kept_Cons)
  next
    case False
    with Cons.prems e d have
      r: "filter_loop ops ge thr cs (filtered @ [c], seen @ [np_divide_norm ops e]) = Inr fs"
      by (simp add: Let_def)
    from Cons.IH[OF r] obtain keep where
      a: "\<forall>c \<in> set cs. \<exists>e. ge (text_str (rc_chunk c)) = Inr e"
      and l: "length keep = length cs" and f: "fs = (filtered @ [c]) @ kept cs keep"
      and k: "\<And>i. i < length cs \<Longrightarrow> keep ! i =
              (\<not> ((\<exists>s \<in> set (seen @ [np_divide_norm ops e]). sim_to ops thr (emb_of ops ge (cs ! i)) s)
                  \<or> (\<exists>j < i. keep ! j \<and> sim_to ops thr (emb_of ops ge (cs ! i)) (emb_of ops ge (cs ! j)))))"
      by blast
    have "\<forall>i < length (c # cs). (True # keep) ! i =
              (\<not> ((\<exists>s \<in> set seen. sim_to ops thr (emb_of ops ge ((c # cs) ! i)) s)
                  \<or> (\<exists>j < i. (True # keep) ! j
                         \<and> sim_to ops thr (emb_of ops ge ((c # cs) ! i)) (emb_of ops ge ((c # cs) ! j)))))"
    proof (intro allI impI)
      fix i assume i: "i < length (c # cs)"
      show "(True # keep) ! i =
              (\<not> ((\<exists>s \<in> set seen. sim_to ops thr (emb_of ops ge ((c # cs) ! i)) s)
                  \<or> (\<exists>j < i. (True # keep) ! j
                         \<and> sim_to ops thr (emb_of ops ge ((c # cs) ! i)) (emb_of ops ge ((c # cs) ! j)))))"
      proof (cases i)
        case 0
        then show ?thesis using dd False by simp
      next
        case (Suc i')
        with i have i': "i' < length cs" by simp
        have "(\<exists>j < Suc i'. (True # keep) ! j
                 \<and> sim_to ops thr (emb_of ops ge (cs ! i')) (emb_of ops ge ((c # cs) ! j)))
              = (sim_to ops thr (emb_of ops ge (cs ! i')) (np_divide_norm ops e)
                 \<or> (\<exists>j < i'. keep ! j \<and> sim_to ops thr (emb_of ops ge (cs ! i')) (emb_of ops ge (cs ! j))))"
          by (auto simp: less_Suc_eq_0_disj ec)
        with k[OF i'] Suc show ?thesis by auto
      qed
    qed
    with a e l f show ?thesis
      by (intro conjI) (auto intro!: exI[of _ "True # keep"] simp: kept_Cons)
  qed
qed

lemma emb_sim_too_similar:
  assumes "\<exists>e. ge (text_str (rc_chunk c)) = Inr e" "\<exists>e. ge (text_str (rc_chunk a)) = Inr e"
  shows "sim_to ops thr (emb_of ops ge c) (emb_of ops ge a)
           = spec_too_similar ops ge thr (text_str (rc_chunk c)) (text_str (rc_chunk a))"
  using assms by (auto simp: emb_of_def sim_to_spec)

lemma filter_duplicates_flags:
  assumes "RetrievalStrategy_filter_duplicates ops ge cfg chunks = Inr fs"
  shows "\<exists>keep. length keep = length chunks
           \<and> fs = kept chunks keep
           \<and> (\<forall>i < length chunks. keep ! i =
                 (\<not> (\<exists>j < i. keep ! j
                        \<and> spec_too_similar ops ge (duplicate_threshold cfg)
                             (text_str (rc_chunk (chunks ! i))) (text_str (rc_chunk (chunks ! j))))))"
proof (cases "chunks = []")
  case True
  with assms show ?thesis by (simp add: RetrievalStrategy_filter_duplicates_def kept_def)
next
  case False
  with assms have "filter_loop ops ge (duplicate_threshold cfg) chunks ([], []) = Inr fs"
    by (simp add: RetrievalStrategy_filter_duplicates_def)
  from filter_loop_flags[OF this] obtain keep where
    a: "\<forall>c \<in> set chunks. \<exists>e. ge (text_str (rc_chunk c)) = Inr e"
    and l: "length keep = length chunks" and f: "fs = kept chunks keep"
    and k: "\<And>i. i < length chunks \<Longrightarrow> keep ! i =
              (\<not> (\<exists>j < i. keep ! j \<and> sim_to ops (duplicate_threshold cfg)
                                       (emb_of ops ge (chunks ! i)) (emb_of ops ge (chunks ! j))))"
    by auto
  have "\<forall>i < length chunks. keep ! i =
                 (\<not> (\<exists>j < i. keep ! j
                        \<and> spec_too_similar ops ge (duplicate_threshold cfg)
                             (text_str (rc_chunk (chunks ! i))) (text_str (rc_chunk (chunks ! j)))))"
  proof (intro allI impI)
    fix i assume i: "i < length chunks"
    have "\<And>j. j < i \<Longrightarrow>
            sim_to ops (duplicate_threshold cfg) (emb_of ops ge (chunks ! i)) (emb_of ops ge (chunks ! j))
            = spec_too_similar ops ge (duplicate_threshold cfg)
                (text_str (rc_chunk (chunks ! i))) (text_str (rc_chunk (chunks ! j)))"
      using a i by (intro emb_sim_too_similar) (auto simp: all_set_conv_all_nth)
    with k[OF i] show "keep ! i =
                 (\<not> (\<exists>j < i. keep ! j
                        \<and> spec_too_similar ops ge (duplicate_threshold cfg)
                             (text_str (rc_chunk (chunks ! i))) (text_str (rc_chunk (chunks ! j)))))"
      by auto
  qed
  with l f show ?thesis by auto
qed

lemma length_divide_norm: "length (np_divide_norm ops e) = length e"
  by (simp add: np_divide_norm_def)

lemma is_duplicate_total:
  "\<forall>s \<in> set seen. length s = length e \<Longrightarrow> \<exists>d. is_duplicate ops thr e seen = Inr d"
  by (induction seen) (auto simp: np_dot_def)

lemma filter_loop_total:
  "\<forall>c \<in> set cs. \<exists>e. ge (text_str (rc_chunk c)) = Inr e \<and> length e = n \<Longrightarrow>
   \<forall>s \<in> set seen. length s = n \<Longrightarrow>
   \<exists>fs. filter_loop ops ge thr cs (filtered, seen) = Inr fs"
proof (induction cs arbitrary: filtered seen)
  case Nil
  then show ?case by simp
next
  case (Cons c cs)
  from Cons.prems(1) obtain e where e: "ge (text_str (rc_chunk c)) = Inr e" "length e = n"
    by auto
  have "\<forall>s \<in> set seen. length s = length (np_divide_norm ops e)"
    using Cons.prems(2) e(2) by (simp add: length_divide_norm)
  from is_duplicate_total[OF this] obtain d where
    d: "is_duplicate ops thr (np_divide_norm ops e) seen = Inr d" by blast
  have rest: "\<forall>c \<in> set cs. \<exists>e. ge (text_str (rc_chunk c)) = Inr e \<and> length e = n"
    using Cons.prems(1) by simp
  show ?case
  proof (cases d)
    case True
    from Cons.IH[OF rest Cons.prems(2), of filtered] show ?thesis using e d True
      by (simp add: Let_def)
  next
    case False
    have "\<forall>s \<in> set (seen @ [np_divide_norm ops e]). length s = n"
      using Cons.prems(2) e(2) by (simp add: length_divide_norm)
    from Cons.IH[OF rest this, of "filtered @ [c]"] show ?thesis using e d False
      by (simp add: Let_def)
  qed
qed

lemma filter_duplicates_total:
  assumes "\<forall>c \<in> set chunks. \<exists>e. ge (text_str (rc_chunk c)) = Inr e \<and> length e = n"
  shows "\<exists>fs. RetrievalStrategy_filter_duplicates ops ge cfg chunks = Inr fs"
  using filter_loop_total[OF assms, of "[]" ops "duplicate_threshold cfg" "[]"]
  by (simp add: RetrievalStrategy_filter_duplicates_def)

lemma py_take_singleton: "0 < k \<Longrightarrow> py_take k [x] = [x]"
  by (simp add: py_take_def py_slice_def py_index_def)

lemma rerank_singleton:
  "rerank_results_chunks [c] = Inr [c\<lparr>rank := Suc 0\<rparr>]"
  by (cases "is_nan (similarity c)") (simp_all add: rerank_results_chunks_def)

lemma retrieve_two_near_duplicates:
  assumes q: "get_embeddings [query] = Inr (qe # qes)"
    and s: "search qe (top_k cfg * 2) (min_similarity cfg) filters = Inr [r1, r2]"
    and e1: "ge (text_str (chunk r1)) = Inr e1"
    and e2: "ge (text_str (chunk r2)) = Inr e2"
    and l: "length e1 = length e2"
    and d: "spec_exceeds (np_dot_1d ops (spec_normalized ops e2) (spec_normalized ops e1))
              (duplicate_threshold cfg)"
    and f: "filter_duplicates cfg"
    and v: "RetrievalConfig_post_init cfg = Inr cfg"
  shows "retrieve ops get_embeddings search ge cfg query filters
           = Inr [\<lparr>rc_chunk = chunk r1, similarity = score r1, rank = 1\<rparr>]"
proof -
  from v have k: "0 < top_k cfg"
    by (simp add: RetrievalConfig_post_init_def split: if_splits)
  have fl: "RetrievalStrategy_filter_duplicates ops ge cfg (to_retrieved 0 [r1, r2])
          = Inr [\<lparr>rc_chunk = chunk r1, similarity = score r1, rank = 1\<rparr>]"
    using e1 e2 d l
    by (simp add: RetrievalStrategy_filter_duplicates_def Let_def np_dot_def
          length_divide_norm f64_gt_exceeds np_divide_norm_def spec_normalized_def)
  show ?thesis
    using q s f fl k
    by (simp add: retrieve_def first_item_def rerank_singleton py_take_singleton)
qed

lemma map_py_take: "map f (py_take k xs) = py_take k (map f xs)"
  by (simp add: py_take_eq_take take_map)

lemma assign_ranks_fields:
  "map (\<lambda>c. (rc_chunk c, similarity c)) (assign_ranks i cs) = map (\<lambda>c. (rc_chunk c, similarity c)) cs"
  by (induction cs arbitrary: i) simp_all

lemma assign_ranks_similarity:
  "map similarity (assign_ranks i cs) = map similarity cs"
  by (induction cs arbitrary: i) simp_all

lemma assign_ranks_length: "length (assign_ranks i cs) = length cs"
  by (induction cs arbitrary: i) simp_all

lemma assign_ranks_rank: "map rank (assign_ranks i cs) = [Suc i ..< Suc i + length cs]"
  by (induction cs arbitrary: i) (simp_all add: upt_rec)

lemma to_retrieved_fields:
  "map (\<lambda>c. (rc_chunk c, similarity c)) (to_retrieved i rs) = map (\<lambda>x. (chunk x, score x)) rs"
  by (induction rs arbitrary: i) simp_all

lemma to_retrieved_length: "length (to_retrieved i rs) = length rs"
  by (induction rs arbitrary: i) simp_all

lemma to_retrieved_nth:
  "j < length rs \<Longrightarrow> rc_chunk (to_retrieved i rs ! j) = chunk (rs ! j)
      \<and> similarity (to_retrieved i rs ! j) = score (rs ! j)"
proof (induction rs arbitrary: i j)
  case Nil
  then show ?case by simp
next
  case (Cons r rs)
  then show ?case by (cases j) simp_all
qed

lemma map_kept: "map f (kept xs keep) = kept (map f xs) keep"
proof (induction xs arbitrary: keep)
  case Nil
  then show ?case by (simp add: kept_def)
next
  case (Cons x xs)
  then show ?case by (cases keep) (simp_all add: kept_Cons, simp add: kept_def)
qed

lemma set_kept: "set (kept xs keep) \<subseteq> set xs"
  by (auto simp: kept_def dest: set_zip_leftD)

lemma sorted_wrt_kept: "sorted_wrt P xs \<Longrightarrow> sorted_wrt P (kept xs keep)"
proof (induction xs arbitrary: keep)
  case Nil
  then show ?case by (simp add: kept_def)
next
  case (Cons x xs)
  show ?case
  proof (cases keep)
    case Nil
    then show ?thesis by (simp add: kept_def)
  next
    case (Cons b bs)
    with Cons.prems Cons.IH[of bs] set_kept[of xs bs] show ?thesis
      by (auto simp: kept_Cons)
  qed
qed

lemma f64_key_neg_mono:
  "\<not> is_nan a \<Longrightarrow> \<not> is_nan b \<Longrightarrow> \<not> f64_lt a b \<Longrightarrow> f64_key (f64_neg a) \<le> f64_key (f64_neg b)"
  by (cases a; cases b) simp_all

lemma sorted_desc_keys:
  assumes "\<forall>x \<in> set xs. \<not> is_nan x" "sorted_wrt (\<lambda>a b. \<not> f64_lt a b) xs"
  shows "sorted (map (\<lambda>x. f64_key (f64_neg x)) xs)"
  using assms
proof (induction xs)
  case Nil
  then show ?case by simp
next
  case (Cons x xs)
  then show ?case by (auto intro: f64_key_neg_mono)
qed

lemma rerank_sorted:
  assumes "\<forall>c \<in> set cs. \<not> is_nan (similarity c)"
      and "sorted_wrt (\<lambda>a b. \<not> f64_lt a b) (map similarity cs)"
  shows "rerank_results_chunks cs = Inr (assign_ranks 0 cs)"
proof -
  from assms have "sorted (map (\<lambda>x. f64_key (f64_neg x)) (map similarity cs))"
    by (intro sorted_desc_keys) auto
  then have "sorted (map (\<lambda>c. f64_key (f64_neg (similarity c))) cs)"
    by (simp add: comp_def)
  then have "sort_key (\<lambda>c. f64_key (f64_neg (similarity c))) cs = cs"
    by (rule sort_key_id_if_sorted)
  with assms(1) show ?thesis by (simp add: rerank_results_chunks_def list_all_iff)
qed

lemma retrieve_filtered:
  assumes q: "get_embeddings [query] = Inr (qe # qes)"
    and s: "search qe (top_k cfg * 2) (min_similarity cfg) filters = Inr results"
    and f: "filter_duplicates cfg"
    and r: "retrieve ops get_embeddings search ge cfg query filters = Inr out"
    and o: "\<not> rerank_results cfg
            \<or> ((\<forall>x \<in> set results. \<not> is_nan (score x))
                \<and> sorted_wrt (\<lambda>a b. \<not> f64_lt a b) (map score results))"
  shows "\<exists>keep. length keep = length results
      \<and> (\<forall>i < length results. keep ! i =
            (\<not> (\<exists>j < i. keep ! j
                   \<and> spec_too_similar ops ge (duplicate_threshold cfg)
                        (text_str (chunk (results ! i))) (text_str (chunk (results ! j))))))
      \<and> map (\<lambda>c. (rc_chunk c, similarity c)) out
          = py_take (top_k cfg) (map (\<lambda>x. (chunk x, score x)) (kept results keep))
      \<and> map rank out = [1 ..< Suc (length out)]"
proof -
  let ?cs = "to_retrieved 0 results"
  obtain fs where fl: "RetrievalStrategy_filter_duplicates ops ge cfg ?cs = Inr fs"
  proof (cases "RetrievalStrategy_filter_duplicates ops ge cfg ?cs")
    case (Inl e)
    with r q s f show ?thesis by (simp add: retrieve_def first_item_def)
  next
    case (Inr fs)
    then show ?thesis using that by blast
  qed
  define rr where "rr = (if rerank_results cfg
              then (case rerank_results_chunks (assign_ranks 0 fs) of
                      Inl err \<Rightarrow> Inl err | Inr cs \<Rightarrow> Inr (assign_ranks 0 cs))
              else Inr (assign_ranks 0 fs))"
  have r': "(case rr of Inl err \<Rightarrow> Inl err | Inr ranked \<Rightarrow> Inr (py_take (top_k cfg) ranked))
              = Inr out"
    using r q s f fl by (simp add: retrieve_def first_item_def rr_def)
  obtain ranked where rk0: "rr = Inr ranked"
  proof (cases rr)
    case (Inl e)
    with r' show ?thesis by simp
  next
    case (Inr x)
    then show ?thesis using that by blast
  qed
  from r' rk0 have out: "out = py_take (top_k cfg) ranked" by simp
  note rk = rk0[unfolded rr_def]
  from filter_duplicates_flags[OF fl] obtain keep where
    l: "length keep = length ?cs" and fs: "fs = kept ?cs keep"
    and k: "\<forall>i < length ?cs. keep ! i =
                 (\<not> (\<exists>j < i. keep ! j
                        \<and> spec_too_similar ops ge (duplicate_threshold cfg)
                             (text_str (rc_chunk (?cs ! i))) (text_str (rc_chunk (?cs ! j)))))"
    by blast
  have l': "length keep = length results" using l by (simp add: to_retrieved_length)
  have k': "\<forall>i < length results. keep ! i =
            (\<not> (\<exists>j < i. keep ! j
                   \<and> spec_too_similar ops ge (duplicate_threshold cfg)
                        (text_str (chunk (results ! i))) (text_str (chunk (results ! j)))))"
  proof (intro allI impI)
    fix i assume i: "i < length results"
    then have "keep ! i =
                 (\<not> (\<exists>j < i. keep ! j
                        \<and> spec_too_similar ops ge (duplicate_threshold cfg)
                             (text_str (rc_chunk (?cs ! i))) (text_str (rc_chunk (?cs ! j)))))"
      using k by (simp add: to_retrieved_length)
    moreover have "\<And>j. j < i \<Longrightarrow> rc_chunk (?cs ! j) = chunk (results ! j)"
      using i to_retrieved_nth[of _ results 0] by simp
    moreover have "rc_chunk (?cs ! i) = chunk (results ! i)"
      using i to_retrieved_nth[of i results 0] by simp
    ultimately show "keep ! i =
            (\<not> (\<exists>j < i. keep ! j
                   \<and> spec_too_similar ops ge (duplicate_threshold cfg)
                        (text_str (chunk (results ! i))) (text_str (chunk (results ! j)))))"
      by auto
  qed
  have fields_fs: "map (\<lambda>c. (rc_chunk c, similarity c)) fs
                     = map (\<lambda>x. (chunk x, score x)) (kept results keep)"
    by (simp add: fs map_kept to_retrieved_fields)
  have ranked: "\<exists>X. ranked = assign_ranks 0 X
                  \<and> map (\<lambda>c. (rc_chunk c, similarity c)) X = map (\<lambda>c. (rc_chunk c, similarity c)) fs"
  proof (cases "rerank_results cfg")
    case False
    with rk have "ranked = assign_ranks 0 fs" by simp
    then show ?thesis by blast
  next
    case True
    with o have nn: "\<forall>x \<in> set results. \<not> is_nan (score x)"
      and so: "sorted_wrt (\<lambda>a b. \<not> f64_lt a b) (map score results)" by auto
    have sim_fs: "map similarity fs = kept (map score results) keep"
    proof -
      have "map similarity fs = map snd (map (\<lambda>c. (rc_chunk c, similarity c)) fs)"
        by (simp add: comp_def)
      also have "\<dots> = map snd (map (\<lambda>x. (chunk x, score x)) (kept results keep))"
        by (simp only: fields_fs)
      also have "\<dots> = kept (map score results) keep"
        by (simp add: comp_def map_kept[symmetric])
      finally show ?thesis .
    qed
    have a: "\<forall>c \<in> set (assign_ranks 0 fs). \<not> is_nan (similarity c)"
    proof
      fix c assume "c \<in> set (assign_ranks 0 fs)"
      then have "similarity c \<in> set (map similarity (assign_ranks 0 fs))" by simp
      then have "similarity c \<in> set (kept (map score results) keep)"
        by (simp only: assign_ranks_similarity sim_fs)
      with set_kept[of "map score results" keep] have "similarity c \<in> set (map score results)"
        by blast
      with nn show "\<not> is_nan (similarity c)" by auto
    qed
    have b: "sorted_wrt (\<lambda>a b. \<not> f64_lt a b) (map similarity (assign_ranks 0 fs))"
      by (simp only: assign_ranks_similarity sim_fs sorted_wrt_kept[OF so])
    from rerank_sorted[OF a b] True rk
    have "ranked = assign_ranks 0 (assign_ranks 0 (assign_ranks 0 fs))" by simp
    then show ?thesis by (auto simp: assign_ranks_fields)
  qed
  then obtain X where X: "ranked = assign_ranks 0 X"
    and XF: "map (\<lambda>c. (rc_chunk c, similarity c)) X = map (\<lambda>c. (rc_chunk c, similarity c)) fs"
    by blast
  have c: "map (\<lambda>c. (rc_chunk c, similarity c)) out
          = py_take (top_k cfg) (map (\<lambda>x. (chunk x, score x)) (kept results keep))"
    by (simp add: out map_py_take X assign_ranks_fields XF fields_fs)
  have d: "map rank out = [1 ..< Suc (length out)]"
    by (simp add: out X py_take_eq_take take_map[symmetric] assign_ranks_rank assign_ranks_length
          take_upt min_def)
  from l' k' c d show ?thesis by blast
qed

lemma f64_ge_not_nan: "f64_ge a b \<Longrightarrow> \<not> is_nan a"
  by (cases a; cases b) (simp_all add: f64_ge_def)

lemma retrieve_filtered_store:
  assumes q: "get_embeddings [query] = Inr (qe # qes)"
    and s: "similarity_search ops h vs qe (top_k cfg * 2) (min_similarity cfg) filters = Inr results"
    and f: "filter_duplicates cfg"
    and r: "retrieve ops get_embeddings (similarity_search ops h vs) ge cfg query filters = Inr out"
  shows "\<exists>keep. length keep = length results
      \<and> (\<forall>i < length results. keep ! i =
            (\<not> (\<exists>j < i. keep ! j
                   \<and> spec_too_similar ops ge (duplicate_threshold cfg)
                        (text_str (chunk (results ! i))) (text_str (chunk (results ! j))))))
      \<and> map (\<lambda>c. (rc_chunk c, similarity c)) out
          = py_take (top_k cfg) (map (\<lambda>x. (chunk x, score x)) (kept results keep))
      \<and> map rank out = [1 ..< Suc (length out)]"
proof -
  from similarity_search_scores[OF s] have
    a: "\<forall>x \<in> set results. \<not> is_nan (score x)"
    and b: "sorted_wrt (\<lambda>a b. \<not> f64_lt (score a) (score b)) results"
    by (auto dest: f64_ge_not_nan)
  from b have "sorted_wrt (\<lambda>a b. \<not> f64_lt a b) (map score results)"
    by (simp add: sorted_wrt_map)
  with a have o: "\<not> rerank_results cfg
            \<or> ((\<forall>x \<in> set results. \<not> is_nan (score x))
                \<and> sorted_wrt (\<lambda>a b. \<not> f64_lt a b) (map score results))"
    by blast
  from retrieve_filtered[OF q s f r o] show ?thesis .
qed

lemma ex_ops:
  "np_linalg_norm exact_arithmetic = exact_norm"
  "np_true_divide exact_arithmetic = exact_divide"
  "np_subtract exact_arithmetic = exact_subtract"
  "np_dot_1d exact_arithmetic = exact_dot"
  "np_dot_2d exact_arithmetic = (\<lambda>m q. map (\<lambda>row. exact_dot row q) m)"
  by (simp_all add: exact_arithmetic_def)

lemma ex_search3:
  "similarity_search exact_arithmetic empty_heap example_store [Fin (1 / 2), Fin 0]
        10 0 None
       = Inr [first_result, second_result,
              third_result]"
  by (simp add: similarity_search_def example_store_def example_RetrievalConfig_def
          first_result_def second_result_def third_result_def ex_ops exact_dot_def inner_product_def f64_ge_def
          np_matvec_def truthy_def py_take_def py_slice_def py_index_def item_at_def
          upt_rec)

lemma ex_search2:
  "similarity_search exact_arithmetic empty_heap example_store_of_two [Fin (1 / 2), Fin 0]
        10 0 None
       = Inr [first_result, second_result]"
  by (simp add: similarity_search_def example_store_of_two_def example_RetrievalConfig_def
          first_result_def second_result_def third_result_def ex_ops exact_dot_def inner_product_def f64_ge_def
          np_matvec_def truthy_def py_take_def py_slice_def py_index_def item_at_def
          upt_rec)

lemma ex_ge:
  "MemoryVectorStore_get_embedding example_provider t = Inr (example_embedding t)"
  by (simp add: MemoryVectorStore_get_embedding_def example_provider_def first_item_def)

lemma ex_norm:
  "np_divide_norm exact_arithmetic [Fin (1 / 2), Fin 0] = [Fin 1, Fin 0]"
  "np_divide_norm exact_arithmetic [Fin (1 / 4), Fin 0] = [Fin 1, Fin 0]"
  "np_divide_norm exact_arithmetic [Fin 0, Fin 4] = [Fin 0, Fin 1]"
  by (simp_all add: np_divide_norm_def ex_ops exact_norm_def l2norm_def
        real_sqrt_divide)

lemma ex_filter:
  "RetrievalStrategy_filter_duplicates exact_arithmetic
       (MemoryVectorStore_get_embedding example_provider) example_RetrievalConfig
       (to_retrieved 0 [first_result, second_result,
              third_result])
     = Inr [\<lparr>rc_chunk = chunk (first_result), similarity = Fin (1 / 4), rank = 1\<rparr>,
            \<lparr>rc_chunk = chunk (third_result), similarity = Fin 0, rank = 3\<rparr>]"
  by (simp add: RetrievalStrategy_filter_duplicates_def ex_ge example_embedding_def ex_norm
        first_result_def second_result_def third_result_def Let_def np_dot_def example_RetrievalConfig_def f64_gt_def
        ex_ops exact_dot_def inner_product_def)

lemma ex_cfg:
  "filter_duplicates example_RetrievalConfig" "rerank_results example_RetrievalConfig"
  "top_k example_RetrievalConfig = 5" "min_similarity example_RetrievalConfig = 0"
  "duplicate_threshold example_RetrievalConfig = 95 / 100"
  by (simp_all add: example_RetrievalConfig_def)

lemma ex_query: "example_provider [''first''] = Inr ([Fin (1 / 2), Fin 0] # [])"
  by (simp add: example_provider_def example_embedding_def)

lemma ex_retrieve3:
  "retrieve exact_arithmetic example_provider
      (similarity_search exact_arithmetic empty_heap example_store)
      (MemoryVectorStore_get_embedding example_provider) example_RetrievalConfig ''first'' None
    = Inr [\<lparr>rc_chunk = chunk (first_result), similarity = Fin (1 / 4), rank = 1\<rparr>,
            \<lparr>rc_chunk = chunk (third_result), similarity = Fin 0, rank = 2\<rparr>]"
  unfolding retrieve_def
  by (simp add: ex_query first_item_def ex_cfg ex_search3 ex_filter
        rerank_results_chunks_def py_take_def py_slice_def py_index_def
        del: to_retrieved.simps)

lemma ex_retrieve2:
  "retrieve exact_arithmetic example_provider
      (similarity_search exact_arithmetic empty_heap example_store_of_two)
      (MemoryVectorStore_get_embedding example_provider) example_RetrievalConfig ''first'' None
    = Inr [\<lparr>rc_chunk = chunk (first_result), similarity = Fin (1 / 4), rank = 1\<rparr>]"
  unfolding retrieve_def
  by (simp add: ex_query first_item_def ex_cfg ex_search2
        RetrievalStrategy_filter_duplicates_def ex_ge example_embedding_def ex_norm
        first_result_def second_result_def third_result_def Let_def np_dot_def  f64_gt_def ex_ops exact_dot_def inner_product_def
        rerank_results_chunks_def py_take_def py_slice_def py_index_def)

text \<open>
  C5 (greedy duplicate suppression). The cosine similarity of two candidates is the
  float64 value that the code computes with numpy: \<open>np.dot\<close> of their embeddings, each
  divided by its \<open>np.linalg.norm\<close>. When \<open>_filter_duplicates\<close> returns, its result is
  the list of the candidates flagged \<open>keep\<close>, in their original order, where candidate
  \<open>i\<close> is kept exactly when no kept candidate \<open>j < i\<close> has a similarity to \<open>i\<close> that
  strictly exceeds \<open>duplicate_threshold\<close>. It does return when every candidate has an
  embedding of one common length. In the pipeline: when the filter is enabled and
  \<open>retrieve\<close> returns, and \<open>rerank_results\<close> is off or the index returned its results by
  descending score (none of them NaN), the chunks and similarities returned are those of the
  kept candidates, in their original order and cut after \<open>top_k\<close>, with the ranks
  \<open>1, 2, ...\<close>; with \<open>MemoryVectorStore\<close> as the index this holds whatever
  \<open>rerank_results\<close> is, because its results come by descending score. And of two
  candidates returned by the index whose similarity strictly exceeds the threshold, as
  \<open>0.99\<close> exceeds \<open>0.95\<close>, \<open>retrieve\<close> returns the first alone, with rank 1.
\<close>

theorem C5_greedy_duplicate_suppression:
  "(RetrievalStrategy_filter_duplicates ops ge cfg chunks = Inr fs \<longrightarrow>
      (\<exists>keep. length keep = length chunks
           \<and> fs = kept chunks keep
           \<and> (\<forall>i < length chunks. keep ! i =
                 (\<not> (\<exists>j < i. keep ! j
                        \<and> spec_too_similar ops ge (duplicate_threshold cfg)
                             (text_str (rc_chunk (chunks ! i)))
                             (text_str (rc_chunk (chunks ! j))))))))
   \<and> ((\<forall>c \<in> set chunks. \<exists>e. ge (text_str (rc_chunk c)) = Inr e \<and> length e = n) \<longrightarrow>
        (\<exists>fs'. RetrievalStrategy_filter_duplicates ops ge cfg chunks = Inr fs'))
   \<and> (get_embeddings [query] = Inr (qe # qes)
        \<and> search qe (top_k cfg * 2) (min_similarity cfg) filters = Inr results
        \<and> filter_duplicates cfg
        \<and> retrieve ops get_embeddings search ge cfg query filters = Inr out
        \<and> (\<not> rerank_results cfg
            \<or> ((\<forall>x \<in> set results. \<not> is_nan (score x))
                \<and> sorted_wrt (\<lambda>a b. \<not> f64_lt a b) (map score results)))
      \<longrightarrow> (\<exists>keep. length keep = length results
            \<and> (\<forall>i < length results. keep ! i =
                  (\<not> (\<exists>j < i. keep ! j
                         \<and> spec_too_similar ops ge (duplicate_threshold cfg)
                              (text_str (chunk (results ! i))) (text_str (chunk (results ! j))))))
            \<and> map (\<lambda>c. (rc_chunk c, similarity c)) out
                = py_take (top_k cfg) (map (\<lambda>x. (chunk x, score x)) (kept results keep))
            \<and> map rank out = [1 ..< Suc (length out)]))
   \<and> (get_embeddings [query] = Inr (qe # qes)
        \<and> similarity_search ops h vs qe (top_k cfg * 2) (min_similarity cfg) vfilters = Inr vresults
        \<and> filter_duplicates cfg
        \<and> retrieve ops get_embeddings (similarity_search ops h vs) ge cfg query vfilters = Inr vout
      \<longrightarrow> (\<exists>keep. length keep = length vresults
            \<and> (\<forall>i < length vresults. keep ! i =
                  (\<not> (\<exists>j < i. keep ! j
                         \<and> spec_too_similar ops ge (duplicate_threshold cfg)
                              (text_str (chunk (vresults ! i))) (text_str (chunk (vresults ! j))))))
            \<and> map (\<lambda>c. (rc_chunk c, similarity c)) vout
                = py_take (top_k cfg) (map (\<lambda>x. (chunk x, score x)) (kept vresults keep))
            \<and> map rank vout = [1 ..< Suc (length vout)]))
   \<and> (get_embeddings [query] = Inr (qe # qes)
        \<and> search_two qe (top_k cfg * 2) (min_similarity cfg) filters = Inr [ra, rb]
        \<and> ge (text_str (chunk ra)) = Inr ea
        \<and> ge (text_str (chunk rb)) = Inr eb
        \<and> length ea = length eb
        \<and> spec_exceeds (np_dot_1d ops (spec_normalized ops eb) (spec_normalized ops ea))
             (duplicate_threshold cfg)
        \<and> filter_duplicates cfg
        \<and> RetrievalConfig_post_init cfg = Inr cfg
      \<longrightarrow> retrieve ops get_embeddings search_two ge cfg query filters
            = Inr [\<lparr>rc_chunk = chunk ra, similarity = score ra, rank = 1\<rparr>])
   \<and> spec_exceeds (Fin (99 / 100)) (95 / 100)"
proof -
  have a: "RetrievalStrategy_filter_duplicates ops ge cfg chunks = Inr fs \<longrightarrow>
      (\<exists>keep. length keep = length chunks
           \<and> fs = kept chunks keep
           \<and> (\<forall>i < length chunks. keep ! i =
                 (\<not> (\<exists>j < i. keep ! j
                        \<and> spec_too_similar ops ge (duplicate_threshold cfg)
                             (text_str (rc_chunk (chunks ! i)))
                             (text_str (rc_chunk (chunks ! j)))))))"
    using filter_duplicates_flags[of ops ge cfg chunks fs] by blast
  have b: "(\<forall>c \<in> set chunks. \<exists>e. ge (text_str (rc_chunk c)) = Inr e \<and> length e = n) \<longrightarrow>
        (\<exists>fs'. RetrievalStrategy_filter_duplicates ops ge cfg chunks = Inr fs')"
    using filter_duplicates_total[of chunks ge n ops cfg] by blast
  have c: "get_embeddings [query] = Inr (qe # qes)
        \<and> search qe (top_k cfg * 2) (min_similarity cfg) filters = Inr results
        \<and> filter_duplicates cfg
        \<and> retrieve ops get_embeddings search ge cfg query filters = Inr out
        \<and> (\<not> rerank_results cfg
            \<or> ((\<forall>x \<in> set results. \<not> is_nan (score x))
                \<and> sorted_wrt (\<lambda>a b. \<not> f64_lt a b) (map score results)))
      \<longrightarrow> (\<exists>keep. length keep = length results
            \<and> (\<forall>i < length results. keep ! i =
                  (\<not> (\<exists>j < i. keep ! j
                         \<and> spec_too_similar ops ge (duplicate_threshold cfg)
                              (text_str (chunk (results ! i))) (text_str (chunk (results ! j))))))
            \<and> map (\<lambda>c. (rc_chunk c, similarity c)) out
                = py_take (top_k cfg) (map (\<lambda>x. (chunk x, score x)) (kept results keep))
            \<and> map rank out = [1 ..< Suc (length out)])"
  proof
    assume h: "get_embeddings [query] = Inr (qe # qes)
        \<and> search qe (top_k cfg * 2) (min_similarity cfg) filters = Inr results
        \<and> filter_duplicates cfg
        \<and> retrieve ops get_embeddings search ge cfg query filters = Inr out
        \<and> (\<not> rerank_results cfg
            \<or> ((\<forall>x \<in> set results. \<not> is_nan (score x))
                \<and> sorted_wrt (\<lambda>a b. \<not> f64_lt a b) (map score results)))"
    show "\<exists>keep. length keep = length results
            \<and> (\<forall>i < length results. keep ! i =
                  (\<not> (\<exists>j < i. keep ! j
                         \<and> spec_too_similar ops ge (duplicate_threshold cfg)
                              (text_str (chunk (results ! i))) (text_str (chunk (results ! j))))))
            \<and> map (\<lambda>c. (rc_chunk c, similarity c)) out
                = py_take (top_k cfg) (map (\<lambda>x. (chunk x, score x)) (kept results keep))
            \<and> map rank out = [1 ..< Suc (length out)]"
      by (rule retrieve_filtered[of get_embeddings query qe qes search cfg filters results ops ge out])
         (use h in blast)+
  qed
  have c2: "get_embeddings [query] = Inr (qe # qes)
        \<and> similarity_search ops h vs qe (top_k cfg * 2) (min_similarity cfg) vfilters = Inr vresults
        \<and> filter_duplicates cfg
        \<and> retrieve ops get_embeddings (similarity_search ops h vs) ge cfg query vfilters = Inr vout
      \<longrightarrow> (\<exists>keep. length keep = length vresults
            \<and> (\<forall>i < length vresults. keep ! i =
                  (\<not> (\<exists>j < i. keep ! j
                         \<and> spec_too_similar ops ge (duplicate_threshold cfg)
                              (text_str (chunk (vresults ! i))) (text_str (chunk (vresults ! j))))))
            \<and> map (\<lambda>c. (rc_chunk c, similarity c)) vout
                = py_take (top_k cfg) (map (\<lambda>x. (chunk x, score x)) (kept vresults keep))
            \<and> map rank vout = [1 ..< Suc (length vout)])"
    using retrieve_filtered_store[of get_embeddings query qe qes ops h vs cfg vfilters vresults ge vout]
    by blast
  have d: "get_embeddings [query] = Inr (qe # qes)
        \<and> search_two qe (top_k cfg * 2) (min_similarity cfg) filters = Inr [ra, rb]
        \<and> ge (text_str (chunk ra)) = Inr ea
        \<and> ge (text_str (chunk rb)) = Inr eb
        \<and> length ea = length eb
        \<and> spec_exceeds (np_dot_1d ops (spec_normalized ops eb) (spec_normalized ops ea))
             (duplicate_threshold cfg)
        \<and> filter_duplicates cfg
        \<and> RetrievalConfig_post_init cfg = Inr cfg
      \<longrightarrow> retrieve ops get_embeddings search_two ge cfg query filters
            = Inr [\<lparr>rc_chunk = chunk ra, similarity = score ra, rank = 1\<rparr>]"
    using retrieve_two_near_duplicates[of get_embeddings query qe qes search_two cfg filters ra rb
            ge ea eb ops]
    by blast
  have e: "spec_exceeds (Fin (99 / 100)) (95 / 100)" by (simp add: spec_exceeds_def)
  from a b c c2 d e show ?thesis by (intro conjI)
qed


theorem C5_greedy_duplicate_suppression_witness:
  "RetrievalStrategy_filter_duplicates exact_arithmetic
       (MemoryVectorStore_get_embedding example_provider) example_RetrievalConfig
       (to_retrieved 0 [first_result, second_result, third_result])
     = Inr [\<lparr>rc_chunk = chunk first_result, similarity = Fin (1 / 4), rank = 1\<rparr>,
            \<lparr>rc_chunk = chunk third_result, similarity = Fin 0, rank = 3\<rparr>]
   \<and> (\<exists>keep. length keep = length (to_retrieved 0 [first_result, second_result, third_result])
         \<and> [\<lparr>rc_chunk = chunk first_result, similarity = Fin (1 / 4), rank = 1\<rparr>,
             \<lparr>rc_chunk = chunk third_result, similarity = Fin 0, rank = 3\<rparr>]
            = kept (to_retrieved 0 [first_result, second_result, third_result]) keep
         \<and> (\<forall>i < length (to_retrieved 0 [first_result, second_result, third_result]). keep ! i =
               (\<not> (\<exists>j < i. keep ! j
                      \<and> spec_too_similar exact_arithmetic
                           (MemoryVectorStore_get_embedding example_provider)
                           (duplicate_threshold example_RetrievalConfig)
                           (text_str (rc_chunk
                              (to_retrieved 0 [first_result, second_result, third_result] ! i)))
                           (text_str (rc_chunk
                              (to_retrieved 0 [first_result, second_result, third_result] ! j)))))))
   \<and> spec_too_similar exact_arithmetic (MemoryVectorStore_get_embedding example_provider)
        (duplicate_threshold example_RetrievalConfig) ''second'' ''first''
   \<and> \<not> spec_too_similar exact_arithmetic (MemoryVectorStore_get_embedding example_provider)
        (duplicate_threshold example_RetrievalConfig) ''third'' ''first''
   \<and> exact_dot [Fin (1 / 4), Fin 0] [Fin (1 / 2), Fin 0] = Fin (1 / 8)
   \<and> (\<exists>fs'. RetrievalStrategy_filter_duplicates exact_arithmetic
          (MemoryVectorStore_get_embedding example_provider) example_RetrievalConfig
          (to_retrieved 0 [first_result, second_result, third_result]) = Inr fs')
   \<and> example_provider [''first''] = Inr ([Fin (1 / 2), Fin 0] # [])
   \<and> similarity_search exact_arithmetic empty_heap example_store [Fin (1 / 2), Fin 0]
        (top_k example_RetrievalConfig * 2) (min_similarity example_RetrievalConfig) None
       = Inr [first_result, second_result, third_result]
   \<and> retrieve exact_arithmetic example_provider
        (similarity_search exact_arithmetic empty_heap example_store)
        (MemoryVectorStore_get_embedding example_provider) example_RetrievalConfig ''first'' None
       = Inr [\<lparr>rc_chunk = chunk first_result, similarity = Fin (1 / 4), rank = 1\<rparr>,
              \<lparr>rc_chunk = chunk third_result, similarity = Fin 0, rank = 2\<rparr>]
   \<and> (\<exists>keep. length keep = length [first_result, second_result, third_result]
         \<and> (\<forall>i < length [first_result, second_result, third_result]. keep ! i =
               (\<not> (\<exists>j < i. keep ! j
                      \<and> spec_too_similar exact_arithmetic
                           (MemoryVectorStore_get_embedding example_provider)
                           (duplicate_threshold example_RetrievalConfig)
                           (text_str (chunk ([first_result, second_result, third_result] ! i)))
                           (text_str (chunk ([first_result, second_result, third_result] ! j))))))
         \<and> map (\<lambda>c. (rc_chunk c, similarity c))
              [\<lparr>rc_chunk = chunk first_result, similarity = Fin (1 / 4), rank = 1\<rparr>,
               \<lparr>rc_chunk = chunk third_result, similarity = Fin 0, rank = 2\<rparr>]
            = py_take (top_k example_RetrievalConfig)
                (map (\<lambda>x. (chunk x, score x)) (kept [first_result, second_result, third_result] keep))
         \<and> map rank [\<lparr>rc_chunk = chunk first_result, similarity = Fin (1 / 4), rank = 1\<rparr>,
                      \<lparr>rc_chunk = chunk third_result, similarity = Fin 0, rank = 2\<rparr>]
            = [1 ..< Suc (length
                 [\<lparr>rc_chunk = chunk first_result, similarity = Fin (1 / 4), rank = 1\<rparr>,
                  \<lparr>rc_chunk = chunk third_result, similarity = Fin 0, rank = 2 :: nat\<rparr>])])
   \<and> (\<exists>keep. length keep = length [first_result, second_result, third_result]
         \<and> (\<forall>i < length [first_result, second_result, third_result]. keep ! i =
               (\<not> (\<exists>j < i. keep ! j
                      \<and> spec_too_similar exact_arithmetic
                           (MemoryVectorStore_get_embedding example_provider)
                           (duplicate_threshold example_RetrievalConfig)
                           (text_str (chunk ([first_result, second_result, third_result] ! i)))
                           (text_str (chunk ([first_result, second_result, third_result] ! j))))))
         \<and> map (\<lambda>c. (rc_chunk c, similarity c))
              [\<lparr>rc_chunk = chunk first_result, similarity = Fin (1 / 4), rank = 1\<rparr>,
               \<lparr>rc_chunk = chunk third_result, similarity = Fin 0, rank = 2\<rparr>]
            = py_take (top_k example_RetrievalConfig)
                (map (\<lambda>x. (chunk x, score x)) (kept [first_result, second_result, third_result] keep))
         \<and> map rank [\<lparr>rc_chunk = chunk first_result, similarity = Fin (1 / 4), rank = 1\<rparr>,
                      \<lparr>rc_chunk = chunk third_result, similarity = Fin 0, rank = 2\<rparr>]
            = [1 ..< Suc (length
                 [\<lparr>rc_chunk = chunk first_result, similarity = Fin (1 / 4), rank = 1\<rparr>,
                  \<lparr>rc_chunk = chunk third_result, similarity = Fin 0, rank = 2 :: nat\<rparr>])])
   \<and> kept [first_result, second_result, third_result] [True, False, True]
       = [first_result, third_result]
   \<and> similarity_search exact_arithmetic empty_heap example_store_of_two [Fin (1 / 2), Fin 0]
        (top_k example_RetrievalConfig * 2) (min_similarity example_RetrievalConfig) None
       = Inr [first_result, second_result]
   \<and> spec_exceeds
        (np_dot_1d exact_arithmetic (spec_normalized exact_arithmetic [Fin (1 / 4), Fin 0])
           (spec_normalized exact_arithmetic [Fin (1 / 2), Fin 0]))
        (duplicate_threshold example_RetrievalConfig)
   \<and> RetrievalConfig_post_init example_RetrievalConfig = Inr example_RetrievalConfig
   \<and> retrieve exact_arithmetic example_provider
        (similarity_search exact_arithmetic empty_heap example_store_of_two)
        (MemoryVectorStore_get_embedding example_provider) example_RetrievalConfig ''first'' None
       = Inr [\<lparr>rc_chunk = chunk first_result, similarity = score first_result, rank = 1\<rparr>]"
proof -
  let ?ge = "MemoryVectorStore_get_embedding example_provider"
  let ?cfg = example_RetrievalConfig
  let ?rs = "[first_result, second_result, third_result]"
  let ?fs = "[\<lparr>rc_chunk = chunk first_result, similarity = Fin (1 / 4), rank = 1\<rparr>,
              \<lparr>rc_chunk = chunk third_result, similarity = Fin 0, rank = 3\<rparr>]"
  let ?out = "[\<lparr>rc_chunk = chunk first_result, similarity = Fin (1 / 4), rank = 1\<rparr>,
               \<lparr>rc_chunk = chunk third_result, similarity = Fin 0, rank = 2\<rparr>]"
  have f: "RetrievalStrategy_filter_duplicates exact_arithmetic ?ge ?cfg (to_retrieved 0 ?rs)
             = Inr ?fs"
    by (rule ex_filter)
  have n: "spec_normalized exact_arithmetic [Fin (1 / 2), Fin 0] = [Fin 1, Fin 0]"
    "spec_normalized exact_arithmetic [Fin (1 / 4), Fin 0] = [Fin 1, Fin 0]"
    "spec_normalized exact_arithmetic [Fin 0, Fin 4] = [Fin 0, Fin 1]"
    by (simp_all add: spec_normalized_def ex_ops exact_norm_def l2norm_def real_sqrt_divide)
  have t1: "spec_too_similar exact_arithmetic ?ge (duplicate_threshold ?cfg) ''second'' ''first''"
    by (simp add: spec_too_similar_def ex_ge example_embedding_def n ex_ops exact_dot_def
          inner_product_def spec_exceeds_def ex_cfg)
  have t2: "\<not> spec_too_similar exact_arithmetic ?ge (duplicate_threshold ?cfg) ''third'' ''first''"
    by (simp add: spec_too_similar_def ex_ge example_embedding_def n ex_ops exact_dot_def
          inner_product_def spec_exceeds_def ex_cfg)
  have raw: "exact_dot [Fin (1 / 4), Fin 0] [Fin (1 / 2), Fin 0] = Fin (1 / 8)"
    by (simp add: exact_dot_def inner_product_def)
  have len: "\<forall>c \<in> set (to_retrieved 0 ?rs). \<exists>e. ?ge (text_str (rc_chunk c)) = Inr e \<and> length e = 2"
    by (simp add: ex_ge example_embedding_def first_result_def second_result_def third_result_def)
  have q: "example_provider [''first''] = Inr ([Fin (1 / 2), Fin 0] # [])"
    by (rule ex_query)
  have s3: "similarity_search exact_arithmetic empty_heap example_store [Fin (1 / 2), Fin 0]
        (top_k ?cfg * 2) (min_similarity ?cfg) None = Inr ?rs"
    by (simp add: ex_cfg ex_search3)
  have s2: "similarity_search exact_arithmetic empty_heap example_store_of_two [Fin (1 / 2), Fin 0]
        (top_k ?cfg * 2) (min_similarity ?cfg) None = Inr [first_result, second_result]"
    by (simp add: ex_cfg ex_search2)
  have r3: "retrieve exact_arithmetic example_provider
        (similarity_search exact_arithmetic empty_heap example_store) ?ge ?cfg ''first'' None
       = Inr ?out"
    by (rule ex_retrieve3)
  have fd: "filter_duplicates ?cfg" by (simp add: ex_cfg)
  have so: "\<not> rerank_results ?cfg
            \<or> ((\<forall>x \<in> set ?rs. \<not> is_nan (score x))
                \<and> sorted_wrt (\<lambda>a b. \<not> f64_lt a b) (map score ?rs))"
    by (simp add: first_result_def second_result_def third_result_def)
  have e1: "?ge (text_str (chunk first_result)) = Inr [Fin (1 / 2), Fin 0]"
    and e2: "?ge (text_str (chunk second_result)) = Inr [Fin (1 / 4), Fin 0]"
    by (simp_all add: ex_ge example_embedding_def first_result_def second_result_def)
  have le: "length [Fin (1 / 2), Fin 0] = length [Fin (1 / 4), Fin 0]" by simp
  have ex: "spec_exceeds
        (np_dot_1d exact_arithmetic (spec_normalized exact_arithmetic [Fin (1 / 4), Fin 0])
           (spec_normalized exact_arithmetic [Fin (1 / 2), Fin 0]))
        (duplicate_threshold ?cfg)"
    by (simp add: n ex_ops exact_dot_def inner_product_def spec_exceeds_def ex_cfg)
  have v: "RetrievalConfig_post_init ?cfg = Inr ?cfg"
    by (simp add: RetrievalConfig_post_init_def example_RetrievalConfig_def)
  note w = C5_greedy_duplicate_suppression
    [where ops = exact_arithmetic and ge = ?ge and cfg = ?cfg
       and chunks = "to_retrieved 0 ?rs" and fs = ?fs and n = 2
       and get_embeddings = example_provider and query = "''first''"
       and qe = "[Fin (1 / 2), Fin 0]" and qes = "[]"
       and search = "similarity_search exact_arithmetic empty_heap example_store"
       and filters = None and results = ?rs and out = ?out
       and h = empty_heap and vs = example_store and vfilters = None and vresults = ?rs
       and vout = ?out
       and search_two = "similarity_search exact_arithmetic empty_heap example_store_of_two"
       and ra = first_result and rb = second_result
       and ea = "[Fin (1 / 2), Fin 0]" and eb = "[Fin (1 / 4), Fin 0]"]
  note k1 = mp[OF w[THEN conjunct1] f]
  note k2 = mp[OF w[THEN conjunct2, THEN conjunct1] len]
  have h3: "example_provider [''first''] = Inr ([Fin (1 / 2), Fin 0] # [])
        \<and> similarity_search exact_arithmetic empty_heap example_store [Fin (1 / 2), Fin 0]
            (top_k ?cfg * 2) (min_similarity ?cfg) None = Inr ?rs
        \<and> filter_duplicates ?cfg
        \<and> retrieve exact_arithmetic example_provider
            (similarity_search exact_arithmetic empty_heap example_store) ?ge ?cfg ''first'' None
           = Inr ?out
        \<and> (\<not> rerank_results ?cfg
            \<or> ((\<forall>x \<in> set ?rs. \<not> is_nan (score x))
                \<and> sorted_wrt (\<lambda>a b. \<not> f64_lt a b) (map score ?rs)))"
    by (intro conjI q s3 fd r3 so)
  note k3 = mp[OF w[THEN conjunct2, THEN conjunct2, THEN conjunct1] h3]
  have h4: "example_provider [''first''] = Inr ([Fin (1 / 2), Fin 0] # [])
        \<and> similarity_search exact_arithmetic empty_heap example_store_of_two [Fin (1 / 2), Fin 0]
            (top_k ?cfg * 2) (min_similarity ?cfg) None = Inr [first_result, second_result]
        \<and> ?ge (text_str (chunk first_result)) = Inr [Fin (1 / 2), Fin 0]
        \<and> ?ge (text_str (chunk second_result)) = Inr [Fin (1 / 4), Fin 0]
        \<and> length [Fin (1 / 2), Fin 0] = length [Fin (1 / 4), Fin 0]
        \<and> spec_exceeds
            (np_dot_1d exact_arithmetic (spec_normalized exact_arithmetic [Fin (1 / 4), Fin 0])
               (spec_normalized exact_arithmetic [Fin (1 / 2), Fin 0]))
            (duplicate_threshold ?cfg)
        \<and> filter_duplicates ?cfg
        \<and> RetrievalConfig_post_init ?cfg = Inr ?cfg"
    by (intro conjI q s2 e1 e2 le ex fd v)
  note k4 = mp[OF w[THEN conjunct2, THEN conjunct2, THEN conjunct2, THEN conjunct2,
                    THEN conjunct1] h4]
  have h3s: "example_provider [''first''] = Inr ([Fin (1 / 2), Fin 0] # [])
        \<and> similarity_search exact_arithmetic empty_heap example_store [Fin (1 / 2), Fin 0]
            (top_k ?cfg * 2) (min_similarity ?cfg) None = Inr ?rs
        \<and> filter_duplicates ?cfg
        \<and> retrieve exact_arithmetic example_provider
            (similarity_search exact_arithmetic empty_heap example_store) ?ge ?cfg ''first'' None
           = Inr ?out"
    by (intro conjI q s3 fd r3)
  note k3s = mp[OF w[THEN conjunct2, THEN conjunct2, THEN conjunct2, THEN conjunct1] h3s]
  have kp: "kept ?rs [True, False, True] = [first_result, third_result]"
    by (simp add: kept_def)
  from f k1 t1 t2 raw k2 q s3 r3 k3 k3s kp s2 ex v k4 show ?thesis by (intro conjI)
qed

section \<open>Scores and order of the search results\<close>



























end
